(* ===== verification/GoBase.thy ===== *)
theory GoBase
  imports Complex_Main "HOL-Library.Sublist" "HOL-Library.Multiset" "HOL-Library.Word"
begin

text \<open>
  Prelude: what the SDK's Go code uses of the language and its standard library, and the
  generic lemmas the component theories share.

  Go strings are byte sequences, so they are HOL strings (lists of 8-bit characters);
  \<open>len\<close> is \<open>length\<close>. A machine \<open>int\<close>/\<open>int64\<close> is an \<open>int\<close> whose wrap-around is
  written out with \<open>i64\<close> where it can matter. A Go map whose iteration order matters is an
  association list with distinct keys: the list order is the (arbitrary) iteration order.
  A float64 is an exact rational, without rounding, NaN and infinities.
\<close>

named_theorems go_string "unfolding rules of the string operations"
named_theorems go_num "unfolding rules of the machine-number operations"

section \<open>Machine integers\<close>

definition i64 :: "int \<Rightarrow> int" where
  "i64 x = (x + 2 ^ 63) mod 2 ^ 64 - 2 ^ 63"

definition in_i64 :: "int \<Rightarrow> bool" where
  "in_i64 x \<longleftrightarrow> - (2 ^ 63) \<le> x \<and> x < 2 ^ 63"

lemma i64_id: "in_i64 x \<Longrightarrow> i64 x = x"
  by (simp add: i64_def in_i64_def)

lemma in_i64_i64: "in_i64 (i64 x)"
  by (simp add: i64_def in_i64_def)

lemma i64_word: "i64 x = sint (word_of_int x :: 64 word)"
  by (simp add: i64_def signed_take_bit_eq_take_bit_shift take_bit_eq_mod
      sint_sbintrunc' word_of_int_inverse)

text \<open>
  Conversion of a float64 to int64 truncates towards zero; out of range the result is
  implementation specific, hence the parameter \<open>ovf\<close>.
\<close>

definition trunc_rat :: "rat \<Rightarrow> int" where
  "trunc_rat x = (if 0 \<le> x then \<lfloor>x\<rfloor> else - \<lfloor>- x\<rfloor>)"

definition f2i :: "(rat \<Rightarrow> int) \<Rightarrow> rat \<Rightarrow> int" where
  "f2i ovf x = (if in_i64 (trunc_rat x) then trunc_rat x else ovf x)"

lemma trunc_rat_of_int [simp]: "trunc_rat (rat_of_int n) = n"
  by (simp add: trunc_rat_def)

lemma trunc_rat_nonneg: "0 \<le> x \<Longrightarrow> 0 \<le> trunc_rat x"
  by (simp add: trunc_rat_def)

lemma trunc_rat_le: "0 \<le> x \<Longrightarrow> rat_of_int (trunc_rat x) \<le> x"
  by (simp add: trunc_rat_def)

section \<open>Strings\<close>

fun has_prefix :: "string \<Rightarrow> string \<Rightarrow> bool" where
  "has_prefix s [] = True"
| "has_prefix [] (p # ps) = False"
| "has_prefix (c # s) (p # ps) = (c = p \<and> has_prefix s ps)"

lemma has_prefix_iff [go_string]: "has_prefix s p \<longleftrightarrow> prefix p s"
  by (induction s p rule: has_prefix.induct) (auto simp: prefix_Cons)

fun str_contains :: "string \<Rightarrow> string \<Rightarrow> bool" where
  "str_contains [] n = (n = [])"
| "str_contains (c # h) n = (has_prefix (c # h) n \<or> str_contains h n)"

lemma str_contains_iff [go_string]: "str_contains h n \<longleftrightarrow> sublist n h"
  by (induction h n rule: str_contains.induct)
     (auto simp: has_prefix_iff sublist_Cons_right)

definition char_code :: "char \<Rightarrow> nat" where
  "char_code c = of_char c"

definition lower_char :: "char \<Rightarrow> char" where
  "lower_char c = (if 65 \<le> char_code c \<and> char_code c \<le> 90 then char_of (char_code c + 32) else c)"

definition to_lower :: "string \<Rightarrow> string" where
  "to_lower s = map lower_char s"

lemma lower_char_idem: "lower_char (lower_char c) = lower_char c"
  by (simp add: lower_char_def char_code_def)

lemma to_lower_idem: "to_lower (to_lower s) = to_lower s"
  by (simp add: to_lower_def lower_char_idem)

definition is_space :: "char \<Rightarrow> bool" where
  "is_space c \<longleftrightarrow> char_code c \<in> {9, 10, 11, 12, 13, 32}"

definition is_digit :: "char \<Rightarrow> bool" where
  "is_digit c \<longleftrightarrow> 48 \<le> char_code c \<and> char_code c \<le> 57"

definition digit_val :: "char \<Rightarrow> nat" where
  "digit_val c = char_code c - 48"

definition digits_value :: "string \<Rightarrow> nat" where
  "digits_value ds = foldl (\<lambda>n c. 10 * n + digit_val c) 0 ds"

definition trim_space :: "string \<Rightarrow> string" where
  "trim_space s = rev (dropWhile is_space (rev (dropWhile is_space s)))"

fun split_on :: "char \<Rightarrow> string \<Rightarrow> string list" where
  "split_on c [] = [[]]"
| "split_on c (x # xs) =
     (if x = c then [] # split_on c xs
      else (case split_on c xs of [] \<Rightarrow> [[x]] | p # ps \<Rightarrow> (x # p) # ps))"

fun join_with :: "string \<Rightarrow> string list \<Rightarrow> string" where
  "join_with sep [] = []"
| "join_with sep [p] = p"
| "join_with sep (p # q # ps) = p @ sep @ join_with sep (q # ps)"

lemma split_on_not_Nil [simp]: "split_on c s \<noteq> []"
  by (induction s) (auto split: list.splits)

lemma join_with_Cons: "ps \<noteq> [] \<Longrightarrow> join_with sep (p # ps) = p @ sep @ join_with sep ps"
  by (cases ps) auto

lemma join_split: "join_with [c] (split_on c s) = s"
proof (induction s)
  case Nil
  then show ?case by simp
next
  case (Cons x xs)
  obtain p ps where p: "split_on c xs = p # ps"
    by (cases "split_on c xs") auto
  then show ?case
    using Cons by (cases ps) auto
qed

lemma split_on_no_sep: "p \<in> set (split_on c s) \<Longrightarrow> c \<notin> set p"
  by (induction s arbitrary: p) (auto split: list.splits if_splits)

lemma length_split_on: "length (split_on c s) = Suc (count_list s c)"
  by (induction s) (auto split: list.splits)

lemma split_join:
  "ps \<noteq> [] \<Longrightarrow> (\<And>p. p \<in> set ps \<Longrightarrow> c \<notin> set p) \<Longrightarrow> split_on c (join_with [c] ps) = ps"
proof (induction ps)
  case (Cons p ps)
  have one: "c \<notin> set q \<Longrightarrow> split_on c q = [q]" for q
    by (induction q) auto
  have app: "c \<notin> set q \<Longrightarrow> split_on c (q @ c # r) = q # split_on c r" for q r
    by (induction q) auto
  show ?case
    using Cons one app by (cases ps) auto
qed simp

text \<open>\<open>strings.Cut\<close>: the text before and after the first occurrence of a separator.\<close>

fun str_cut :: "string \<Rightarrow> string \<Rightarrow> (string \<times> string) option" where
  "str_cut [] sep = (if sep = [] then Some ([], []) else None)"
| "str_cut (c # s) sep =
     (if has_prefix (c # s) sep then Some ([], drop (length sep) (c # s))
      else map_option (\<lambda>(b, a). (c # b, a)) (str_cut s sep))"

lemma str_cut_Some: "str_cut s sep = Some (b, a) \<Longrightarrow> s = b @ sep @ a"
proof (induction s arbitrary: b)
  case (Cons c s)
  then show ?case
    by (auto simp: has_prefix_iff prefix_def split: if_splits)
qed (auto split: if_splits)

lemma prefix_butlast:
  "prefix sep (x # b @ sep @ a) \<Longrightarrow> prefix sep (x # b @ butlast sep)"
proof -
  assume p: "prefix sep (x # b @ sep @ a)"
  show "prefix sep (x # b @ butlast sep)"
  proof (cases "sep = []")
    case False
    then have "x # b @ sep @ a = (x # b @ butlast sep) @ (last sep # a)" by simp
    with p have "prefix sep ((x # b @ butlast sep) @ (last sep # a))" by simp
    then consider "prefix sep (x # b @ butlast sep)"
      | us where "sep = (x # b @ butlast sep) @ us"
      unfolding prefix_append by blast
    then show ?thesis
    proof cases
      case 2
      then have "length sep = Suc (length b) + (length sep - 1) + length us"
        by (metis length_Cons length_append length_butlast add_Suc)
      with False 2 show ?thesis by (cases us) (auto simp: Suc_le_eq)
    qed
  qed simp
qed

lemma str_cut_append:
  "sep \<noteq> [] \<Longrightarrow> \<not> sublist sep (b @ butlast sep) \<Longrightarrow> str_cut (b @ sep @ a) sep = Some (b, a)"
proof (induction b)
  case Nil
  then obtain c s where "sep = c # s" by (cases sep) auto
  then show ?case by (simp add: has_prefix_iff)
next
  case (Cons x b)
  have "\<not> prefix sep (x # b @ sep @ a)"
    using Cons.prems prefix_butlast [of sep x b a] prefix_imp_sublist by auto
  moreover have "\<not> sublist sep (b @ butlast sep)"
    using Cons.prems by (metis append_Cons sublist_Cons_right)
  ultimately show ?case using Cons.IH [OF Cons.prems(1)] by (simp add: has_prefix_iff)
qed

lemma str_cut_None: "str_cut s sep = None \<longleftrightarrow> \<not> str_contains s sep"
  by (induction s) auto

section \<open>Decimal rendering (\<open>%d\<close>, \<open>strconv.Itoa\<close>) and quoting (\<open>%q\<close>)\<close>

fun nat_digits :: "nat \<Rightarrow> string" where
  "nat_digits n = (if n < 10 then [char_of (48 + n)]
                   else nat_digits (n div 10) @ [char_of (48 + n mod 10)])"

declare nat_digits.simps [simp del]

definition itoa :: "int \<Rightarrow> string" where
  "itoa i = (if i < 0 then ''-'' @ nat_digits (nat (- i)) else nat_digits (nat i))"

definition quote_char :: "char \<Rightarrow> string" where
  "quote_char c = (if c = CHR 0x22 then [CHR 0x5C, CHR 0x22]
     else if c = CHR 0x5C then [CHR 0x5C, CHR 0x5C] else [c])"

definition go_quote :: "string \<Rightarrow> string" where
  "go_quote s = [CHR 0x22] @ concat (map quote_char s) @ [CHR 0x22]"

section \<open>Values of type \<open>any\<close> decoded from JSON\<close>

datatype json =
    JNull
  | JBool bool
  | JNum rat
  | JStr string
  | JArr "json list"
  | JObj "(string \<times> json) list"

fun as_string :: "json option \<Rightarrow> string option" where
  "as_string (Some (JStr s)) = Some s"
| "as_string _ = None"

fun as_bool :: "json option \<Rightarrow> bool option" where
  "as_bool (Some (JBool b)) = Some b"
| "as_bool _ = None"

fun as_arr :: "json option \<Rightarrow> json list option" where
  "as_arr (Some (JArr xs)) = Some xs"
| "as_arr _ = None"

fun as_obj :: "json option \<Rightarrow> (string \<times> json) list option" where
  "as_obj (Some (JObj m)) = Some m"
| "as_obj _ = None"

definition jget :: "(string \<times> json) list \<Rightarrow> string \<Rightarrow> json option" where
  "jget m k = map_of m k"

text \<open>The string elements of an array, as in the loops \<open>if s, ok := e.(string); ok\<close>.\<close>

fun json_strings :: "json list \<Rightarrow> string list" where
  "json_strings [] = []"
| "json_strings (JStr s # xs) = s # json_strings xs"
| "json_strings (_ # xs) = json_strings xs"

lemma json_strings_map_JStr [simp]: "json_strings (map JStr ss) = ss"
  by (induction ss) auto

section \<open>Optional pointers\<close>

definition str_or :: "string option \<Rightarrow> string" where
  "str_or p = (case p of None \<Rightarrow> [] | Some s \<Rightarrow> s)"

lemma str_or_simps [simp]: "str_or None = []" "str_or (Some s) = s"
  by (simp_all add: str_or_def)

definition is_some :: "'a option \<Rightarrow> bool" where
  "is_some x \<longleftrightarrow> x \<noteq> None"

lemma is_some_simps [simp]: "is_some (Some a)" "\<not> is_some None"
  by (simp_all add: is_some_def)

lemma is_some_conv: "is_some x \<longleftrightarrow> (\<exists>a. x = Some a)"
  by (cases x) (auto simp: is_some_def)

section \<open>Go maps as association lists with distinct keys\<close>

fun amap_put :: "'k \<Rightarrow> 'v \<Rightarrow> ('k \<times> 'v) list \<Rightarrow> ('k \<times> 'v) list" where
  "amap_put k v [] = [(k, v)]"
| "amap_put k v ((k', v') # m) = (if k' = k then (k, v) # m else (k', v') # amap_put k v m)"

definition amap_del :: "'k \<Rightarrow> ('k \<times> 'v) list \<Rightarrow> ('k \<times> 'v) list" where
  "amap_del k m = filter (\<lambda>e. fst e \<noteq> k) m"

definition amap_ok :: "('k \<times> 'v) list \<Rightarrow> bool" where
  "amap_ok m \<longleftrightarrow> distinct (map fst m)"

lemma map_of_amap_put [simp]: "map_of (amap_put k v m) = (map_of m)(k \<mapsto> v)"
  by (induction m) auto

lemma keys_amap_put: "fst ` set (amap_put k v m) = insert k (fst ` set m)"
  by (simp flip: dom_map_of_conv_image_fst)

lemma map_of_amap_del [simp]: "map_of (amap_del k m) = (map_of m)(k := None)"
  by (induction m) (auto simp: amap_del_def)

lemma keys_amap_del: "fst ` set (amap_del k m) = fst ` set m - {k}"
  by (auto simp: amap_del_def)

lemma amap_ok_Nil [simp]: "amap_ok []"
  by (simp add: amap_ok_def)

lemma amap_ok_put [intro]: "amap_ok m \<Longrightarrow> amap_ok (amap_put k v m)"
proof (induction m)
  case (Cons e m)
  obtain k' v' where e: "e = (k', v')" by (cases e)
  have "k' \<noteq> k \<Longrightarrow> k' \<notin> fst ` set m \<Longrightarrow> k' \<notin> fst ` set (amap_put k v m)"
    by (simp add: keys_amap_put)
  with Cons e show ?case by (auto simp: amap_ok_def)
qed (simp add: amap_ok_def)

lemma amap_ok_del [intro]: "amap_ok m \<Longrightarrow> amap_ok (amap_del k m)"
  by (simp add: amap_ok_def amap_del_def distinct_map_filter)

lemma amap_put_new: "map_of m k = None \<Longrightarrow> amap_put k v m = m @ [(k, v)]"
  by (induction m) (auto split: if_splits)

lemma length_amap_put:
  "length (amap_put k v m) = (if map_of m k = None then Suc (length m) else length m)"
  by (induction m) auto

text \<open>An association list without duplicate keys reads the same from either end.\<close>

lemma map_of_rev_distinct: "distinct (map fst xs) \<Longrightarrow> map_of (rev xs) = map_of xs"
  using map_of_inject_set [of "rev xs" xs] by (simp add: rev_map [symmetric])

end
