(* ===== verification/SdkErrors.thy ===== *)
theory SdkErrors
  imports GoBase
begin

text \<open>
  The SDK's error values (\<open>errors.go\<close>) and their classification
  (\<open>error_classification.go\<close>).

  A Go error is a tree: a sentinel (compared by identity), an opaque text, a typed error of
  the SDK, or a \<open>fmt.Errorf\<close> value whose \<open>%w\<close> verbs wrap other errors. \<open>errors_is\<close> and
  \<open>as_request\<close> are \<open>errors.Is\<close> and \<open>errors.As\<close> over that tree (pre-order, the \<open>Is\<close> methods
  of the typed errors included); \<open>err_msg\<close> is the \<open>Error\<close> method.
\<close>

section \<open>Error values\<close>

datatype sentinel =
    ErrAuthRequired | ErrCancelled | ErrCLINotFound | ErrUnsupportedCLIVersion
  | ErrClientClosed | ErrClientNotStarted | ErrClientAlreadyConnected | ErrRequestTimeout
  | ErrCapabilityUnavailable | ErrUpdateQueueOverflow | ErrExtensionMethodRequired
  | ErrStructuredOutputMissing | ErrTransport | ErrSessionNotFound
  | ErrBudgetExceeded | ErrSessionCostNotFound | ErrHookRejected | ErrNoOptionOfKind
  | ErrNoLoginLaunch | ErrTerminalUnsupported | ErrElicitationUnavailable
  | CliErrNotFound | CliErrUnsupportedVersion | SessionErrNotFound | ErrServerNotReady
  | CtxCanceled | CtxDeadlineExceeded | OsErrNotExist | SqlErrNoRows

text \<open>The texts of the sentinels declared in the SDK and of the library sentinels it tests.\<close>

fun sentinel_msg :: "sentinel \<Rightarrow> string" where
  "sentinel_msg ErrAuthRequired =
     ''opencode authentication required; run `opencode auth login` in a terminal''"
| "sentinel_msg ErrCancelled = ''prompt cancelled''"
| "sentinel_msg ErrCLINotFound = ''opencode CLI not found''"
| "sentinel_msg ErrUnsupportedCLIVersion = ''opencode CLI version is older than MinimumCLIVersion''"
| "sentinel_msg ErrClientClosed = ''client is closed''"
| "sentinel_msg ErrClientNotStarted = ''client has not been started''"
| "sentinel_msg ErrClientAlreadyConnected = ''client has already been started''"
| "sentinel_msg ErrRequestTimeout = ''request timed out''"
| "sentinel_msg ErrCapabilityUnavailable = ''agent does not advertise required prompt capability''"
| "sentinel_msg ErrUpdateQueueOverflow =
     ''session updates buffer overflowed; notifications were dropped''"
| "sentinel_msg ErrExtensionMethodRequired =
     ''extension method names must begin with '' @ [CHR 0x22] @ ''_'' @ [CHR 0x22]"
| "sentinel_msg ErrStructuredOutputMissing = ''opencodesdk: structured output missing''"
| "sentinel_msg ErrTransport = ''opencodesdk: transport closed unexpectedly''"
| "sentinel_msg ErrSessionNotFound = ''opencodesdk: session not found''"
| "sentinel_msg ErrBudgetExceeded = ''opencodesdk: budget exceeded''"
| "sentinel_msg ErrSessionCostNotFound = ''opencodesdk: session cost not found''"
| "sentinel_msg ErrHookRejected = ''opencodesdk: hook rejected''"
| "sentinel_msg ErrNoOptionOfKind = ''no permission option of requested kind''"
| "sentinel_msg ErrNoLoginLaunch =
     ''opencodesdk: no terminal-auth launch instructions to execute''"
| "sentinel_msg ErrTerminalUnsupported = ''terminal/* not supported by opencode ACP''"
| "sentinel_msg ErrElicitationUnavailable =
     ''opencodesdk: elicitation unavailable; call Elicit from within a Tool.Execute invocation''"
| "sentinel_msg CliErrNotFound = ''opencode binary not found''"
| "sentinel_msg CliErrUnsupportedVersion =
     ''opencode binary is older than minimum supported version''"
| "sentinel_msg SessionErrNotFound = ''session not found''"
| "sentinel_msg ErrServerNotReady = ''opencode serve did not become ready''"
| "sentinel_msg CtxCanceled = ''context canceled''"
| "sentinel_msg CtxDeadlineExceeded = ''context deadline exceeded''"
| "sentinel_msg OsErrNotExist = ''file does not exist''"
| "sentinel_msg SqlErrNoRows = ''sql: no rows in result set''"

datatype goerr =
    ESent sentinel
  | ENew string
  | EWrap string "goerr list"
  | ERequest int string json
  | EAcp int string json
  | ECLINotFound "string list" "goerr option"
  | EProcess int string "goerr option"
  | ETransport string "goerr option"
  | EJoin "goerr list"

fun err_msg :: "goerr \<Rightarrow> string" where
  "err_msg (ESent s) = sentinel_msg s"
| "err_msg (ENew t) = t"
| "err_msg (EWrap t _) = t"
| "err_msg (ERequest code msg _) = ''acp error '' @ itoa code @ '': '' @ msg"
| "err_msg (EAcp code msg _) = msg"
| "err_msg (ECLINotFound paths cause) =
     (if paths = [] then
        (case cause of Some e \<Rightarrow> ''opencode CLI not found: '' @ err_msg e
                     | None \<Rightarrow> ''opencode CLI not found'')
      else ''opencode CLI not found in: ['' @ join_with '' '' paths @ '']'')"
| "err_msg (EProcess code stderr cause) =
     ''opencode acp process failed (exit '' @ itoa code @ '')''
     @ (case cause of Some e \<Rightarrow> '': '' @ err_msg e | None \<Rightarrow> [])
     @ (if stderr \<noteq> [] then '': '' @ stderr else [])"
| "err_msg (ETransport reason cause) =
     ''opencodesdk: transport closed unexpectedly''
     @ (if reason \<noteq> [] then '' ('' @ reason @ '')'' else [])
     @ (case cause of Some e \<Rightarrow> '': '' @ err_msg e | None \<Rightarrow> [])"
| "err_msg (EJoin es) = join_with [CHR 0x0A] (map err_msg es)"

text \<open>\<open>Unwrap() error\<close> and \<open>Unwrap() []error\<close>.\<close>

fun unwrap :: "goerr \<Rightarrow> goerr list" where
  "unwrap (EWrap _ es) = es"
| "unwrap (ECLINotFound _ (Some e)) = [e]"
| "unwrap (EProcess _ _ (Some e)) = [e]"
| "unwrap (ETransport _ (Some e)) = [e]"
| "unwrap (EJoin es) = es"
| "unwrap _ = []"

text \<open>Identity of the error itself or its own \<open>Is\<close> method.\<close>

fun is_self :: "goerr \<Rightarrow> sentinel \<Rightarrow> bool" where
  "is_self (ESent s) t = (s = t)"
| "is_self (ECLINotFound _ _) t = (t = ErrCLINotFound)"
| "is_self (ETransport _ _) t = (t = ErrTransport)"
| "is_self _ t = False"

lemma size_unwrap [termination_simp]: "e' \<in> set (unwrap e) \<Longrightarrow> size e' < size e"
  by (induction e rule: unwrap.induct) (auto dest: size_list_estimation'[of _ _ _ size])

fun errors_is :: "goerr \<Rightarrow> sentinel \<Rightarrow> bool" where
  "errors_is e t = (is_self e t \<or> list_ex (\<lambda>e'. errors_is e' t) (unwrap e))"

declare errors_is.simps [simp del]

text \<open>The first result of a search over a list of wrapped errors.\<close>

fun first_some :: "'a option list \<Rightarrow> 'a option" where
  "first_some [] = None"
| "first_some (Some a # xs) = Some a"
| "first_some (None # xs) = first_some xs"

fun request_self :: "goerr \<Rightarrow> (int \<times> string \<times> json) option" where
  "request_self (ERequest c m d) = Some (c, m, d)"
| "request_self _ = None"

fun acp_self :: "goerr \<Rightarrow> (int \<times> string \<times> json) option" where
  "acp_self (EAcp c m d) = Some (c, m, d)"
| "acp_self _ = None"

function errors_as :: "(goerr \<Rightarrow> 'a option) \<Rightarrow> goerr \<Rightarrow> 'a option" where
  "errors_as f e = (case f e of Some a \<Rightarrow> Some a
                              | None \<Rightarrow> first_some (map (errors_as f) (unwrap e)))"
  by pat_completeness auto
termination
  by (relation "measure (\<lambda>(f, e). size e)") (auto dest: size_unwrap)

declare errors_as.simps [simp del]

definition as_request :: "goerr \<Rightarrow> (int \<times> string \<times> json) option" where
  "as_request e = errors_as request_self e"

definition as_acp :: "goerr \<Rightarrow> (int \<times> string \<times> json) option" where
  "as_acp e = errors_as acp_self e"

text \<open>\<open>fmt.Errorf\<close> with one leading \<open>%w\<close> and a text, and with a prefix before \<open>%w\<close>.\<close>

definition errorf_w_s :: "goerr \<Rightarrow> string \<Rightarrow> goerr" where
  "errorf_w_s e s = EWrap (err_msg e @ '': '' @ s) [e]"

definition errorf_s_w :: "string \<Rightarrow> goerr \<Rightarrow> goerr" where
  "errorf_s_w s e = EWrap (s @ '': '' @ err_msg e) [e]"

definition errorf_w_w :: "goerr \<Rightarrow> goerr \<Rightarrow> goerr" where
  "errorf_w_w e f = EWrap (err_msg e @ '': '' @ err_msg f) [e, f]"

lemma errors_is_wrap [simp]:
  "errors_is (ESent s) t \<longleftrightarrow> s = t"
  "\<not> errors_is (ENew m) t"
  "errors_is (EWrap m es) t \<longleftrightarrow> (\<exists>e \<in> set es. errors_is e t)"
  "errors_is (errorf_w_s e m) t \<longleftrightarrow> errors_is e t"
  "errors_is (errorf_s_w m e) t \<longleftrightarrow> errors_is e t"
  "errors_is (errorf_w_w e f) t \<longleftrightarrow> errors_is e t \<or> errors_is f t"
  "\<not> errors_is (ERequest c m d) t"
  "\<not> errors_is (EAcp c m d) t"
  "errors_is (EJoin es) t \<longleftrightarrow> (\<exists>e \<in> set es. errors_is e t)"
  by (subst errors_is.simps; auto simp: list_ex_iff errorf_w_s_def errorf_s_w_def errorf_w_w_def)+

lemma errors_is_typed [simp]:
  "errors_is (ECLINotFound ps c) t \<longleftrightarrow>
     t = ErrCLINotFound \<or> (case c of None \<Rightarrow> False | Some e \<Rightarrow> errors_is e t)"
  "errors_is (ETransport r c) t \<longleftrightarrow>
     t = ErrTransport \<or> (case c of None \<Rightarrow> False | Some e \<Rightarrow> errors_is e t)"
  "errors_is (EProcess n r c) t \<longleftrightarrow> (case c of None \<Rightarrow> False | Some e \<Rightarrow> errors_is e t)"
  by (subst errors_is.simps, cases c; simp)+

lemma errors_as_leaf [simp]:
  "errors_as f (ESent s) = f (ESent s)"
  "errors_as f (ENew m) = f (ENew m)"
  "errors_as f (ERequest c m d) = f (ERequest c m d)"
  "errors_as f (EAcp c m d) = f (EAcp c m d)"
  by (subst errors_as.simps; simp split: option.splits)+

lemma errors_as_wrap1 [simp]:
  "errors_as f (EWrap m [e]) = (case f (EWrap m [e]) of Some a \<Rightarrow> Some a | None \<Rightarrow> errors_as f e)"
  by (subst errors_as.simps, cases "errors_as f e") (simp_all split: option.splits)

section \<open>Conversion of protocol errors\<close>

definition codeAuthRequired :: int where "codeAuthRequired = -32000"
definition codeRequestCancelled :: int where "codeRequestCancelled = -32800"

definition wrapACPErr :: "goerr \<Rightarrow> goerr" where
  "wrapACPErr err =
     (case as_acp err of
        None \<Rightarrow> err
      | Some (code, msg, d) \<Rightarrow>
          if code = codeAuthRequired then errorf_w_s (ESent ErrAuthRequired) msg
          else if code = codeRequestCancelled then errorf_w_s (ESent ErrCancelled) msg
          else ERequest code msg d)"

text \<open>The context enters through \<open>ctx.Err()\<close>: \<open>None\<close> while it is live.\<close>

definition wrapACPErrCtx :: "goerr option \<Rightarrow> goerr \<Rightarrow> goerr" where
  "wrapACPErrCtx ctxErr err =
     (if errors_is err CtxDeadlineExceeded
         \<or> (case ctxErr of None \<Rightarrow> False | Some ce \<Rightarrow> errors_is ce CtxDeadlineExceeded)
      then errorf_w_w (ESent ErrRequestTimeout) err
      else wrapACPErr err)"

section \<open>Classification\<close>

datatype ErrorClass =
    ErrorClassZero | ErrorClassUnknown | ErrorClassAuthentication | ErrorClassRateLimit
  | ErrorClassOverload | ErrorClassCancelled | ErrorClassTransientConnection
  | ErrorClassCapability | ErrorClassCLI | ErrorClassExecution

datatype ErrorSubClass =
    ErrorSubClassNone | ErrorSubClassPromptTooLong | ErrorSubClassRateLimitTokens
  | ErrorSubClassRateLimitRequests | ErrorSubClassInvalidSchema | ErrorSubClassInvalidModel
  | ErrorSubClassProviderError | ErrorSubClassSubprocessDied

datatype RecoveryAction =
    RecoveryActionZero | RecoveryActionNone | RecoveryActionRefreshAuth
  | RecoveryActionRetryWithBackoff | RecoveryActionFallback | RecoveryActionStop

record ErrorClassification =
  ec_Class :: ErrorClass
  ec_SubClass :: ErrorSubClass
  ec_RecoveryAction :: RecoveryAction
  ec_Retryable :: bool
  ec_HTTPStatus :: "int option"
  ec_Message :: string

definition zero_classification :: ErrorClassification where
  "zero_classification =
     \<lparr>ec_Class = ErrorClassZero, ec_SubClass = ErrorSubClassNone,
      ec_RecoveryAction = RecoveryActionZero, ec_Retryable = False,
      ec_HTTPStatus = None, ec_Message = []\<rparr>"

fun containsAny :: "string \<Rightarrow> string list \<Rightarrow> bool" where
  "containsAny h [] = False"
| "containsAny h (n # ns) = (str_contains h n \<or> containsAny h ns)"

lemma containsAny_iff: "containsAny h ns \<longleftrightarrow> (\<exists>n \<in> set ns. sublist n h)"
  by (induction ns) (auto simp: str_contains_iff)

definition subclassFromMessage :: "string \<Rightarrow> ErrorSubClass" where
  "subclassFromMessage msg =
     (let joined = to_lower msg in
      if containsAny joined [''context length'', ''context window'', ''context_length_exceeded'',
           ''prompt is too long'', ''maximum context length'', ''too many tokens'',
           ''input is too long'', ''request too large'']
      then ErrorSubClassPromptTooLong
      else if containsAny joined [''tokens per minute'', ''tpm'', ''token rate'']
      then ErrorSubClassRateLimitTokens
      else if containsAny joined [''requests per minute'', ''rpm'', ''request rate'']
      then ErrorSubClassRateLimitRequests
      else if containsAny joined [''invalid params'', ''expected array'', ''invalid_request_error'',
           ''invalid_schema'', ''malformed'', ''schema validation'']
      then ErrorSubClassInvalidSchema
      else if containsAny joined [''model not found'', ''unknown model'', ''invalid model'',
           ''model does not exist'']
      then ErrorSubClassInvalidModel
      else if containsAny joined [''provider error'', ''upstream'', ''bad gateway'',
           ''provider_returned_error'']
      then ErrorSubClassProviderError
      else if containsAny joined [''opencode acp exited'', ''subprocess'', ''process failed'',
           ''broken pipe'']
      then ErrorSubClassSubprocessDied
      else ErrorSubClassNone)"

definition classifyFromRequestError ::
  "goerr \<Rightarrow> ErrorClassification \<Rightarrow> ErrorClassification" where
  "classifyFromRequestError err out =
     (case as_request err of
        None \<Rightarrow> out
      | Some (code, _, _) \<Rightarrow>
          (let out = out\<lparr>ec_HTTPStatus := Some code\<rparr> in
           if code = 401 \<or> code = 403 then
             out\<lparr>ec_Class := ErrorClassAuthentication,
                 ec_RecoveryAction := RecoveryActionRefreshAuth\<rparr>
           else if code = 408 \<or> code = 409
                   \<or> (code \<ge> 500 \<and> code < 600 \<and> code \<noteq> 503 \<and> code \<noteq> 529) then
             out\<lparr>ec_Class := ErrorClassExecution\<rparr>
           else if code = 429 then
             out\<lparr>ec_Class := ErrorClassRateLimit,
                 ec_RecoveryAction := RecoveryActionRetryWithBackoff\<rparr>
           else if code = 503 \<or> code = 529 then
             out\<lparr>ec_Class := ErrorClassOverload,
                 ec_RecoveryAction := RecoveryActionRetryWithBackoff\<rparr>
           else out))"

definition classifyFromMessage :: "string \<Rightarrow> ErrorClassification \<Rightarrow> ErrorClassification" where
  "classifyFromMessage msg out =
     (let joined = to_lower msg in
      if containsAny joined [''econnreset'', ''epipe'', ''connection reset'', ''broken pipe'',
           ''connection refused'', ''network is unreachable'', ''temporarily unavailable'',
           ''i/o timeout'', ''dial tcp'']
      then out\<lparr>ec_Class := ErrorClassTransientConnection,
               ec_RecoveryAction := RecoveryActionRetryWithBackoff\<rparr>
      else if containsAny joined [''rate limit'', ''429'']
      then out\<lparr>ec_Class := ErrorClassRateLimit,
               ec_RecoveryAction := RecoveryActionRetryWithBackoff\<rparr>
      else if containsAny joined [''overload'', ''server overloaded'', ''529'']
      then out\<lparr>ec_Class := ErrorClassOverload,
               ec_RecoveryAction := RecoveryActionRetryWithBackoff\<rparr>
      else if containsAny joined [''unauthorized'', ''api key'', ''authentication'']
      then out\<lparr>ec_Class := ErrorClassAuthentication,
               ec_RecoveryAction := RecoveryActionRefreshAuth\<rparr>
      else out)"

definition isRetryableClass :: "ErrorClass \<Rightarrow> bool" where
  "isRetryableClass c \<longleftrightarrow>
     c \<in> {ErrorClassRateLimit, ErrorClassOverload, ErrorClassTransientConnection}"

fun recoveryForClass :: "ErrorClass \<Rightarrow> RecoveryAction" where
  "recoveryForClass ErrorClassAuthentication = RecoveryActionRefreshAuth"
| "recoveryForClass ErrorClassRateLimit = RecoveryActionRetryWithBackoff"
| "recoveryForClass ErrorClassOverload = RecoveryActionRetryWithBackoff"
| "recoveryForClass ErrorClassTransientConnection = RecoveryActionRetryWithBackoff"
| "recoveryForClass ErrorClassCancelled = RecoveryActionStop"
| "recoveryForClass ErrorClassCapability = RecoveryActionStop"
| "recoveryForClass ErrorClassCLI = RecoveryActionStop"
| "recoveryForClass _ = RecoveryActionNone"

text \<open>The switch of \<open>ClassifyError\<close> on the sentinels, with its default branch.\<close>

definition classify_switch :: "goerr \<Rightarrow> ErrorClassification" where
  "classify_switch err =
     (let c = zero_classification\<lparr>ec_Message := err_msg err\<rparr> in
      if errors_is err ErrAuthRequired then
        c\<lparr>ec_Class := ErrorClassAuthentication, ec_RecoveryAction := RecoveryActionRefreshAuth\<rparr>
      else if errors_is err ErrCancelled then
        c\<lparr>ec_Class := ErrorClassCancelled, ec_RecoveryAction := RecoveryActionStop\<rparr>
      else if errors_is err ErrCapabilityUnavailable then
        c\<lparr>ec_Class := ErrorClassCapability, ec_RecoveryAction := RecoveryActionStop\<rparr>
      else if errors_is err ErrCLINotFound \<or> errors_is err ErrUnsupportedCLIVersion then
        c\<lparr>ec_Class := ErrorClassCLI, ec_RecoveryAction := RecoveryActionStop\<rparr>
      else
        (let c = classifyFromRequestError err c in
         if ec_Class c = ErrorClassZero then classifyFromMessage (ec_Message c) c else c))"

text \<open>The three defaults and the retryable flag at the end of \<open>ClassifyError\<close>.\<close>

definition classify_finish :: "ErrorClassification \<Rightarrow> ErrorClassification" where
  "classify_finish c =
     (let c = (if ec_Class c = ErrorClassZero then c\<lparr>ec_Class := ErrorClassExecution\<rparr> else c);
          c = (if ec_SubClass c = ErrorSubClassNone
               then c\<lparr>ec_SubClass := subclassFromMessage (ec_Message c)\<rparr> else c);
          c = (if ec_RecoveryAction c = RecoveryActionZero
               then c\<lparr>ec_RecoveryAction := recoveryForClass (ec_Class c)\<rparr> else c)
      in c\<lparr>ec_Retryable := isRetryableClass (ec_Class c)
                            \<and> ec_SubClass c \<noteq> ErrorSubClassPromptTooLong\<rparr>)"

definition ClassifyError :: "goerr option \<Rightarrow> ErrorClassification" where
  "ClassifyError oerr =
     (case oerr of
        None \<Rightarrow> zero_classification\<lparr>ec_Class := ErrorClassUnknown,
                                     ec_RecoveryAction := RecoveryActionNone\<rparr>
      | Some err \<Rightarrow> classify_finish (classify_switch err))"

definition IsRetryable :: "goerr option \<Rightarrow> bool" where
  "IsRetryable oerr = (case oerr of None \<Rightarrow> False | Some e \<Rightarrow> ec_Retryable (ClassifyError (Some e)))"

definition UnwrapRequestError :: "goerr \<Rightarrow> (int \<times> string \<times> json) option" where
  "UnwrapRequestError e = as_request e"

lemmas classify_defs =
  ClassifyError_def classify_finish_def classify_switch_def classifyFromRequestError_def
  classifyFromMessage_def zero_classification_def Let_def

section \<open>Facts about the classification\<close>

text \<open>
  The switch never writes the subclass, the message or the flag, so the invariants below are
  proved on the switch once and read off the finished classification.
\<close>

definition switch_ok :: "goerr \<Rightarrow> ErrorClassification \<Rightarrow> bool" where
  "switch_ok err c \<longleftrightarrow>
     ec_Message c = err_msg err \<and> ec_SubClass c = ErrorSubClassNone \<and>
     (ec_RecoveryAction c = RecoveryActionZero \<or> ec_RecoveryAction c = recoveryForClass (ec_Class c)) \<and>
     ec_Class c \<noteq> ErrorClassUnknown"

lemma switch_ok_request:
  "switch_ok err c \<Longrightarrow> ec_RecoveryAction c = RecoveryActionZero \<Longrightarrow>
   switch_ok err (classifyFromRequestError err c)"
  by (auto simp: switch_ok_def classifyFromRequestError_def Let_def split: option.splits)

lemma switch_ok_message: "switch_ok err c \<Longrightarrow> switch_ok err (classifyFromMessage m c)"
  by (auto simp: switch_ok_def classifyFromMessage_def Let_def simp del: containsAny.simps)

lemma switch_ok_classify: "switch_ok err (classify_switch err)"
proof -
  have base: "switch_ok err (zero_classification\<lparr>ec_Message := err_msg err\<rparr>)"
    by (simp add: switch_ok_def zero_classification_def)
  show ?thesis
    unfolding classify_switch_def Let_def
    using switch_ok_message [OF switch_ok_request [OF base]] switch_ok_request [OF base]
    by (auto simp: switch_ok_def zero_classification_def)
qed

lemma classify_finish_fields:
  assumes "switch_ok err c"
  shows "ec_Class (classify_finish c) =
           (if ec_Class c = ErrorClassZero then ErrorClassExecution else ec_Class c)"
    and "ec_SubClass (classify_finish c) = subclassFromMessage (err_msg err)"
    and "ec_RecoveryAction (classify_finish c) =
           recoveryForClass (ec_Class (classify_finish c))"
    and "ec_Message (classify_finish c) = err_msg err"
    and "ec_Retryable (classify_finish c) \<longleftrightarrow>
           isRetryableClass (ec_Class c) \<and> subclassFromMessage (err_msg err) \<noteq> ErrorSubClassPromptTooLong"
  using assms
  by (auto simp: switch_ok_def classify_finish_def Let_def isRetryableClass_def
      simp del: containsAny.simps)

lemma ClassifyError_Class:
  "ec_Class (ClassifyError (Some err)) =
     (if ec_Class (classify_switch err) = ErrorClassZero then ErrorClassExecution
      else ec_Class (classify_switch err))"
  by (simp add: ClassifyError_def classify_finish_fields(1) [OF switch_ok_classify])

text \<open>
  every classification of a non-nil error is complete and consistent: the class is neither
  the zero value nor unknown, the suggested action is the one of the class, the subclass is read
  off the message, and the error is retryable exactly when its class is a rate limit, an overload
  or a transient connection failure and the prompt is not too long.
\<close>

theorem ClassifyError_consistent:
  "ec_Class (ClassifyError (Some err)) \<notin> {ErrorClassZero, ErrorClassUnknown}
   \<and> ec_RecoveryAction (ClassifyError (Some err)) = recoveryForClass (ec_Class (ClassifyError (Some err)))
   \<and> ec_Message (ClassifyError (Some err)) = err_msg err
   \<and> ec_SubClass (ClassifyError (Some err)) = subclassFromMessage (err_msg err)
   \<and> (IsRetryable (Some err) \<longleftrightarrow>
        ec_Class (ClassifyError (Some err))
          \<in> {ErrorClassRateLimit, ErrorClassOverload, ErrorClassTransientConnection}
        \<and> ec_SubClass (ClassifyError (Some err)) \<noteq> ErrorSubClassPromptTooLong)"
proof -
  note ok = switch_ok_classify [of err]
  have "ec_Class (classify_switch err) \<noteq> ErrorClassUnknown"
    using ok by (simp add: switch_ok_def)
  then show ?thesis
    using classify_finish_fields [OF ok]
    by (auto simp: ClassifyError_def IsRetryable_def isRetryableClass_def split: if_splits)
qed

text \<open>The class the documentation promises for the protocol codes it names.\<close>

definition class_of_code :: "int \<Rightarrow> ErrorClass option" where
  "class_of_code code =
     (if code = -32000 \<or> code = 401 \<or> code = 403 then Some ErrorClassAuthentication
      else if code = -32800 then Some ErrorClassCancelled
      else if code = 429 then Some ErrorClassRateLimit
      else if code = 503 \<or> code = 529 then Some ErrorClassOverload
      else if code = 408 \<or> code = 409 \<or> (500 \<le> code \<and> code < 600) then Some ErrorClassExecution
      else None)"

lemma as_acp_plain: "as_acp err = Some (code, msg, d) \<Longrightarrow> code = codeAuthRequired \<or>
   code = codeRequestCancelled \<or> wrapACPErr err = ERequest code msg d"
  by (simp add: wrapACPErr_def)

lemma switch_request:
  "classify_switch (ERequest code msg d) =
     (let c = classifyFromRequestError (ERequest code msg d)
                (zero_classification\<lparr>ec_Message := err_msg (ERequest code msg d)\<rparr>)
      in if ec_Class c = ErrorClassZero then classifyFromMessage (ec_Message c) c else c)"
  by (simp add: classify_switch_def Let_def)

lemma class_of_code_request:
  assumes "class_of_code code = Some c" "code \<noteq> -32000" "code \<noteq> -32800"
  shows "ec_Class (classify_switch (ERequest code msg d)) = c \<and> c \<noteq> ErrorClassZero"
  using assms
  by (auto simp: switch_request class_of_code_def classifyFromRequestError_def as_request_def
      zero_classification_def Let_def split: if_splits)

text \<open>
  C32: a protocol error, converted by \<open>wrapACPErr\<close> and classified, lands in the class its JSON-RPC
  code stands for, whatever its message says and however deeply the protocol error was wrapped.
\<close>

theorem wrapACPErr_classified_by_code:
  assumes "as_acp err = Some (code, msg, d)" "class_of_code code = Some c"
  shows "ec_Class (ClassifyError (Some (wrapACPErr err))) = c"
proof (cases "code = -32000 \<or> code = -32800")
  case True
  with assms show ?thesis
    by (auto simp: wrapACPErr_def class_of_code_def codeAuthRequired_def codeRequestCancelled_def
        ClassifyError_Class classify_switch_def zero_classification_def Let_def)
next
  case False
  with assms(1) have "wrapACPErr err = ERequest code msg d"
    by (simp add: wrapACPErr_def codeAuthRequired_def codeRequestCancelled_def)
  with class_of_code_request [OF assms(2)] False show ?thesis
    by (simp add: ClassifyError_Class)
qed

theorem wrapACPErr_classified_by_code_witness:
  "ec_Class (ClassifyError (Some (wrapACPErr (errorf_s_w ''prompt'' (EAcp (-32800) ''api key'' JNull)))))
     = ErrorClassCancelled"
  by (rule wrapACPErr_classified_by_code [of _ "-32800" "''api key''" JNull])
     (simp_all add: as_acp_def errorf_s_w_def class_of_code_def)

text \<open>
  when the deadline of the call has passed, the converted error is a request timeout and
  still matches every sentinel the original error matched.
\<close>

theorem wrapACPErrCtx_timeout:
  assumes "errors_is err CtxDeadlineExceeded \<or> ctxErr = Some (ESent CtxDeadlineExceeded)"
  shows "errors_is (wrapACPErrCtx ctxErr err) t \<longleftrightarrow> t = ErrRequestTimeout \<or> errors_is err t"
  using assms by (auto simp: wrapACPErrCtx_def)

theorem wrapACPErrCtx_timeout_witness:
  "errors_is (wrapACPErrCtx (Some (ESent CtxDeadlineExceeded)) (ESent CtxCanceled)) CtxCanceled"
  by (subst wrapACPErrCtx_timeout) simp_all

end
