(* ===== verification/Retry.thy ===== *)
theory Retry
  imports SdkErrors
begin

text \<open>
  The retry policy (\<open>retry_policy.go\<close>) and the retry loop around one-shot queries
  (\<open>resilient.go\<close>). Durations are int64 nanoseconds with the wrap-around of Go's
  arithmetic; the random source, the out-of-range float conversion, the query, the context
  and the sleep are parameters.
\<close>

section \<open>The policy\<close>

record RetryPolicy =
  rp_MaxRetries :: int
  rp_BaseDelay :: int
  rp_MaxDelay :: int
  rp_JitterRatio :: rat

definition millisecond :: int where "millisecond = 1000000"
definition second :: int where "second = 1000000000"

definition DefaultRetryPolicy :: RetryPolicy where
  "DefaultRetryPolicy =
     \<lparr>rp_MaxRetries = 5, rp_BaseDelay = 500 * millisecond, rp_MaxDelay = 30 * second,
      rp_JitterRatio = 1 / 4\<rparr>"

record RetryDecision =
  rd_Class :: ErrorClass
  rd_Retryable :: bool
  rd_Attempt :: int
  rd_MaxRetries :: int
  rd_RecommendedDelay :: int

definition normalisePolicy :: "RetryPolicy \<Rightarrow> RetryPolicy" where
  "normalisePolicy p =
     (let def = DefaultRetryPolicy;
          p = (if rp_MaxRetries p \<le> 0 then p\<lparr>rp_MaxRetries := rp_MaxRetries def\<rparr> else p);
          p = (if rp_BaseDelay p \<le> 0 then p\<lparr>rp_BaseDelay := rp_BaseDelay def\<rparr> else p);
          p = (if rp_MaxDelay p \<le> 0 then p\<lparr>rp_MaxDelay := rp_MaxDelay def\<rparr> else p);
          p = (if rp_JitterRatio p \<le> 0 then p\<lparr>rp_JitterRatio := rp_JitterRatio def\<rparr> else p)
      in p)"

text \<open>The doubling loop of \<open>computeDelay\<close>: \<open>n\<close> rounds are left.\<close>

fun double_delay :: "nat \<Rightarrow> int \<Rightarrow> int \<Rightarrow> int" where
  "double_delay 0 maxDelay delay = delay"
| "double_delay (Suc n) maxDelay delay =
     (let d = i64 (delay * 2) in if d \<ge> maxDelay then maxDelay else double_delay n maxDelay d)"

text \<open>\<open>rand m\<close> is \<open>cryptorand.Int\<close> with bound \<open>m\<close>: \<open>None\<close> when the reader fails.\<close>

definition applyJitter ::
  "(rat \<Rightarrow> int) \<Rightarrow> (int \<Rightarrow> int option) \<Rightarrow> int \<Rightarrow> rat \<Rightarrow> int \<Rightarrow> int" where
  "applyJitter ovf rand delay ratio maxDelay =
     (if delay \<le> 0 \<or> ratio \<le> 0 then delay
      else
        (let window = f2i ovf (rat_of_int delay * ratio) in
         if window \<le> 0 then delay
         else (case rand (i64 (window + 1)) of
                 None \<Rightarrow> delay
               | Some n \<Rightarrow>
                   (let jittered = i64 (delay + n) in
                    if maxDelay > 0 \<and> jittered > maxDelay then maxDelay else jittered))))"

definition computeDelay ::
  "(rat \<Rightarrow> int) \<Rightarrow> (int \<Rightarrow> int option) \<Rightarrow> RetryPolicy \<Rightarrow> int \<Rightarrow> int" where
  "computeDelay ovf rand p attempt =
     (let attempt = (if attempt < 1 then 1 else attempt);
          delay = double_delay (nat (attempt - 1)) (rp_MaxDelay p) (rp_BaseDelay p)
      in applyJitter ovf rand delay (rp_JitterRatio p) (rp_MaxDelay p))"

section \<open>The retry-after hint\<close>

text \<open>
  The pattern \<open>(?i)retry(?:ing)?(?:\s+after)?\s+(\d+(?:\.\d+)?)\<close>. Spaces and digits are
  disjoint classes and the optional parts start with different characters, so matching
  greedily from left to right needs no backtracking.
\<close>

definition is_re_space :: "char \<Rightarrow> bool" where
  "is_re_space c \<longleftrightarrow> char_code c \<in> {9, 10, 12, 13, 32}"

definition skip_opt :: "string \<Rightarrow> string \<Rightarrow> string" where
  "skip_opt p s = (if has_prefix (to_lower s) p then drop (length p) s else s)"

definition skip_after :: "string \<Rightarrow> string" where
  "skip_after s =
     (let t = dropWhile is_re_space s in
      if t \<noteq> s \<and> has_prefix (to_lower t) ''after'' then drop 5 t else s)"

definition decimal_at :: "string \<Rightarrow> rat option" where
  "decimal_at s =
     (let ip = takeWhile is_digit s; r = dropWhile is_digit s in
      if ip = [] then None
      else if has_prefix r ''.'' \<and> takeWhile is_digit (tl r) \<noteq> [] then
        (let fp = takeWhile is_digit (tl r) in
         Some (rat_of_nat (digits_value ip) + rat_of_nat (digits_value fp) / 10 ^ length fp))
      else Some (rat_of_nat (digits_value ip)))"

definition retry_after_at :: "string \<Rightarrow> rat option" where
  "retry_after_at s =
     (if \<not> has_prefix (to_lower s) ''retry'' then None
      else (let t = skip_after (skip_opt ''ing'' (drop 5 s)); u = dropWhile is_re_space t in
            if u = t then None else decimal_at u))"

fun find_retry_after :: "string \<Rightarrow> rat option" where
  "find_retry_after [] = None"
| "find_retry_after (c # s) =
     (case retry_after_at (c # s) of Some v \<Rightarrow> Some v | None \<Rightarrow> find_retry_after s)"

text \<open>\<open>strconv.ParseFloat\<close> reports a range error from the midpoint above the largest float64.\<close>

definition float64_limit :: rat where
  "float64_limit = 2 ^ 1024 - 2 ^ 970"

definition parseRetryAfterSeconds :: "string \<Rightarrow> rat" where
  "parseRetryAfterSeconds text =
     (case find_retry_after text of None \<Rightarrow> 0 | Some v \<Rightarrow> if v \<ge> float64_limit then 0 else v)"

definition EvaluateRetry ::
  "(rat \<Rightarrow> int) \<Rightarrow> (int \<Rightarrow> int option) \<Rightarrow> goerr option \<Rightarrow> int \<Rightarrow> RetryPolicy \<Rightarrow> RetryDecision" where
  "EvaluateRetry ovf rand err attempt policy =
     (let normalised = normalisePolicy policy;
          classification = ClassifyError err;
          decision = \<lparr>rd_Class = ec_Class classification, rd_Retryable = ec_Retryable classification,
                      rd_Attempt = attempt, rd_MaxRetries = rp_MaxRetries normalised,
                      rd_RecommendedDelay = 0\<rparr>
      in if \<not> ec_Retryable classification \<or> attempt > rp_MaxRetries normalised
         then decision\<lparr>rd_Retryable := False\<rparr>
         else (let hint = parseRetryAfterSeconds (ec_Message classification) in
               if hint > 0
               then decision\<lparr>rd_RecommendedDelay :=
                      min (f2i ovf (hint * rat_of_int second)) (rp_MaxDelay normalised)\<rparr>
               else decision\<lparr>rd_RecommendedDelay := computeDelay ovf rand normalised attempt\<rparr>))"

section \<open>The retry loop\<close>

datatype retry_event =
    RetryMetric ErrorClass string
  | OnRetry int RetryDecision goerr
  | Slept int

record ('w, 'r) retry_env =
  re_ctxErr :: "'w \<Rightarrow> goerr option"
  re_query :: "'w \<Rightarrow> (goerr + 'r) \<times> 'w"
  re_sleep :: "'w \<Rightarrow> int \<Rightarrow> bool \<times> 'w"
  re_ovf :: "rat \<Rightarrow> int"
  re_rand :: "'w \<Rightarrow> int \<Rightarrow> int option"

text \<open>\<open>sleepOrCancel\<close>: a non-positive duration returns at once without looking at the context.\<close>

definition sleepOrCancel :: "('w, 'r) retry_env \<Rightarrow> 'w \<Rightarrow> int \<Rightarrow> bool \<times> 'w" where
  "sleepOrCancel env w d = (if d \<le> 0 then (True, w) else re_sleep env w d)"

definition exhausted_err :: "int \<Rightarrow> goerr \<Rightarrow> goerr" where
  "exhausted_err n e =
     errorf_s_w (''opencodesdk: ResilientQuery: exhausted '' @ itoa n @ '' retries'') e"

text \<open>
  The body of one iteration: \<open>Inl\<close> returns from the function with the result (\<open>Inr\<close> the query's
  result, \<open>Inl\<close> the returned error, \<open>None\<close> for nil), \<open>Inr\<close> goes round the loop with the last
  error. \<open>tr\<close> is the trace of metrics, \<open>OnRetry\<close> calls and sleeps.
\<close>

definition retry_body ::
  "('w, 'r) retry_env \<Rightarrow> RetryPolicy \<Rightarrow> int \<Rightarrow> 'w \<Rightarrow> retry_event list
   \<Rightarrow> ((goerr option + 'r) \<times> 'w \<times> retry_event list) + (goerr \<times> 'w \<times> retry_event list)" where
  "retry_body env policy attempt w tr =
     (case re_ctxErr env w of
        Some e \<Rightarrow> Inl (Inl (Some e), w, tr)
      | None \<Rightarrow>
          (case re_query env w of
             (Inr result, w1) \<Rightarrow> Inl (Inr result, w1, tr)
           | (Inl err, w1) \<Rightarrow>
               (let decision = EvaluateRetry (re_ovf env) (re_rand env w1) (Some err) (attempt + 1) policy in
                if \<not> rd_Retryable decision then
                  Inl (Inl (Some err), w1, tr @ [RetryMetric (rd_Class decision) ''fatal''])
                else
                  (let tr1 = tr @ [RetryMetric (rd_Class decision) ''retry'',
                                   OnRetry (attempt + 1) decision err] in
                   (case sleepOrCancel env w1 (rd_RecommendedDelay decision) of
                      (False, w2) \<Rightarrow> Inl (Inl (re_ctxErr env w2), w2, tr1)
                    | (True, w2) \<Rightarrow>
                        Inr (err, w2, tr1 @ [Slept (rd_RecommendedDelay decision)]))))))"

function retry_loop ::
  "('w, 'r) retry_env \<Rightarrow> RetryPolicy \<Rightarrow> int \<Rightarrow> goerr option \<Rightarrow> 'w \<Rightarrow> retry_event list
   \<Rightarrow> (goerr option + 'r) \<times> 'w \<times> retry_event list" where
  "retry_loop env policy attempt lastErr w tr =
     (if attempt > rp_MaxRetries policy then
        (Inl (Some (exhausted_err (rp_MaxRetries policy)
               (case lastErr of Some e \<Rightarrow> e | None \<Rightarrow> ENew ''%!w(<nil>)''))), w,
         tr @ [RetryMetric (ec_Class (ClassifyError lastErr)) ''exhausted''])
      else (case retry_body env policy attempt w tr of
              Inl res \<Rightarrow> res
            | Inr (err, w2, tr2) \<Rightarrow> retry_loop env policy (attempt + 1) (Some err) w2 tr2))"
  by pat_completeness auto
termination
  by (relation "measure (\<lambda>(env, policy, attempt, l, w, tr). nat (rp_MaxRetries policy + 1 - attempt))")
     auto

declare retry_loop.simps [simp del]

definition ResilientQuery ::
  "('w, 'r) retry_env \<Rightarrow> RetryPolicy \<Rightarrow> 'w \<Rightarrow> (goerr option + 'r) \<times> 'w \<times> retry_event list" where
  "ResilientQuery env policy w = retry_loop env (normalisePolicy policy) 0 None w []"

section \<open>The policy schedule\<close>

definition policy_ok :: "RetryPolicy \<Rightarrow> bool" where
  "policy_ok p \<longleftrightarrow> 0 < rp_MaxRetries p \<and> 0 < rp_BaseDelay p \<and> 0 < rp_MaxDelay p \<and> 0 < rp_JitterRatio p"

lemma policy_ok_normalise [simp]: "policy_ok (normalisePolicy p)"
  by (simp add: policy_ok_def normalisePolicy_def DefaultRetryPolicy_def Let_def
      millisecond_def second_def)

lemma normalise_id: "policy_ok p \<Longrightarrow> normalisePolicy p = p"
  by (simp add: policy_ok_def normalisePolicy_def Let_def)

lemma normalise_idem [simp]: "normalisePolicy (normalisePolicy p) = normalisePolicy p"
  by (simp add: normalise_id)

lemma double_delay_closed:
  "0 < b \<Longrightarrow> b \<le> m \<Longrightarrow> m < 2 ^ 62 \<Longrightarrow> double_delay n m b = min m (b * 2 ^ n)"
proof (induction n arbitrary: b)
  case (Suc n)
  have small: "i64 (b * 2) = b * 2"
    by (rule i64_id) (use Suc.prems in \<open>simp add: in_i64_def\<close>)
  show ?case
  proof (cases "b * 2 \<ge> m")
    case True
    moreover have "m \<le> b * 2 ^ Suc n"
    proof -
      have "b * 2 * 1 \<le> b * 2 * 2 ^ n"
        using Suc.prems(1) by (intro mult_left_mono) simp_all
      with True show ?thesis by simp
    qed
    ultimately show ?thesis by (simp add: small)
  next
    case False
    with Suc show ?thesis by (simp add: small algebra_simps)
  qed
qed simp

definition rand_contract :: "(int \<Rightarrow> int option) \<Rightarrow> bool" where
  "rand_contract rand \<longleftrightarrow> (\<forall>m n. 0 < m \<longrightarrow> rand m = Some n \<longrightarrow> 0 \<le> n \<and> n < m)"

lemma rand_contractD: "rand_contract rand \<Longrightarrow> 0 < m \<Longrightarrow> rand m = Some n \<Longrightarrow> 0 \<le> n \<and> n < m"
  by (simp add: rand_contract_def)

lemma jitter_window:
  assumes "0 < d" "d < 2 ^ 62" "0 < r" "r \<le> 1"
  shows "0 \<le> f2i ovf (rat_of_int d * r) \<and> f2i ovf (rat_of_int d * r) \<le> d"
proof -
  let ?x = "rat_of_int d * r"
  have x: "0 \<le> ?x" "?x \<le> rat_of_int d"
    using assms mult_left_mono [of r 1 "rat_of_int d"] by simp_all
  have le: "trunc_rat ?x \<le> d"
    using trunc_rat_le [OF x(1)] x(2) by linarith
  have ge: "0 \<le> trunc_rat ?x"
    by (rule trunc_rat_nonneg [OF x(1)])
  have "in_i64 (trunc_rat ?x)"
    using le ge assms(2) by (simp add: in_i64_def)
  with le ge show ?thesis by (simp add: f2i_def)
qed

lemma applyJitter_bounds:
  assumes "0 < d" "d \<le> m" "m < 2 ^ 62" "0 < r" "r \<le> 1" "rand_contract rand"
  shows "d \<le> applyJitter ovf rand d r m \<and> applyJitter ovf rand d r m \<le> m"
proof -
  let ?w = "f2i ovf (rat_of_int d * r)"
  have w: "0 \<le> ?w" "?w \<le> d"
    using jitter_window [of d r ovf] assms by simp_all
  have i: "i64 (?w + 1) = ?w + 1"
    by (rule i64_id) (use w assms in \<open>simp add: in_i64_def\<close>)
  have n: "0 \<le> n \<and> n < ?w + 1" if "rand (?w + 1) = Some n" for n
    by (rule rand_contractD [OF assms(6) _ that]) (use w in simp)
  moreover have "i64 (d + n) = d + n" if "rand (?w + 1) = Some n" for n
    by (rule i64_id) (use n [OF that] w assms in \<open>simp add: in_i64_def\<close>)
  ultimately show ?thesis
    using assms w i by (auto simp: applyJitter_def Let_def split: option.splits)
qed

text \<open>
  C34: with a base delay no larger than the cap, a jitter ratio of at most 1 and a cap below
  \<open>2^62\<close> ns, the delay of attempt \<open>n\<close> lies between the exponential schedule
  \<open>min MaxDelay (BaseDelay * 2^(n-1))\<close> and \<open>MaxDelay\<close>, for every outcome of the random source.
\<close>

theorem computeDelay_bounds:
  assumes "0 < rp_BaseDelay p" "rp_BaseDelay p \<le> rp_MaxDelay p" "rp_MaxDelay p < 2 ^ 62"
    and "0 < rp_JitterRatio p" "rp_JitterRatio p \<le> 1" "rand_contract rand" "1 \<le> attempt"
  shows "min (rp_MaxDelay p) (rp_BaseDelay p * 2 ^ nat (attempt - 1)) \<le> computeDelay ovf rand p attempt
         \<and> computeDelay ovf rand p attempt \<le> rp_MaxDelay p"
proof -
  let ?d = "min (rp_MaxDelay p) (rp_BaseDelay p * 2 ^ nat (attempt - 1))"
  have "computeDelay ovf rand p attempt = applyJitter ovf rand ?d (rp_JitterRatio p) (rp_MaxDelay p)"
    using assms by (simp add: computeDelay_def Let_def double_delay_closed)
  moreover have "0 < ?d" using assms by simp
  ultimately show ?thesis
    using applyJitter_bounds [of ?d "rp_MaxDelay p" "rp_JitterRatio p" rand ovf] assms by simp
qed

theorem computeDelay_bounds_witness:
  "500000000 * 2 ^ 2 \<le> computeDelay (\<lambda>_. 0) (\<lambda>m. Some (m - 1)) DefaultRetryPolicy 3
   \<and> computeDelay (\<lambda>_. 0) (\<lambda>m. Some (m - 1)) DefaultRetryPolicy 3 \<le> 30000000000"
  using computeDelay_bounds [of DefaultRetryPolicy "\<lambda>m. Some (m - 1)" 3 "\<lambda>_. 0"]
  by (simp add: DefaultRetryPolicy_def rand_contract_def millisecond_def second_def)

text \<open>
  the cap is not applied to the first attempt itself: with a base delay above the cap the
  recommended delay exceeds \<open>MaxDelay\<close> whenever no jitter is added (here the random reader
  fails), although the policy documents the delay as clamped.
\<close>

theorem computeDelay_first_unclamped:
  "computeDelay ovf (\<lambda>_. None)
     \<lparr>rp_MaxRetries = 5, rp_BaseDelay = 60 * second, rp_MaxDelay = 30 * second,
      rp_JitterRatio = 1 / 4\<rparr> 1 = 60 * second"
  by (simp add: computeDelay_def applyJitter_def Let_def)

section \<open>The retry loop\<close>

lemma EvaluateRetry_last:
  "attempt > rp_MaxRetries (normalisePolicy p) \<Longrightarrow> \<not> rd_Retryable (EvaluateRetry ovf rand e attempt p)"
  by (simp add: EvaluateRetry_def Let_def)

lemma EvaluateRetry_Retryable:
  "rd_Retryable (EvaluateRetry ovf rand e attempt p) \<longleftrightarrow>
     ec_Retryable (ClassifyError e) \<and> attempt \<le> rp_MaxRetries (normalisePolicy p)"
  by (auto simp: EvaluateRetry_def Let_def)

fun onretry_attempts :: "retry_event list \<Rightarrow> int list" where
  "onretry_attempts [] = []"
| "onretry_attempts (OnRetry n _ _ # es) = n # onretry_attempts es"
| "onretry_attempts (_ # es) = onretry_attempts es"

lemma onretry_attempts_append [simp]:
  "onretry_attempts (xs @ ys) = onretry_attempts xs @ onretry_attempts ys"
  by (induction xs rule: onretry_attempts.induct) auto

definition no_exhausted :: "retry_event list \<Rightarrow> bool" where
  "no_exhausted tr \<longleftrightarrow> (\<forall>c. RetryMetric c ''exhausted'' \<notin> set tr)"

text \<open>
  The loop invariant: within the policy, the attempts reported so far are \<open>1..attempt\<close> and the
  metric for exhaustion has not been recorded.
\<close>

lemma retry_body_Inl_inv:
  assumes "retry_body env policy attempt w tr = Inl (r, w', tr')"
  shows "\<exists>es. tr' = tr @ es \<and> no_exhausted es
              \<and> (onretry_attempts es = [] \<or> attempt + 1 \<le> rp_MaxRetries (normalisePolicy policy)
                   \<and> onretry_attempts es = [attempt + 1])"
  using assms
  by (auto simp: retry_body_def Let_def no_exhausted_def EvaluateRetry_Retryable
      split: option.splits sum.splits prod.splits bool.splits if_splits)

lemma retry_body_Inr_inv:
  assumes "retry_body env policy attempt w tr = Inr (err, w', tr')"
  shows "attempt + 1 \<le> rp_MaxRetries (normalisePolicy policy)
         \<and> (\<exists>es. tr' = tr @ es \<and> no_exhausted es \<and> onretry_attempts es = [attempt + 1])"
  using assms
  by (auto simp: retry_body_def Let_def no_exhausted_def EvaluateRetry_Retryable
      split: option.splits sum.splits prod.splits bool.splits if_splits)

lemma no_exhausted_append [simp]: "no_exhausted (xs @ ys) \<longleftrightarrow> no_exhausted xs \<and> no_exhausted ys"
  by (auto simp: no_exhausted_def)

lemma retry_loop_inv:
  assumes "policy_ok policy" "0 \<le> attempt" "attempt \<le> rp_MaxRetries policy"
    and "onretry_attempts tr = [1..attempt]" "no_exhausted tr"
    and "retry_loop env policy attempt lastErr w tr = (r, w', tr')"
  shows "\<exists>k \<le> rp_MaxRetries policy. onretry_attempts tr' = [1..k] \<and> no_exhausted tr'"
  using assms
proof (induction env policy attempt lastErr w tr rule: retry_loop.induct)
  case (1 env policy attempt lastErr w tr)
  note norm = normalise_id [OF 1(2)]
  have upto: "[1..attempt + 1] = [1..attempt] @ [attempt + 1]"
    using 1(3) by (simp add: upto_rec2)
  show ?case
  proof (cases "retry_body env policy attempt w tr")
    case (Inl res)
    have "res = (r, w', tr')"
      using 1(4,7) Inl by (subst (asm) retry_loop.simps) simp
    with retry_body_Inl_inv [OF Inl [unfolded this], unfolded norm] obtain es where
      es: "tr' = tr @ es" "no_exhausted es" "onretry_attempts es = [] \<or>
        attempt + 1 \<le> rp_MaxRetries policy \<and> onretry_attempts es = [attempt + 1]"
      by blast
    with 1(4,5,6) upto show ?thesis by (metis append_Nil2 no_exhausted_append onretry_attempts_append)
  next
    case (Inr x)
    obtain err w2 tr2 where x: "x = (err, w2, tr2)" by (cases x)
    from retry_body_Inr_inv [OF Inr [unfolded x]] have
      inv: "attempt + 1 \<le> rp_MaxRetries policy" "onretry_attempts tr2 = [1..attempt + 1]"
        "no_exhausted tr2"
      using 1(5,6) upto norm by auto
    have "retry_loop env policy (attempt + 1) (Some err) w2 tr2 = (r, w', tr')"
      using 1(4,7) Inr x by (subst (asm) retry_loop.simps) simp
    with 1(1,2,3,4) Inr x inv show ?thesis by auto
  qed
qed

text \<open>
  \<open>ResilientQuery\<close> retries at most \<open>MaxRetries\<close> times (after normalisation), reporting
  attempts 1, 2, ..., k in order to \<open>OnRetry\<close>, and it never takes the exit after the loop: the
  metric outcome \<open>exhausted\<close> is never recorded, whatever the query, the context and the sleep do.
\<close>

theorem ResilientQuery_attempts:
  "\<exists>k \<le> rp_MaxRetries (normalisePolicy policy).
     onretry_attempts (snd (snd (ResilientQuery env policy w))) = [1..k]
     \<and> no_exhausted (snd (snd (ResilientQuery env policy w)))"
proof -
  obtain r w' tr' where res: "retry_loop env (normalisePolicy policy) 0 None w [] = (r, w', tr')"
    by (cases "retry_loop env (normalisePolicy policy) 0 None w []")
  have "policy_ok (normalisePolicy policy)" by simp
  then have "0 \<le> rp_MaxRetries (normalisePolicy policy)" by (simp add: policy_ok_def)
  with retry_loop_inv [OF _ _ _ _ _ res] show ?thesis
    by (simp add: ResilientQuery_def res no_exhausted_def)
qed

text \<open>
  What a caller can rely on, whatever its query does: \<open>I n\<close> holds before a query when \<open>n\<close> have been
  made, \<open>J n r\<close> after the \<open>n\<close>-th, with its result. The loop ends with a last query or because the
  context has ended.
\<close>

lemma retry_loop_rule:
  assumes q: "\<And>n w r w1. I n w \<Longrightarrow> re_ctxErr env w = None \<Longrightarrow> re_query env w = (r, w1) \<Longrightarrow> J (n + 1) r w1"
    and sl: "\<And>n err w1 delay. J n (Inl err) w1 \<Longrightarrow> ec_Retryable (ClassifyError (Some err)) \<Longrightarrow>
      I n (snd (sleepOrCancel env w1 delay))"
    and p: "policy_ok policy"
  shows "I attempt w \<Longrightarrow> attempt \<le> rp_MaxRetries policy \<Longrightarrow> retry_loop env policy attempt lastErr w tr = (r, w', tr') \<Longrightarrow>
    \<exists>n \<le> rp_MaxRetries policy + 1.
      (\<exists>res. r = map_sum Some id res \<and> J n res w') \<or> (r = Inl (re_ctxErr env w') \<and> I n w')"
proof (induction "nat (rp_MaxRetries policy - attempt)" arbitrary: attempt lastErr w tr rule: less_induct)
  case less
  note norm = normalise_id [OF p]
  have step: "(case retry_body env policy attempt w tr of
      Inl res \<Rightarrow> res | Inr (err, w2, tr2) \<Rightarrow> retry_loop env policy (attempt + 1) (Some err) w2 tr2) = (r, w', tr')"
    using less.prems(2,3) by (subst (asm) retry_loop.simps) simp
  show ?case
  proof (cases "re_ctxErr env w")
    case (Some e)
    then have "r = Inl (re_ctxErr env w') \<and> I attempt w'" using step less.prems(1) by (auto simp: retry_body_def)
    then show ?thesis using less.prems(2) by (intro exI [of _ attempt]) simp
  next
    case None
    obtain res w1 where rq: "re_query env w = (res, w1)" by (metis prod.exhaust)
    note J = q [OF less.prems(1) None rq]
    show ?thesis
    proof (cases res)
      case (Inr result)
      then have "r = map_sum Some id res \<and> J (attempt + 1) res w'" using step J rq None by (simp add: retry_body_def)
      then show ?thesis using less.prems(2) by (intro exI [of _ "attempt + 1"]) auto
    next
      case (Inl err)
      let ?d = "EvaluateRetry (re_ovf env) (re_rand env w1) (Some err) (attempt + 1) policy"
      obtain go w2 where w2: "sleepOrCancel env w1 (rd_RecommendedDelay ?d) = (go, w2)" by (metis prod.exhaust)
      show ?thesis
      proof (cases "rd_Retryable ?d")
        case False
        then have "r = map_sum Some id res \<and> J (attempt + 1) res w'"
          using step J rq None Inl by (simp add: retry_body_def Let_def)
        then show ?thesis using less.prems(2) by (intro exI [of _ "attempt + 1"]) auto
      next
        case True
        then have d: "ec_Retryable (ClassifyError (Some err))" "attempt + 1 \<le> rp_MaxRetries policy"
          by (simp_all add: EvaluateRetry_Retryable norm)
        have i: "I (attempt + 1) w2" using sl [OF J [unfolded Inl] d(1), of "rd_RecommendedDelay ?d"] w2 by simp
        show ?thesis
        proof (cases go)
          case False
          then have "r = Inl (re_ctxErr env w') \<and> I (attempt + 1) w'"
            using step i rq None Inl True w2 by (auto simp: retry_body_def Let_def)
          then show ?thesis using d(2) by (intro exI [of _ "attempt + 1"]) simp
        next
          case go: True
          then obtain tr2 where "retry_loop env policy (attempt + 1) (Some err) w2 tr2 = (r, w', tr')"
            using step rq None Inl True w2 by (simp add: retry_body_def Let_def)
          then show ?thesis by (rule less.hyps [rotated 3]) (use d(2) i in simp_all)
        qed
      qed
    qed
  qed
qed

text \<open>A query that keeps failing: its error is always retryable and the context stays live.\<close>

definition keeps_failing :: "('w, 'r) retry_env \<Rightarrow> ('w \<Rightarrow> bool) \<Rightarrow> bool" where
  "keeps_failing env live \<longleftrightarrow>
     (\<forall>w. live w \<longrightarrow> re_ctxErr env w = None
        \<and> (\<exists>e w'. re_query env w = (Inl e, w') \<and> ec_Retryable (ClassifyError (Some e))
             \<and> live w' \<and> (\<forall>d. fst (re_sleep env w' d) \<and> live (snd (re_sleep env w' d)))))"

lemma sleepOrCancel_live:
  "fst (re_sleep env w d) \<and> live (snd (re_sleep env w d)) \<Longrightarrow> live w \<Longrightarrow>
   \<exists>w2. sleepOrCancel env w d = (True, w2) \<and> live w2"
  by (cases "d \<le> 0"; cases "re_sleep env w d") (simp_all add: sleepOrCancel_def)

lemma keeps_failing_body:
  assumes "keeps_failing env live" "live w" "policy_ok policy"
  shows "\<exists>e. ec_Retryable (ClassifyError (Some e)) \<and> fst (re_query env w) = Inl e
           \<and> (if attempt + 1 \<le> rp_MaxRetries policy
              then \<exists>w2 tr2. retry_body env policy attempt w tr = Inr (e, w2, tr2) \<and> live w2
              else \<exists>w2 tr2. retry_body env policy attempt w tr = Inl (Inl (Some e), w2, tr2))"
proof -
  from assms(1,2) obtain e w1 where e: "re_ctxErr env w = None" "re_query env w = (Inl e, w1)"
    "ec_Retryable (ClassifyError (Some e))" "live w1"
    and sl: "\<And>d. fst (re_sleep env w1 d) \<and> live (snd (re_sleep env w1 d))"
    unfolding keeps_failing_def by blast
  let ?d = "EvaluateRetry (re_ovf env) (re_rand env w1) (Some e) (attempt + 1) policy"
  obtain w2 where "sleepOrCancel env w1 (rd_RecommendedDelay ?d) = (True, w2)" "live w2"
    using sleepOrCancel_live [OF sl e(4)] by blast
  then show ?thesis
    using e normalise_id [OF assms(3)]
    by (intro exI [of _ e]) (simp add: retry_body_def EvaluateRetry_Retryable Let_def)
qed

lemma retry_loop_keeps_failing:
  assumes "keeps_failing env live" "live w" "policy_ok policy" "attempt \<le> rp_MaxRetries policy"
  shows "\<exists>e w' tr'. retry_loop env policy attempt lastErr w tr = (Inl (Some e), w', tr')
           \<and> ec_Retryable (ClassifyError (Some e)) \<and> (\<exists>w0. live w0 \<and> fst (re_query env w0) = Inl e)"
  using assms
proof (induction env policy attempt lastErr w tr rule: retry_loop.induct)
  case (1 env policy attempt lastErr w tr)
  from keeps_failing_body [OF 1(2,3,4), of attempt tr] obtain e where
    e: "ec_Retryable (ClassifyError (Some e))" "fst (re_query env w) = Inl e"
    and body: "if attempt + 1 \<le> rp_MaxRetries policy
      then \<exists>w2 tr2. retry_body env policy attempt w tr = Inr (e, w2, tr2) \<and> live w2
      else \<exists>w2 tr2. retry_body env policy attempt w tr = Inl (Inl (Some e), w2, tr2)"
    by blast
  show ?case
  proof (cases "attempt + 1 \<le> rp_MaxRetries policy")
    case True
    with body obtain w2 tr2 where b: "retry_body env policy attempt w tr = Inr (e, w2, tr2)" "live w2"
      by auto
    with 1 True show ?thesis by (subst retry_loop.simps) auto
  next
    case False
    with body 1(3,5) e show ?thesis by (subst retry_loop.simps) auto
  qed
qed

text \<open>
  C16: a query that fails persistently with a retryable error makes \<open>ResilientQuery\<close> return one
  of the query's own errors unchanged, itself still classified retryable; the wrapping
  \<open>exhausted N retries\<close> error documented for this case is never produced.
\<close>

theorem ResilientQuery_persistent_failure:
  assumes "keeps_failing env live" "live w"
  shows "\<exists>e w0. fst (ResilientQuery env policy w) = Inl (Some e)
           \<and> live w0 \<and> fst (re_query env w0) = Inl e \<and> ec_Retryable (ClassifyError (Some e))"
proof -
  have "policy_ok (normalisePolicy policy)" "0 \<le> rp_MaxRetries (normalisePolicy policy)"
    using policy_ok_normalise [of policy] by (simp_all add: policy_ok_def)
  from retry_loop_keeps_failing [OF assms this, of None "[]"] show ?thesis
    by (auto simp: ResilientQuery_def)
qed

definition overloaded_env :: "(nat, nat) retry_env" where
  "overloaded_env =
     \<lparr>re_ctxErr = (\<lambda>_. None), re_query = (\<lambda>w. (Inl (ERequest 529 ''busy'' JNull), Suc w)),
      re_sleep = (\<lambda>w d. (True, w)), re_ovf = (\<lambda>_. 0), re_rand = (\<lambda>w m. None)\<rparr>"

lemma overloaded_retryable: "ec_Retryable (ClassifyError (Some (ERequest 529 ''busy'' JNull)))"
  by code_simp

theorem ResilientQuery_persistent_failure_witness:
  "\<exists>e. fst (ResilientQuery overloaded_env DefaultRetryPolicy 0) = Inl (Some e)
     \<and> ec_Retryable (ClassifyError (Some e))"
proof -
  have "keeps_failing overloaded_env (\<lambda>_. True)"
    using overloaded_retryable by (simp add: keeps_failing_def overloaded_env_def)
  from ResilientQuery_persistent_failure [OF this] show ?thesis by blast
qed

end
