(* ===== verification/Acp.thy ===== *)
theory Acp
  imports SdkErrors
begin

text \<open>
  The Agent Client Protocol values the SDK exchanges with opencode. The Go types are those of
  \<open>acp-go-sdk\<close>, which is not part of the repository: the records below hold the fields that the
  SDK's own code reads or builds, under their Go names, and nothing else. A pointer field is an
  \<open>option\<close>; a union is a record of options, because the SDK's \<open>switch\<close> statements test the
  pointers one after the other and the order of these tests matters.
\<close>

section \<open>Content\<close>

record EmbeddedBlob =
  eb_Uri :: string
  eb_MimeType :: "string option"
  eb_Blob :: string

record ContentBlock =
  cb_Text :: "string option"
  cb_Image :: "(string \<times> string) option"
  cb_Audio :: "(string \<times> string) option"
  cb_ResourceLink :: "(string \<times> string) option"
  cb_Resource :: "EmbeddedBlob option"

definition no_block :: ContentBlock where
  "no_block = \<lparr>cb_Text = None, cb_Image = None, cb_Audio = None, cb_ResourceLink = None,
     cb_Resource = None\<rparr>"

section \<open>Tool calls, usage and session updates\<close>

datatype ToolCallStatus =
    ToolCallStatusPending | ToolCallStatusInProgress | ToolCallStatusCompleted
  | ToolCallStatusFailed | OtherToolCallStatus string

fun status_text :: "ToolCallStatus \<Rightarrow> string" where
  "status_text ToolCallStatusPending = ''pending''"
| "status_text ToolCallStatusInProgress = ''in_progress''"
| "status_text ToolCallStatusCompleted = ''completed''"
| "status_text ToolCallStatusFailed = ''failed''"
| "status_text (OtherToolCallStatus s) = s"

record ToolCall =
  tc_ToolCallId :: string
  tc_Title :: string
  tc_Kind :: string
  tc_Status :: ToolCallStatus
  tc_Payload :: json

record ToolCallUpdate =
  tcu_ToolCallId :: string
  tcu_Title :: "string option"
  tcu_Kind :: "string option"
  tcu_Status :: "ToolCallStatus option"
  tcu_Payload :: json

record UsageUpdate =
  uu_Cost :: "(rat \<times> string) option"
  uu_Size :: int
  uu_Used :: int

record Usage =
  u_InputTokens :: int
  u_OutputTokens :: int
  u_CachedReadTokens :: "int option"
  u_CachedWriteTokens :: "int option"
  u_ThoughtTokens :: "int option"
  u_TotalTokens :: int

record Chunk =
  ck_Content :: ContentBlock
  ck_MessageId :: "string option"

record SessionUpdate =
  su_UserMessageChunk :: "Chunk option"
  su_AgentMessageChunk :: "Chunk option"
  su_AgentThoughtChunk :: "Chunk option"
  su_ToolCall :: "ToolCall option"
  su_ToolCallUpdate :: "ToolCallUpdate option"
  su_Plan :: "json option"
  su_AvailableCommandsUpdate :: "string list option"
  su_CurrentModeUpdate :: "string option"
  su_ConfigOptionUpdate :: "json option"
  su_SessionInfoUpdate :: "json option"
  su_UsageUpdate :: "UsageUpdate option"

definition no_update :: SessionUpdate where
  "no_update = \<lparr>su_UserMessageChunk = None, su_AgentMessageChunk = None,
     su_AgentThoughtChunk = None, su_ToolCall = None, su_ToolCallUpdate = None, su_Plan = None,
     su_AvailableCommandsUpdate = None, su_CurrentModeUpdate = None,
     su_ConfigOptionUpdate = None, su_SessionInfoUpdate = None, su_UsageUpdate = None\<rparr>"

type_synonym Meta = "(string \<times> json) list option"

record SessionNotification =
  sn_SessionId :: string
  sn_Update :: SessionUpdate
  sn_Meta :: Meta

section \<open>Requests and responses\<close>

datatype PermissionOptionKind =
    PermissionOptionKindAllowOnce | PermissionOptionKindAllowAlways
  | PermissionOptionKindRejectOnce | PermissionOptionKindRejectAlways
  | OtherPermissionOptionKind string

record PermissionOption =
  po_OptionId :: string
  po_Kind :: PermissionOptionKind

record PermissionRequest =
  pr_SessionId :: string
  pr_ToolCallId :: string
  pr_Title :: "string option"
  pr_Options :: "PermissionOption list"

record PermissionResponse =
  pp_Selected :: "string option"
  pp_Cancelled :: bool

definition no_response :: PermissionResponse where
  "no_response = \<lparr>pp_Selected = None, pp_Cancelled = False\<rparr>"

definition selected :: "string \<Rightarrow> PermissionResponse" where
  "selected i = \<lparr>pp_Selected = Some i, pp_Cancelled = False\<rparr>"

definition cancelled_response :: PermissionResponse where
  "cancelled_response = \<lparr>pp_Selected = None, pp_Cancelled = True\<rparr>"

lemma response_sel [simp]:
  "pp_Selected no_response = None" "\<not> pp_Cancelled no_response"
  "pp_Selected (selected i) = Some i" "\<not> pp_Cancelled (selected i)"
  "pp_Selected cancelled_response = None" "pp_Cancelled cancelled_response"
  by (simp_all add: no_response_def selected_def cancelled_response_def)

lemma response_distinct [simp]:
  "selected i \<noteq> cancelled_response" "cancelled_response \<noteq> selected i"
  "selected i \<noteq> no_response" "no_response \<noteq> selected i"
  "selected i = selected j \<longleftrightarrow> i = j"
  by (auto simp: no_response_def selected_def cancelled_response_def)

record WriteTextFileRequest =
  wr_SessionId :: string
  wr_Path :: string
  wr_Content :: string

record ReadTextFileRequest =
  rr_Path :: string
  rr_Line :: "int option"
  rr_Limit :: "int option"

record PromptResult =
  res_StopReason :: string
  res_Usage :: "Usage option"
  res_Meta :: Meta

record McpHttp =
  mh_Name :: string
  mh_Url :: string
  mh_Headers :: "(string \<times> string) list option"

record McpStdio =
  ms_Name :: string
  ms_Command :: string
  ms_Args :: "string list option"
  ms_Env :: "(string \<times> string) list option"

record McpServer =
  mcp_Stdio :: "McpStdio option"
  mcp_Http :: "McpHttp option"
  mcp_Sse :: "McpHttp option"

record ModelState =
  mo_AvailableModels :: "string list"
  mo_CurrentModelId :: string

record ModeState =
  md_AvailableModes :: "string list"
  md_CurrentModeId :: string

record PromptCapabilities =
  pc_Image :: bool
  pc_Audio :: bool
  pc_EmbeddedContext :: bool

record AgentCapabilities =
  ac_Prompt :: PromptCapabilities
  ac_McpHttp :: bool
  ac_McpSse :: bool
  ac_AdditionalDirectories :: bool

end
