(* ===== verification/Interfaces.thy ===== *)
theory Interfaces
  imports GoBase
begin

text \<open>
  The interfaces the components rely on, as locales: keyed maps (the session registry, the
  pending-update buffers, the cost table, the subscriber table and the tool-call table are all
  Go maps) and bounded channels (the updates channel of a session). The clients' generic lemmas
  are proved inside the locales; the interpretations below discharge the laws on the models the
  component theories compute with.
\<close>

section \<open>Keyed maps\<close>

locale go_map =
  fixes put :: "'k \<Rightarrow> 'v \<Rightarrow> 'm \<Rightarrow> 'm"
    and del :: "'k \<Rightarrow> 'm \<Rightarrow> 'm"
    and get :: "'m \<Rightarrow> 'k \<Rightarrow> 'v option"
    and inv :: "'m \<Rightarrow> bool"
  assumes get_put: "get (put k v m) = (get m)(k \<mapsto> v)"
    and get_del: "get (del k m) = (get m)(k := None)"
    and inv_put: "inv m \<Longrightarrow> inv (put k v m)"
    and inv_del: "inv m \<Longrightarrow> inv (del k m)"
begin

lemma get_put_same: "get (put k v m) k = Some v"
  by (simp add: get_put)

lemma get_put_other: "k' \<noteq> k \<Longrightarrow> get (put k v m) k' = get m k'"
  by (simp add: get_put)

lemma get_del_same: "get (del k m) k = None"
  by (simp add: get_del)

lemma get_del_other: "k' \<noteq> k \<Longrightarrow> get (del k m) k' = get m k'"
  by (simp add: get_del)

lemma get_fold_put_notin:
  "k \<notin> fst ` set kvs \<Longrightarrow> get (fold (\<lambda>(k, v). put k v) kvs m) k = get m k"
  by (induction kvs arbitrary: m) (auto simp: get_put)

lemma get_fold_put:
  "get (fold (\<lambda>(k, v). put k v) kvs m) k =
     (case map_of (rev kvs) k of None \<Rightarrow> get m k | Some v \<Rightarrow> Some v)"
  by (induction kvs arbitrary: m) (auto simp: get_put map_add_def split: option.splits)

lemma inv_fold_put: "inv m \<Longrightarrow> inv (fold (\<lambda>(k, v). put k v) kvs m)"
  by (induction kvs arbitrary: m) (auto simp: inv_put)

lemma update_commute:
  "k \<noteq> k' \<Longrightarrow> get (put k v (put k' v' m)) = get (put k' v' (put k v m))"
  by (auto simp: get_put fun_eq_iff)

end

interpretation am: go_map amap_put amap_del map_of amap_ok
  by unfold_locales (auto simp: fun_upd_def)

section \<open>Bounded channels\<close>

text \<open>
  A buffered Go channel: what is queued, the capacity fixed at creation, and whether it was
  closed. \<open>chan_try_send\<close> is the \<open>select\<close> with a \<open>default\<close> branch: a send on a closed channel
  panics, also inside a \<open>select\<close>. \<open>chan_try_recv\<close> gives \<open>Some None\<close> for the zero value of a
  closed and drained channel and \<open>None\<close> when it would block.
\<close>

record 'a chan =
  ch_buf :: "'a list"
  ch_cap :: nat
  ch_closed :: bool

datatype 'a send_result = Sent "'a chan" | Full | SendPanic

definition chan_new :: "nat \<Rightarrow> 'a chan" where
  "chan_new n = \<lparr>ch_buf = [], ch_cap = n, ch_closed = False\<rparr>"

definition chan_try_send :: "'a \<Rightarrow> 'a chan \<Rightarrow> 'a send_result" where
  "chan_try_send x c =
     (if ch_closed c then SendPanic
      else if length (ch_buf c) < ch_cap c then Sent (c\<lparr>ch_buf := ch_buf c @ [x]\<rparr>)
      else Full)"

definition chan_try_recv :: "'a chan \<Rightarrow> ('a option \<times> 'a chan) option" where
  "chan_try_recv c =
     (case ch_buf c of
        x # xs \<Rightarrow> Some (Some x, c\<lparr>ch_buf := xs\<rparr>)
      | [] \<Rightarrow> if ch_closed c then Some (None, c) else None)"

definition chan_close :: "'a chan \<Rightarrow> 'a chan option" where
  "chan_close c = (if ch_closed c then None else Some (c\<lparr>ch_closed := True\<rparr>))"

definition chan_inv :: "'a chan \<Rightarrow> bool" where
  "chan_inv c \<longleftrightarrow> length (ch_buf c) \<le> ch_cap c"

locale bounded_chan =
  fixes try_send :: "'a \<Rightarrow> 'c \<Rightarrow> 'a send_result"
    and accepted :: "'a \<Rightarrow> 'c \<Rightarrow> 'c option"
    and recv :: "'c \<Rightarrow> ('a option \<times> 'c) option"
    and contents :: "'c \<Rightarrow> 'a list"
    and capacity :: "'c \<Rightarrow> nat"
    and closed :: "'c \<Rightarrow> bool"
    and inv :: "'c \<Rightarrow> bool"
  assumes panic_iff: "try_send x c = SendPanic \<longleftrightarrow> closed c"
    and accepted_iff: "accepted x c = None \<longleftrightarrow> closed c \<or> length (contents c) \<ge> capacity c"
    and accepted_contents: "accepted x c = Some c' \<Longrightarrow> contents c' = contents c @ [x]"
    and accepted_frame: "accepted x c = Some c' \<Longrightarrow> capacity c' = capacity c \<and> closed c' = closed c"
    and recv_contents: "recv c = Some (Some x, c') \<Longrightarrow> contents c = x # contents c'"
    and recv_frame: "recv c = Some (r, c') \<Longrightarrow> capacity c' = capacity c \<and> closed c' = closed c"
    and recv_end: "recv c = Some (None, c') \<Longrightarrow> contents c = [] \<and> closed c \<and> c' = c"
    and inv_iff: "inv c \<longleftrightarrow> length (contents c) \<le> capacity c"
begin

lemma accepted_inv: "accepted x c = Some c' \<Longrightarrow> inv c'"
  using accepted_contents [of x c c'] accepted_frame [of x c c'] accepted_iff [of x c]
  by (simp add: inv_iff)

lemma recv_inv: "recv c = Some (r, c') \<Longrightarrow> inv c \<Longrightarrow> inv c'"
  using recv_contents [of c] recv_frame [of c r c'] recv_end [of c c']
  by (cases r) (auto simp: inv_iff)

text \<open>Draining: everything received, in order, is a prefix of what was queued.\<close>

fun drain_n :: "nat \<Rightarrow> 'c \<Rightarrow> 'a list \<times> 'c" where
  "drain_n 0 c = ([], c)"
| "drain_n (Suc n) c = (case recv c of
     Some (Some x, c') \<Rightarrow> (let (xs, c'') = drain_n n c' in (x # xs, c''))
   | _ \<Rightarrow> ([], c))"

lemma drain_n_contents: "contents c = fst (drain_n n c) @ contents (snd (drain_n n c))"
proof (induction n arbitrary: c)
  case (Suc n)
  show ?case
  proof (cases "recv c")
    case (Some p)
    obtain r c' where p: "p = (r, c')" by (cases p)
    with Some Suc [of c'] recv_contents [of c] show ?thesis
      by (cases r) (auto split: prod.splits)
  qed simp
qed simp

end

definition chan_accept :: "'a \<Rightarrow> 'a chan \<Rightarrow> 'a chan option" where
  "chan_accept x c = (case chan_try_send x c of Sent c' \<Rightarrow> Some c' | _ \<Rightarrow> None)"

interpretation ch: bounded_chan chan_try_send chan_accept chan_try_recv ch_buf ch_cap ch_closed chan_inv
  by unfold_locales
     (auto simp: chan_try_send_def chan_accept_def chan_try_recv_def chan_inv_def
       split: if_splits list.splits)

lemma chan_try_send_Sent:
  "chan_try_send x c = Sent c' \<longleftrightarrow> chan_accept x c = Some c'"
  by (auto simp: chan_accept_def split: send_result.splits)

lemma chan_try_send_Full:
  "chan_try_send x c = Full \<longleftrightarrow> \<not> ch_closed c \<and> ch_cap c \<le> length (ch_buf c)"
  by (auto simp: chan_try_send_def)

end
