(* ===== verification/Hooks.thy ===== *)
theory Hooks
  imports Acp Interfaces
begin

text \<open>
  The hook dispatcher (\<open>hooks.go\<close>): events, matchers, callbacks and the merge of their outputs.

  A matcher is a pointer in Go and its \<open>fired\<close> flag is shared by every dispatch, so a matcher
  carries its identity and the set of identities that have fired is part of the state. A callback
  is an arbitrary function that reads and changes the caller's world \<open>'w\<close>; its first argument is
  the deadline of the context it is given. The regular expression of a matcher is a predicate on
  strings: the \<open>regexp\<close> package is a parameter.
\<close>

section \<open>Data\<close>

datatype HookEvent =
    HookEventPreToolUse | HookEventPostToolUse | HookEventPostToolUseFailure
  | HookEventUserPromptSubmit | HookEventStop | HookEventStopFailure
  | HookEventSessionStart | HookEventSessionEnd
  | HookEventPermissionRequest | HookEventPermissionDenied | HookEventFileChanged

record HookInput =
  hi_Event :: HookEvent
  hi_SessionID :: string
  hi_ToolCall :: "ToolCall option"
  hi_ToolCallUpdate :: "ToolCallUpdate option"
  hi_PromptText :: string
  hi_PromptResult :: "PromptResult option"
  hi_PromptError :: "goerr option"
  hi_PermissionRequest :: "PermissionRequest option"
  hi_PermissionResponse :: "PermissionResponse option"
  hi_FileWrite :: "WriteTextFileRequest option"

definition hook_input :: "HookEvent \<Rightarrow> string \<Rightarrow> HookInput" where
  "hook_input ev sid = \<lparr>hi_Event = ev, hi_SessionID = sid, hi_ToolCall = None,
     hi_ToolCallUpdate = None, hi_PromptText = [], hi_PromptResult = None, hi_PromptError = None,
     hi_PermissionRequest = None, hi_PermissionResponse = None, hi_FileWrite = None\<rparr>"

record HookOutput =
  ho_Continue :: bool
  ho_Reason :: string
  ho_SuppressOutput :: bool

definition HookAllow :: HookOutput where
  "HookAllow = \<lparr>ho_Continue = True, ho_Reason = [], ho_SuppressOutput = False\<rparr>"

definition HookBlock :: "string \<Rightarrow> HookOutput" where
  "HookBlock reason = \<lparr>ho_Continue = False, ho_Reason = reason, ho_SuppressOutput = False\<rparr>"

type_synonym 'w HookCallback =
  "int option \<Rightarrow> HookInput \<Rightarrow> 'w \<Rightarrow> (HookOutput \<times> goerr option) \<times> 'w"

record 'w HookMatcher =
  hm_Id :: nat
  hm_Matcher :: "(string \<Rightarrow> bool) option"
  hm_Hooks :: "'w HookCallback list"
  hm_Timeout :: int
  hm_Once :: bool

type_synonym 'w hook_table = "(HookEvent \<times> 'w HookMatcher list) list"

section \<open>Registration\<close>

definition matchers_for :: "HookEvent \<Rightarrow> 'w hook_table \<Rightarrow> 'w HookMatcher list" where
  "matchers_for ev t = (case map_of t ev of None \<Rightarrow> [] | Some ms \<Rightarrow> ms)"

definition WithHooks :: "'w hook_table \<Rightarrow> 'w hook_table \<Rightarrow> 'w hook_table" where
  "WithHooks hooks t =
     fold (\<lambda>(ev, ms) t. amap_put ev (matchers_for ev t @ ms) t) hooks t"

type_synonym 'w hookDispatcher = "'w hook_table option"

definition newHookDispatcher :: "'w hook_table \<Rightarrow> 'w hookDispatcher" where
  "newHookDispatcher hooks = (if hooks = [] then None else Some hooks)"

section \<open>Dispatch\<close>

record 'w hstate =
  hs_fired :: "nat set"
  hs_world :: 'w

definition matches :: "'w HookMatcher \<Rightarrow> string \<Rightarrow> bool" where
  "matches m primary \<longleftrightarrow>
     \<not> (hm_Matcher m \<noteq> None \<and> primary \<noteq> [] \<and> \<not> the (hm_Matcher m) primary)"

definition hook_deadline :: "'w HookMatcher \<Rightarrow> int option" where
  "hook_deadline m = (if hm_Timeout m > 0 then Some (hm_Timeout m) else None)"

definition merge_out :: "HookOutput \<Rightarrow> HookOutput \<Rightarrow> HookOutput" where
  "merge_out merged out =
     (let merged1 = (if \<not> ho_Continue out \<and> ho_Continue merged then out else merged)
      in if ho_SuppressOutput out then merged1\<lparr>ho_SuppressOutput := True\<rparr> else merged1)"

fun run_hooks :: "int option \<Rightarrow> HookInput \<Rightarrow> 'w HookCallback list \<Rightarrow> HookOutput \<Rightarrow> 'w \<Rightarrow>
    (goerr + HookOutput) \<times> 'w" where
  "run_hooks dl inp [] merged w = (Inr merged, w)"
| "run_hooks dl inp (cb # cbs) merged w =
     (case cb dl inp w of
        ((out, Some e), w') \<Rightarrow> (Inl e, w')
      | ((out, None), w') \<Rightarrow> run_hooks dl inp cbs (merge_out merged out) w')"

fun run_matchers :: "string \<Rightarrow> HookInput \<Rightarrow> 'w HookMatcher list \<Rightarrow> HookOutput \<Rightarrow> 'w hstate \<Rightarrow>
    (goerr + HookOutput) \<times> 'w hstate" where
  "run_matchers primary inp [] merged s = (Inr merged, s)"
| "run_matchers primary inp (m # ms) merged s =
     (if \<not> matches m primary then run_matchers primary inp ms merged s
      else if hm_Once m \<and> hm_Id m \<in> hs_fired s then run_matchers primary inp ms merged s
      else
        let s1 = (if hm_Once m then s\<lparr>hs_fired := insert (hm_Id m) (hs_fired s)\<rparr> else s)
        in case run_hooks (hook_deadline m) inp (hm_Hooks m) merged (hs_world s1) of
             (Inl e, w) \<Rightarrow> (Inl e, s1\<lparr>hs_world := w\<rparr>)
           | (Inr merged', w) \<Rightarrow> run_matchers primary inp ms merged' (s1\<lparr>hs_world := w\<rparr>))"

definition dispatch :: "'w hookDispatcher \<Rightarrow> HookEvent \<Rightarrow> string \<Rightarrow> HookInput \<Rightarrow> 'w hstate \<Rightarrow>
    (HookOutput \<times> goerr option) \<times> 'w hstate" where
  "dispatch d ev primary inp s =
     (case d of
        None \<Rightarrow> ((HookAllow, None), s)
      | Some t \<Rightarrow>
          if matchers_for ev t = [] then ((HookAllow, None), s)
          else case run_matchers primary inp (matchers_for ev t) HookAllow s of
                 (Inl e, s') \<Rightarrow> ((HookBlock (''hook error: '' @ err_msg e), Some e), s')
               | (Inr merged, s') \<Rightarrow> ((merged, None), s'))"

lemma hook_consts [simp]:
  "ho_Continue HookAllow" "ho_Reason HookAllow = []" "\<not> ho_SuppressOutput HookAllow"
  "\<not> ho_Continue (HookBlock r)" "ho_Reason (HookBlock r) = r" "\<not> ho_SuppressOutput (HookBlock r)"
  by (simp_all add: HookAllow_def HookBlock_def)

lemma dispatch_None [simp]: "dispatch None ev p inp s = ((HookAllow, None), s)"
  by (simp add: dispatch_def)

section \<open>Registration lemmas\<close>

lemma matchers_for_put [simp]:
  "matchers_for ev (amap_put ev' ms t) = (if ev = ev' then ms else matchers_for ev t)"
  by (simp add: matchers_for_def am.get_put)

lemma WithHooks_appends:
  "distinct (map fst hooks) \<Longrightarrow>
   matchers_for ev (WithHooks hooks t) = matchers_for ev t @ matchers_for ev hooks"
  unfolding WithHooks_def
proof (induction hooks arbitrary: t)
  case (Cons p hooks)
  obtain e ms where p: "p = (e, ms)" by (cases p)
  have "e \<notin> fst ` set hooks" and d: "distinct (map fst hooks)"
    using Cons.prems by (auto simp: p)
  then have "map_of hooks e = None" by (simp add: map_of_eq_None_iff)
  then have "matchers_for e hooks = []" by (simp add: matchers_for_def)
  then show ?case
    using Cons.IH [OF d, of "amap_put e (matchers_for e t @ ms) t"]
    by (auto simp: p matchers_for_def)
qed (simp add: matchers_for_def)

section \<open>What a dispatch computes\<close>

text \<open>
  The specification: which matchers run is decided by the match and by the \<open>Once\<close> flags alone;
  the callbacks of these matchers run one after the other until the first error; the outputs are
  combined by \<open>merge_spec\<close>.
\<close>

fun select :: "string \<Rightarrow> nat set \<Rightarrow> 'w HookMatcher list \<Rightarrow> 'w HookMatcher list" where
  "select primary fired [] = []"
| "select primary fired (m # ms) =
     (if matches m primary \<and> \<not> (hm_Once m \<and> hm_Id m \<in> fired)
      then m # select primary (if hm_Once m then insert (hm_Id m) fired else fired) ms
      else select primary fired ms)"

fun collect :: "HookInput \<Rightarrow> (int option \<times> 'w HookCallback) list \<Rightarrow> 'w \<Rightarrow>
    (HookOutput list \<times> goerr option) \<times> 'w" where
  "collect inp [] w = (([], None), w)"
| "collect inp ((dl, cb) # cs) w =
     (case cb dl inp w of
        ((out, Some e), w') \<Rightarrow> (([], Some e), w')
      | ((out, None), w') \<Rightarrow>
          (case collect inp cs w' of ((outs, r), w'') \<Rightarrow> ((out # outs, r), w'')))"

definition calls_of :: "'w HookMatcher list \<Rightarrow> (int option \<times> 'w HookCallback) list" where
  "calls_of ms = concat (map (\<lambda>m. map (Pair (hook_deadline m)) (hm_Hooks m)) ms)"

definition merge_spec :: "HookOutput list \<Rightarrow> HookOutput" where
  "merge_spec outs =
     (case dropWhile ho_Continue outs of
        [] \<Rightarrow> HookAllow\<lparr>ho_SuppressOutput := (\<exists>out \<in> set outs. ho_SuppressOutput out)\<rparr>
      | b # later \<Rightarrow> b\<lparr>ho_SuppressOutput := (\<exists>out \<in> set (b # later). ho_SuppressOutput out)\<rparr>)"

lemma collect_append:
  "collect inp (xs @ ys) w =
     (case collect inp xs w of
        ((outs, Some e), w') \<Rightarrow> ((outs, Some e), w')
      | ((outs, None), w') \<Rightarrow>
          (case collect inp ys w' of ((outs', r), w'') \<Rightarrow> ((outs @ outs', r), w'')))"
  by (induction inp xs w rule: collect.induct) (auto split: prod.splits option.splits)

lemma run_hooks_collect:
  "run_hooks dl inp cbs merged w =
     (case collect inp (map (Pair dl) cbs) w of
        ((outs, Some e), w') \<Rightarrow> (Inl e, w')
      | ((outs, None), w') \<Rightarrow> (Inr (foldl merge_out merged outs), w'))"
  by (induction cbs arbitrary: merged w) (auto split: prod.splits option.splits)

lemma run_matchers_collect:
  "\<exists>fired'. run_matchers primary inp ms merged s =
     (case collect inp (calls_of (select primary (hs_fired s) ms)) (hs_world s) of
        ((outs, Some e), w') \<Rightarrow> (Inl e, \<lparr>hs_fired = fired', hs_world = w'\<rparr>)
      | ((outs, None), w') \<Rightarrow> (Inr (foldl merge_out merged outs),
           \<lparr>hs_fired = fired', hs_world = w'\<rparr>))"
proof (induction ms arbitrary: merged s)
  case Nil
  show ?case by (rule exI [of _ "hs_fired s"]) (simp add: calls_of_def)
next
  case (Cons m ms)
  show ?case
  proof (cases "matches m primary \<and> \<not> (hm_Once m \<and> hm_Id m \<in> hs_fired s)")
    case False
    then show ?thesis using Cons.IH [of merged s] by auto
  next
    case True
    define s1 where "s1 = (if hm_Once m then s\<lparr>hs_fired := insert (hm_Id m) (hs_fired s)\<rparr> else s)"
    have w1: "hs_world s1 = hs_world s" by (simp add: s1_def)
    have f1: "hs_fired s1 = (if hm_Once m then insert (hm_Id m) (hs_fired s) else hs_fired s)"
      by (simp add: s1_def)
    obtain outs r w where c: "collect inp (map (Pair (hook_deadline m)) (hm_Hooks m)) (hs_world s)
        = ((outs, r), w)" by (metis prod.exhaust)
    show ?thesis
    proof (cases r)
      case None
      with True c f1 w1 Cons.IH [of "foldl merge_out merged outs" "s1\<lparr>hs_world := w\<rparr>"] show ?thesis
        by (auto simp: calls_of_def collect_append run_hooks_collect Let_def simp flip: s1_def
            split: prod.splits option.splits)
    next
      case (Some e)
      with True c f1 w1 show ?thesis
        by (auto simp: calls_of_def collect_append run_hooks_collect Let_def simp flip: s1_def
            intro!: exI [of _ "hs_fired s1"])
    qed
  qed
qed

lemma merge_out_blocked: "\<not> ho_Continue b \<Longrightarrow>
   foldl merge_out b outs = b\<lparr>ho_SuppressOutput := ho_SuppressOutput b \<or> (\<exists>out \<in> set outs. ho_SuppressOutput out)\<rparr>"
  by (induction outs arbitrary: b) (auto simp: merge_out_def Let_def)

lemma merge_out_allowed: "ho_Continue m \<Longrightarrow> ho_Continue out \<Longrightarrow>
   merge_out m out = m\<lparr>ho_SuppressOutput := ho_SuppressOutput m \<or> ho_SuppressOutput out\<rparr>"
  by (simp add: merge_out_def)

lemma foldl_merge_out: "ho_Continue m \<Longrightarrow>
   foldl merge_out m outs =
     (case dropWhile ho_Continue outs of
        [] \<Rightarrow> m\<lparr>ho_SuppressOutput := ho_SuppressOutput m \<or> (\<exists>out \<in> set outs. ho_SuppressOutput out)\<rparr>
      | b # later \<Rightarrow> b\<lparr>ho_SuppressOutput := (\<exists>out \<in> set (b # later). ho_SuppressOutput out)\<rparr>)"
proof (induction outs arbitrary: m)
  case (Cons out outs)
  show ?case
  proof (cases "ho_Continue out")
    case True
    then have m: "merge_out m out = m\<lparr>ho_SuppressOutput := ho_SuppressOutput m \<or> ho_SuppressOutput out\<rparr>"
      and c: "ho_Continue (merge_out m out)"
      using Cons.prems by (simp_all add: merge_out_allowed)
    show ?thesis
      using Cons.IH [OF c] True by (cases "dropWhile ho_Continue outs") (simp_all add: m disj_assoc del: dropWhile_eq_Nil_conv)
  next
    case False
    then have "merge_out m out = out"
      using Cons.prems by (simp add: merge_out_def)
    then show ?thesis using False by (simp add: merge_out_blocked)
  qed
qed simp

lemma foldl_merge_spec: "foldl merge_out HookAllow outs = merge_spec outs"
  by (cases "dropWhile ho_Continue outs") (simp_all add: foldl_merge_out merge_spec_def del: dropWhile_eq_Nil_conv)

lemma merge_spec_continue: "ho_Continue (merge_spec outs) \<longleftrightarrow> (\<forall>out \<in> set outs. ho_Continue out)"
proof (cases "dropWhile ho_Continue outs")
  case Nil
  then have "\<forall>out \<in> set outs. ho_Continue out" by simp
  then show ?thesis by (simp add: merge_spec_def Nil del: dropWhile_eq_Nil_conv)
next
  case (Cons b later)
  then have "\<not> ho_Continue b" and "b \<in> set outs"
    using hd_dropWhile [of ho_Continue outs] set_dropWhileD [of b ho_Continue outs] by auto
  then show ?thesis by (auto simp: merge_spec_def Cons)
qed

lemma merge_spec_reason:
  "ho_Reason (merge_spec outs) =
     (case dropWhile ho_Continue outs of [] \<Rightarrow> [] | b # _ \<Rightarrow> ho_Reason b)"
  by (cases "dropWhile ho_Continue outs") (simp_all add: merge_spec_def del: dropWhile_eq_Nil_conv)

text \<open>
  C9: What a dispatch computes. The matchers that fire are those whose expression matches (or
  that have none, or the primary string is empty) and whose Once flag is not spent, each Once
  matcher at most once even within the dispatch; their callbacks run in order, each under its
  matcher's deadline, up to the first error; without an error the result continues exactly when
  every output does, carries the first blocking output's reason, and no error; with an error the
  result blocks with the error's text and returns the error. A blocking output decides the result but
  ends nothing: the later callbacks of its own matcher and those of the later matchers still run.
  The comment on \<open>HookCallback\<close> (\<open>hooks.go\<close>, line 147) says otherwise, that the SDK short-circuits the
  hooks after the first that blocks; the code does not, and it is the code that is stated here.
\<close>

theorem dispatch_correct:
  "fst (dispatch (Some t) ev primary inp s) =
     (case fst (collect inp (calls_of (select primary (hs_fired s) (matchers_for ev t)))
                  (hs_world s)) of
        (outs, None) \<Rightarrow> (merge_spec outs, None)
      | (outs, Some e) \<Rightarrow> (HookBlock (''hook error: '' @ err_msg e), Some e)) \<and>
   hs_world (snd (dispatch (Some t) ev primary inp s)) =
     snd (collect inp (calls_of (select primary (hs_fired s) (matchers_for ev t))) (hs_world s))"
proof (cases "matchers_for ev t = []")
  case True
  then show ?thesis by (simp add: dispatch_def calls_of_def merge_spec_def HookAllow_def)
next
  case False
  obtain outs r w where c: "collect inp (calls_of (select primary (hs_fired s) (matchers_for ev t)))
      (hs_world s) = ((outs, r), w)" by (metis prod.exhaust)
  obtain fired' where "run_matchers primary inp (matchers_for ev t) HookAllow s =
      (case r of Some e \<Rightarrow> (Inl e, \<lparr>hs_fired = fired', hs_world = w\<rparr>)
       | None \<Rightarrow> (Inr (merge_spec outs), \<lparr>hs_fired = fired', hs_world = w\<rparr>))"
    using run_matchers_collect [of primary inp "matchers_for ev t" HookAllow s]
    by (auto simp: c foldl_merge_spec split: option.splits)
  with False show ?thesis by (cases r) (simp_all add: dispatch_def c)
qed

section \<open>Once\<close>

lemma run_matchers_fired_mono:
  "run_matchers primary inp ms merged s = (r, s') \<Longrightarrow> hs_fired s \<subseteq> hs_fired s'"
  by (induction ms arbitrary: merged s)
    (fastforce simp: Let_def split: if_splits prod.splits sum.splits)+

lemma dispatch_fired_mono:
  "dispatch d ev p inp s = (r, s') \<Longrightarrow> hs_fired s \<subseteq> hs_fired s'"
  using run_matchers_fired_mono
  by (fastforce simp: dispatch_def split: option.splits if_splits prod.splits sum.splits)

definition spent :: "nat set \<Rightarrow> 'w HookMatcher \<Rightarrow> bool" where
  "spent fired m \<longleftrightarrow> hm_Once m \<and> hm_Id m \<in> fired"

lemma run_matchers_drop_spent:
  "F \<subseteq> hs_fired s \<Longrightarrow> run_matchers primary inp (filter (\<lambda>m. \<not> spent F m) ms) merged s =
     run_matchers primary inp ms merged s"
proof (induction ms arbitrary: merged s)
  case (Cons m ms)
  define s1 where "s1 = (if hm_Once m then s\<lparr>hs_fired := insert (hm_Id m) (hs_fired s)\<rparr> else s)"
  have "F \<subseteq> hs_fired (s1\<lparr>hs_world := w\<rparr>)" for w using Cons.prems by (auto simp: s1_def)
  then show ?case using Cons.prems Cons.IH
    by (auto simp: spent_def Let_def simp flip: s1_def split: prod.splits sum.splits)
qed simp

definition drop_spent :: "nat set \<Rightarrow> 'w hook_table \<Rightarrow> 'w hook_table" where
  "drop_spent F t = map (\<lambda>(ev, ms). (ev, filter (\<lambda>m. \<not> spent F m) ms)) t"

lemma matchers_for_drop_spent:
  "matchers_for ev (drop_spent F t) = filter (\<lambda>m. \<not> spent F m) (matchers_for ev t)"
  by (induction t) (auto simp: matchers_for_def drop_spent_def split: option.splits)

lemma dispatch_drop_spent:
  "F \<subseteq> hs_fired s \<Longrightarrow> dispatch (Some (drop_spent F t)) ev p inp s = dispatch (Some t) ev p inp s"
proof -
  assume F: "F \<subseteq> hs_fired s"
  show ?thesis
  proof (cases "filter (\<lambda>m. \<not> spent F m) (matchers_for ev t) = []")
    case True
    then have "run_matchers p inp (matchers_for ev t) HookAllow s = (Inr HookAllow, s)"
      using run_matchers_drop_spent [OF F, of p inp "matchers_for ev t" HookAllow]
      by (simp only: run_matchers.simps)
    then show ?thesis by (simp add: dispatch_def matchers_for_drop_spent True del: filter_False filter_empty_conv)
  next
    case False
    then have "matchers_for ev t \<noteq> []" by auto
    then show ?thesis unfolding dispatch_def option.case matchers_for_drop_spent run_matchers_drop_spent [OF F]
      using False by (simp only: if_False)
  qed
qed

text \<open>A client's run: a sequence of events dispatched through one table.\<close>

fun dispatch_all :: "'w hookDispatcher \<Rightarrow> (HookEvent \<times> string \<times> HookInput) list \<Rightarrow> 'w hstate \<Rightarrow>
    (HookOutput \<times> goerr option) list \<times> 'w hstate" where
  "dispatch_all d [] s = ([], s)"
| "dispatch_all d ((ev, p, inp) # evs) s =
     (case dispatch d ev p inp s of
        (r, s') \<Rightarrow> (case dispatch_all d evs s' of (rs, s'') \<Rightarrow> (r # rs, s'')))"

text \<open>
  A Once matcher fires at most once over the lifetime of the client: after any dispatch that
  marked it, every later sequence of dispatches (results and effects on the world) is exactly
  what it would be if the spent matchers were not registered at all.
\<close>

theorem once_matchers_inert:
  assumes "dispatch (Some t) ev p inp s = (r, s')"
  shows "dispatch_all (Some (drop_spent (hs_fired s') t)) evs s' = dispatch_all (Some t) evs s'"
proof -
  have "F \<subseteq> hs_fired u \<Longrightarrow> dispatch_all (Some (drop_spent F t)) evs u = dispatch_all (Some t) evs u" for F u
  proof (induction evs arbitrary: u)
    case (Cons e evs)
    obtain ev p inp where e: "e = (ev, p, inp)" by (metis prod.exhaust)
    obtain r u' where d: "dispatch (Some t) ev p inp u = (r, u')" by (metis prod.exhaust)
    with Cons.prems dispatch_fired_mono [OF d] have "F \<subseteq> hs_fired u'" by blast
    with d Cons.prems show ?case by (simp add: e dispatch_drop_spent Cons.IH)
  qed simp
  then show ?thesis by blast
qed

definition once_demo :: "nat HookMatcher" where
  "once_demo = \<lparr>hm_Id = 7, hm_Matcher = None,
     hm_Hooks = [\<lambda>_ _ w. ((HookBlock ''setup'', None), w + 1)], hm_Timeout = 0, hm_Once = True\<rparr>"

theorem once_matchers_inert_witness:
  "dispatch_all (Some (drop_spent {7} [(HookEventStop, [once_demo])]))
     [(HookEventStop, [], hook_input HookEventStop [])] \<lparr>hs_fired = {7}, hs_world = 1\<rparr> =
   dispatch_all (Some [(HookEventStop, [once_demo])])
     [(HookEventStop, [], hook_input HookEventStop [])] \<lparr>hs_fired = {7}, hs_world = 1\<rparr>"
proof -
  have "dispatch (Some [(HookEventStop, [once_demo])]) HookEventStop [] (hook_input HookEventStop [])
      \<lparr>hs_fired = {}, hs_world = 0\<rparr> =
      ((HookBlock ''setup'', None), \<lparr>hs_fired = {7}, hs_world = 1\<rparr>)"
    by (simp add: dispatch_def matchers_for_def once_demo_def matches_def merge_out_def
        HookBlock_def hook_deadline_def)
  from once_matchers_inert [OF this] show ?thesis by (simp only: hstate.select_convs)
qed

definition counting_hook :: "HookOutput \<Rightarrow> nat HookCallback" where
  "counting_hook out dl inp w = ((out, None), w + 1)"

definition plain_matcher :: "nat \<Rightarrow> nat HookCallback list \<Rightarrow> nat HookMatcher" where
  "plain_matcher i cbs = \<lparr>hm_Id = i, hm_Matcher = None, hm_Hooks = cbs, hm_Timeout = 0, hm_Once = False\<rparr>"

text \<open>
  A blocking hook does not short-circuit the hooks registered after it, although the
  documentation of HookCallback says so: in the dispatch below the first callback of the second
  matcher blocks, and the second callback of that matcher and the callback of the third still run
  (they count in the world). The suppress flag an allowing hook set before the block is lost as well.
\<close>

theorem block_does_not_short_circuit:
  "dispatch (Some [(HookEventFileChanged,
      [plain_matcher 1 [counting_hook (HookAllow\<lparr>ho_SuppressOutput := True\<rparr>)],
       plain_matcher 2 [counting_hook (HookBlock ''no''), counting_hook HookAllow],
       plain_matcher 3 [counting_hook HookAllow]])])
     HookEventFileChanged ''/etc/x'' inp \<lparr>hs_fired = {}, hs_world = 0\<rparr> =
   ((HookBlock ''no'', None), \<lparr>hs_fired = {}, hs_world = 4\<rparr>)"
  by (simp add: dispatch_def matchers_for_def plain_matcher_def matches_def merge_out_def
      HookBlock_def HookAllow_def hook_deadline_def counting_hook_def)

section \<open>The gate the handlers rely on\<close>

text \<open>
  The permission, file and prompt paths treat the dispatcher as a gate: all they need of it is
  that an error always comes with a blocking output, and that a client without hooks is let
  through with its state unchanged.
\<close>

locale hook_gate =
  fixes gate :: "'d option \<Rightarrow> HookEvent \<Rightarrow> string \<Rightarrow> HookInput \<Rightarrow> 's \<Rightarrow>
    (HookOutput \<times> goerr option) \<times> 's"
  assumes error_blocks: "gate d ev p inp s = ((out, Some e), s') \<Longrightarrow> \<not> ho_Continue out"
    and no_hooks: "gate None ev p inp s = ((HookAllow, None), s)"
begin

lemma continue_no_error: "gate d ev p inp s = ((out, r), s') \<Longrightarrow> ho_Continue out \<Longrightarrow> r = None"
  using error_blocks by (cases r) auto

lemma blocked_iff: "gate d ev p inp s = ((out, r), s') \<Longrightarrow>
    (r \<noteq> None \<or> \<not> ho_Continue out) \<longleftrightarrow> \<not> ho_Continue out"
  using error_blocks by (cases r) auto

end

interpretation hd: hook_gate dispatch
  by unfold_locales
    (auto simp: dispatch_def split: option.splits if_splits prod.splits sum.splits)

end
