(* ===== verification/Observability.thy ===== *)
theory Observability
  imports Acp
begin

text \<open>
  The Observer (\<open>internal/observability/observability.go\<close>). OpenTelemetry is a parameter of the
  program: what the SDK hands to it is the sequence of measurements, so an observer state is the
  list of the measurements made so far and each \<open>Record*\<close> function appends its own. The
  durations are seconds. Beside them stands the list of the spans opened so far, each with its name,
  its attributes and whether it has been ended.
\<close>

section \<open>Measurements\<close>

datatype instrument =
    promptDuration | promptTokens | sessionUpdate | sessionDropped | mcpBridge | permissionReq
  | fsDelegated | toolCallDuration | toolCallCount | costUSD | initializeDuration | cliSpawn
  | retryAttempt | structuredDecode | transportFailure | elicitationRequest | mcpCapReject

definition Namespace :: string where "Namespace = ''opencodesdk''"

datatype instrument_kind = Float64Histogram | Int64Counter | Float64Counter

record instrument_spec =
  is_Kind :: instrument_kind
  is_Name :: string
  is_Description :: string
  is_Unit :: string

definition counter_spec :: "string \<Rightarrow> string \<Rightarrow> instrument_spec" where
  "counter_spec n d = \<lparr>is_Kind = Int64Counter, is_Name = Namespace @ n, is_Description = d, is_Unit = []\<rparr>"

definition seconds_spec :: "string \<Rightarrow> string \<Rightarrow> instrument_spec" where
  "seconds_spec n d = \<lparr>is_Kind = Float64Histogram, is_Name = Namespace @ n, is_Description = d, is_Unit = ''s''\<rparr>"

text \<open>\<open>NewObserver\<close>: what each instrument is created with.\<close>

fun NewObserver :: "instrument \<Rightarrow> instrument_spec" where
  "NewObserver promptDuration = seconds_spec ''.session.prompt.duration'' ''Duration of a session/prompt turn''"
| "NewObserver promptTokens = \<lparr>is_Kind = Float64Histogram, is_Name = Namespace @ ''.session.prompt.tokens'',
     is_Description = ''Token usage per prompt turn, bucketed by direction'', is_Unit = []\<rparr>"
| "NewObserver sessionUpdate = counter_spec ''.session.update.count'' ''session/update notifications received, by variant''"
| "NewObserver sessionDropped = counter_spec ''.session.updates.dropped''
     ''session/update notifications dropped because the updates buffer was full''"
| "NewObserver mcpBridge = counter_spec ''.mcp_bridge.request'' ''Inbound MCP bridge tool invocations, by tool + status''"
| "NewObserver permissionReq = counter_spec ''.permission.request'' ''session/request_permission callbacks, by outcome''"
| "NewObserver fsDelegated = counter_spec ''.fs.delegated''
     ''fs/read_text_file and fs/write_text_file delegations, by op + outcome''"
| "NewObserver toolCallDuration = seconds_spec ''.tool_call.duration''
     (''Duration of a tool call, start'' @ [CHR 0xE2, CHR 0x86, CHR 0x92] @ ''terminal status'')"
| "NewObserver toolCallCount = counter_spec ''.tool_call.count'' ''Tool call invocations, by tool_name + status''"
| "NewObserver costUSD = \<lparr>is_Kind = Float64Counter, is_Name = Namespace @ ''.cost.usd'',
     is_Description = ''Cumulative monetary cost reported via usage_update (USD)'', is_Unit = ''USD''\<rparr>"
| "NewObserver initializeDuration = seconds_spec ''.initialize.duration'' ''Duration of the ACP initialize handshake''"
| "NewObserver cliSpawn = counter_spec ''.cli.spawn'' ''opencode CLI subprocess spawn events, by outcome''"
| "NewObserver retryAttempt = counter_spec ''.retry.attempt'' ''ResilientQuery retry attempts, by error class + outcome''"
| "NewObserver structuredDecode = counter_spec ''.structured_output.decode''
     ''DecodeStructuredOutput invocations, by source + outcome''"
| "NewObserver transportFailure = counter_spec ''.transport.failure''
     ''Transport-layer failures observed by the Client, by kind''"
| "NewObserver elicitationRequest = counter_spec ''.elicitation.request''
     ''Inbound agent-initiated elicitation/create requests, by mode + outcome''"
| "NewObserver mcpCapReject = counter_spec ''.mcp.capability.reject''
     ''session/new|load|fork|resume calls rejected locally because an McpServer transport was not advertised, by transport''"

record measurement =
  ms_Instrument :: instrument
  ms_Value :: rat
  ms_Attrs :: "(string \<times> string) list"

type_synonym obs = "measurement list"

definition emit :: "instrument \<Rightarrow> rat \<Rightarrow> (string \<times> string) list \<Rightarrow> obs \<Rightarrow> obs" where
  "emit i v as ob = ob @ [\<lparr>ms_Instrument = i, ms_Value = v, ms_Attrs = as\<rparr>]"

record PromptLabels =
  pl_Model :: string
  pl_Mode :: string
  pl_User :: string

record TokenCounts =
  tk_Input :: int
  tk_Output :: int
  tk_CachedRead :: int
  tk_CachedWrite :: int
  tk_Thought :: int

section \<open>The Record functions\<close>

definition opt_attr :: "string \<Rightarrow> string \<Rightarrow> (string \<times> string) list" where
  "opt_attr k v = (if v = [] then [] else [(k, v)])"

definition RecordElicitationRequest :: "string \<Rightarrow> string \<Rightarrow> obs \<Rightarrow> obs" where
  "RecordElicitationRequest mode outcome =
     emit elicitationRequest 1 [(''mode'', mode), (''outcome'', outcome)]"

definition RecordMCPCapabilityReject :: "string \<Rightarrow> obs \<Rightarrow> obs" where
  "RecordMCPCapabilityReject transport = emit mcpCapReject 1 [(''transport'', transport)]"

definition RecordRetryAttempt :: "string \<Rightarrow> string \<Rightarrow> obs \<Rightarrow> obs" where
  "RecordRetryAttempt cls outcome =
     emit retryAttempt 1 [(''class'', cls), (''outcome'', outcome)]"

definition RecordStructuredDecode :: "string \<Rightarrow> string \<Rightarrow> obs \<Rightarrow> obs" where
  "RecordStructuredDecode source outcome =
     emit structuredDecode 1 [(''source'', source), (''outcome'', outcome)]"

definition RecordTransportFailure :: "string \<Rightarrow> obs \<Rightarrow> obs" where
  "RecordTransportFailure kind = emit transportFailure 1 [(''kind'', kind)]"

definition RecordInitializeDuration :: "rat \<Rightarrow> bool \<Rightarrow> obs \<Rightarrow> obs" where
  "RecordInitializeDuration d success =
     emit initializeDuration d [(''outcome'', if success then ''ok'' else ''error'')]"

definition RecordCLISpawn :: "string \<Rightarrow> obs \<Rightarrow> obs" where
  "RecordCLISpawn outcome = emit cliSpawn 1 [(''outcome'', outcome)]"

definition record_tokens :: "PromptLabels \<Rightarrow> string \<Rightarrow> int \<Rightarrow> obs \<Rightarrow> obs" where
  "record_tokens l direction value ob =
     (if value \<le> 0 then ob
      else emit promptTokens (of_int value)
             ((''direction'', direction) # opt_attr ''model'' (pl_Model l) @
              opt_attr ''user'' (pl_User l)) ob)"

definition RecordPrompt :: "rat \<Rightarrow> string \<Rightarrow> TokenCounts \<Rightarrow> PromptLabels \<Rightarrow> obs \<Rightarrow> obs" where
  "RecordPrompt d stopReason t l ob =
     (let ob0 = emit promptDuration d
                  ((''stop_reason'', stopReason) # opt_attr ''model'' (pl_Model l) @
                   opt_attr ''mode'' (pl_Mode l) @ opt_attr ''user'' (pl_User l)) ob;
          ob1 = record_tokens l ''input'' (tk_Input t) ob0;
          ob2 = record_tokens l ''output'' (tk_Output t) ob1;
          ob3 = record_tokens l ''cached_read'' (tk_CachedRead t) ob2;
          ob4 = record_tokens l ''cached_write'' (tk_CachedWrite t) ob3
      in record_tokens l ''thought'' (tk_Thought t) ob4)"

definition RecordSessionUpdate :: "string \<Rightarrow> obs \<Rightarrow> obs" where
  "RecordSessionUpdate variant = emit sessionUpdate 1 [(''variant'', variant)]"

definition RecordUpdateDropped :: "string \<Rightarrow> obs \<Rightarrow> obs" where
  "RecordUpdateDropped sid = emit sessionDropped 1 [(''session_id'', sid)]"

definition RecordMCPBridge :: "string \<Rightarrow> string \<Rightarrow> obs \<Rightarrow> obs" where
  "RecordMCPBridge tool status = emit mcpBridge 1 [(''tool'', tool), (''status'', status)]"

definition RecordPermission :: "string \<Rightarrow> obs \<Rightarrow> obs" where
  "RecordPermission outcome = emit permissionReq 1 [(''outcome'', outcome)]"

definition RecordFsDelegation :: "string \<Rightarrow> string \<Rightarrow> obs \<Rightarrow> obs" where
  "RecordFsDelegation op outcome = emit fsDelegated 1 [(''op'', op), (''outcome'', outcome)]"

definition RecordToolCall :: "string \<Rightarrow> string \<Rightarrow> string \<Rightarrow> rat \<Rightarrow> obs \<Rightarrow> obs" where
  "RecordToolCall name kind status d ob =
     (let attrs = [(''tool_name'', name), (''status'', status)] @ opt_attr ''tool_kind'' kind;
          ob1 = emit toolCallCount 1 attrs ob
      in if d > 0 then emit toolCallDuration d attrs ob1 else ob1)"

definition RecordCost :: "rat \<Rightarrow> string \<Rightarrow> string \<Rightarrow> obs \<Rightarrow> obs" where
  "RecordCost amount currency model ob =
     (if amount \<le> 0 then ob
      else if currency \<noteq> [] \<and> currency \<noteq> ''USD'' then ob
      else emit costUSD amount (opt_attr ''model'' model) ob)"

section \<open>Spans\<close>

record span =
  sp_Name :: string
  sp_Attrs :: "(string \<times> string) list"
  sp_Ended :: bool

definition start_span :: "string \<Rightarrow> (string \<times> string) list \<Rightarrow> span list \<Rightarrow> nat \<times> span list" where
  "start_span n as sp = (length sp, sp @ [\<lparr>sp_Name = n, sp_Attrs = as, sp_Ended = False\<rparr>])"

definition end_span :: "nat \<Rightarrow> span list \<Rightarrow> span list" where
  "end_span i sp = (if i < length sp then sp[i := (sp ! i)\<lparr>sp_Ended := True\<rparr>] else sp)"

definition StartPromptSpan :: "string \<Rightarrow> PromptLabels \<Rightarrow> span list \<Rightarrow> nat \<times> span list" where
  "StartPromptSpan sessionID l = start_span (Namespace @ ''.session.prompt'')
     ((''session.id'', sessionID) # opt_attr ''model'' (pl_Model l) @ opt_attr ''mode'' (pl_Mode l) @
      opt_attr ''user'' (pl_User l))"

definition StartInitializeSpan :: "span list \<Rightarrow> nat \<times> span list" where
  "StartInitializeSpan = start_span (Namespace @ ''.initialize'') []"

definition StartSubprocessSpan :: "string \<Rightarrow> span list \<Rightarrow> nat \<times> span list" where
  "StartSubprocessSpan path = start_span (Namespace @ ''.subprocess'') [(''path'', path)]"

definition open_spans :: "span list \<Rightarrow> nat set" where
  "open_spans sp = {i. i < length sp \<and> \<not> sp_Ended (sp ! i)}"

lemma start_span_open: "start_span n as sp = (i, sp') \<Longrightarrow> i \<notin> open_spans sp \<and> open_spans sp' = insert i (open_spans sp)"
  by (auto simp: start_span_def open_spans_def nth_append less_Suc_eq)

lemma end_span_open: "open_spans (end_span i sp) = open_spans sp - {i}"
  by (auto simp: end_span_def open_spans_def nth_list_update)

section \<open>Reading an instrument\<close>

definition total :: "instrument \<Rightarrow> obs \<Rightarrow> rat" where
  "total i ob = sum_list (map ms_Value (filter (\<lambda>m. ms_Instrument m = i) ob))"

lemma total_emit [simp]: "total i (emit j v as ob) = total i ob + (if i = j then v else 0)"
  by (simp add: total_def emit_def)

lemma total_Nil [simp]: "total i [] = 0"
  by (simp add: total_def)

named_theorems record_defs

lemmas [record_defs] =
  RecordElicitationRequest_def RecordMCPCapabilityReject_def RecordRetryAttempt_def
  RecordStructuredDecode_def RecordTransportFailure_def RecordInitializeDuration_def
  RecordCLISpawn_def RecordSessionUpdate_def RecordUpdateDropped_def RecordMCPBridge_def
  RecordPermission_def RecordFsDelegation_def RecordToolCall_def RecordCost_def

lemma total_record_tokens:
  "total i (record_tokens l d v ob) =
     total i ob + (if i = promptTokens then of_int (max 0 v) else 0)"
  by (auto simp: record_tokens_def)

lemma total_RecordCost:
  "total i (RecordCost a c m ob) =
     total i ob + (if i = costUSD \<and> a > 0 \<and> (c = [] \<or> c = ''USD'') then a else 0)"
  by (auto simp: RecordCost_def)

lemma total_RecordToolCall_count:
  "total toolCallCount (RecordToolCall n k s d ob) = total toolCallCount ob + 1"
  by (simp add: RecordToolCall_def Let_def)

text \<open>
  Recording a prompt adds exactly one duration sample and, to the token instrument, the sum
  of the positive token buckets: a zero or negative bucket contributes nothing.
\<close>

theorem RecordPrompt_totals:
  "total promptTokens (RecordPrompt d sr t l ob) = total promptTokens ob +
     of_int (max 0 (tk_Input t) + max 0 (tk_Output t) + max 0 (tk_CachedRead t) +
             max 0 (tk_CachedWrite t) + max 0 (tk_Thought t)) \<and>
   total promptDuration (RecordPrompt d sr t l ob) = total promptDuration ob + d"
  by (simp_all add: RecordPrompt_def Let_def total_record_tokens)

text \<open>
  The cost counter never decreases, whatever sequence of cost updates the agent sends, and
  what it accumulates is the sum of the positive amounts in USD (or in no stated currency).
\<close>

theorem RecordCost_total:
  "total costUSD (fold (\<lambda>(a, c, m). RecordCost a c m) xs ob) = total costUSD ob +
     sum_list (map fst (filter (\<lambda>(a, c, m). a > 0 \<and> (c = [] \<or> c = ''USD'')) xs))"
  by (induction xs arbitrary: ob) (auto simp: total_RecordCost split: if_splits)

text \<open>
  No two instruments share a name, so none of the seventeen is folded into another by the exporter,
  and every name is in the SDK's namespace.
\<close>

theorem instruments_distinct: "is_Name (NewObserver i) = is_Name (NewObserver j) \<longleftrightarrow> i = j"
  by (cases i; cases j) (simp_all add: counter_spec_def seconds_spec_def)

theorem instruments_in_namespace: "has_prefix (is_Name (NewObserver i)) (Namespace @ ''.'')"
  by (cases i) (simp_all add: counter_spec_def seconds_spec_def Namespace_def)

text \<open>
  A counter only ever gets positive increments, and an integer counter the increment one, as the
  metrics API demands.
\<close>

definition lawful :: "measurement \<Rightarrow> bool" where
  "lawful m = (case is_Kind (NewObserver (ms_Instrument m)) of
     Int64Counter \<Rightarrow> ms_Value m = 1 | Float64Counter \<Rightarrow> ms_Value m > 0 | Float64Histogram \<Rightarrow> True)"

lemma emit_lawful:
  "list_all lawful ob \<Longrightarrow> lawful \<lparr>ms_Instrument = i, ms_Value = v, ms_Attrs = as\<rparr> \<Longrightarrow> list_all lawful (emit i v as ob)"
  by (simp add: emit_def)

theorem measurements_lawful:
  assumes "list_all lawful ob"
  shows "list_all lawful (RecordToolCall n k st d ob)" "list_all lawful (RecordCost a c m ob)"
    "list_all lawful (RecordPrompt d sr t l ob)" "list_all lawful (RecordInitializeDuration d ok ob)"
    "list_all lawful (RecordPermission x ob)" "list_all lawful (RecordFsDelegation x y ob)"
    "list_all lawful (RecordMCPBridge x y ob)" "list_all lawful (RecordUpdateDropped x ob)"
    "list_all lawful (RecordSessionUpdate x ob)" "list_all lawful (RecordCLISpawn x ob)"
    "list_all lawful (RecordTransportFailure x ob)" "list_all lawful (RecordStructuredDecode x y ob)"
    "list_all lawful (RecordRetryAttempt x y ob)" "list_all lawful (RecordMCPCapabilityReject x ob)"
    "list_all lawful (RecordElicitationRequest x y ob)"
  using assms by (simp_all add: record_defs RecordPrompt_def record_tokens_def emit_def lawful_def counter_spec_def
      seconds_spec_def Let_def)

end
