(* ===== verification/Filepath.thy ===== *)
theory Filepath
  imports GoBase
begin

text \<open>
  The lexical part of Go's \<open>path/filepath\<close> on Unix, as far as the SDK uses it: \<open>IsAbs\<close>,
  \<open>Clean\<close>, \<open>Join\<close>, \<open>Dir\<close>, \<open>Rel\<close> and \<open>Ext\<close>. A cleaned path is modelled through its
  segments; symbolic links are not resolved, as in the library.
\<close>

abbreviation slash :: char where "slash \<equiv> CHR 0x2F"

definition path_is_abs :: "string \<Rightarrow> bool" where
  "path_is_abs p = has_prefix p [slash]"

text \<open>
  The scan of \<open>Clean\<close>: \<open>acc\<close> is the output so far, last segment first. Empty and \<open>.\<close> segments
  vanish; \<open>..\<close> removes the last segment unless that is itself \<open>..\<close>, is dropped at a root and
  kept at the front of a relative path.
\<close>

fun clean_segs :: "bool \<Rightarrow> string list \<Rightarrow> string list \<Rightarrow> string list" where
  "clean_segs rooted acc [] = rev acc"
| "clean_segs rooted acc (s # ss) =
     (if s = [] \<or> s = ''.'' then clean_segs rooted acc ss
      else if s = ''..'' then
        (case acc of
           a # as \<Rightarrow> if a = ''..'' then clean_segs rooted (s # acc) ss else clean_segs rooted as ss
         | [] \<Rightarrow> if rooted then clean_segs rooted [] ss else clean_segs rooted [s] ss)
      else clean_segs rooted (s # acc) ss)"

definition path_segs :: "string \<Rightarrow> string list" where
  "path_segs p = clean_segs (path_is_abs p) [] (split_on slash p)"

definition path_of :: "bool \<Rightarrow> string list \<Rightarrow> string" where
  "path_of rooted ss =
     (if rooted then [slash] @ join_with [slash] ss
      else if ss = [] then ''.'' else join_with [slash] ss)"

definition path_clean :: "string \<Rightarrow> string" where
  "path_clean p = path_of (path_is_abs p) (path_segs p)"

definition path_join :: "string list \<Rightarrow> string" where
  "path_join es =
     (let es = filter (\<lambda>e. e \<noteq> []) es in
      if es = [] then [] else path_clean (join_with [slash] es))"

text \<open>Everything up to and including the last separator, cleaned.\<close>

definition path_dir :: "string \<Rightarrow> string" where
  "path_dir p = path_clean (rev (dropWhile (\<lambda>c. c \<noteq> slash) (rev p)))"

text \<open>\<open>Abs\<close> joins a relative path with the working directory.\<close>

definition path_abs :: "string \<Rightarrow> string \<Rightarrow> string" where
  "path_abs wd p = (if path_is_abs p then path_clean p else path_join [wd, p])"

text \<open>\<open>Rel\<close> of two cleaned paths, by their segments.\<close>

fun drop_common :: "string list \<Rightarrow> string list \<Rightarrow> string list \<times> string list" where
  "drop_common (b # bs) (t # ts) = (if b = t then drop_common bs ts else (b # bs, t # ts))"
| "drop_common bs ts = (bs, ts)"

definition path_rel :: "string \<Rightarrow> string \<Rightarrow> string option" where
  "path_rel base targ =
     (if path_is_abs base \<noteq> path_is_abs targ then None
      else (let (bs, ts) = drop_common (path_segs base) (path_segs targ) in
            if bs = [] \<and> ts = [] then Some ''.''
            else if bs \<noteq> [] \<and> hd bs = ''..'' then None
            else Some (join_with [slash] (replicate (length bs) ''..'' @ ts))))"

definition path_ext :: "string \<Rightarrow> string" where
  "path_ext p =
     (let r = rev p; e = takeWhile (\<lambda>c. c \<noteq> CHR ''.'' \<and> c \<noteq> slash) r;
          rest = dropWhile (\<lambda>c. c \<noteq> CHR ''.'' \<and> c \<noteq> slash) r
      in if rest \<noteq> [] \<and> hd rest = CHR ''.'' then rev (e @ [CHR ''.'']) else [])"

section \<open>Segments of cleaned paths\<close>

definition proper_seg :: "string \<Rightarrow> bool" where
  "proper_seg s \<longleftrightarrow> s \<noteq> [] \<and> s \<noteq> ''.'' \<and> s \<noteq> ''..'' \<and> slash \<notin> set s"

text \<open>One step of the scan: an ignored segment, a step up, or a segment that is kept.\<close>

lemma clean_segs_skip: "s = [] \<or> s = ''.'' \<Longrightarrow> clean_segs r acc (s # ss) = clean_segs r acc ss"
  by (simp only: clean_segs.simps if_True)

lemma clean_segs_keep:
  "\<not> (s = [] \<or> s = ''.'') \<Longrightarrow> s \<noteq> ''..'' \<Longrightarrow> clean_segs r acc (s # ss) = clean_segs r (s # acc) ss"
  by (simp only: clean_segs.simps if_False)

lemma clean_segs_up:
  "clean_segs r acc (''..'' # ss) =
     (case acc of
        a # as \<Rightarrow> if a = ''..'' then clean_segs r (''..'' # acc) ss else clean_segs r as ss
      | [] \<Rightarrow> if r then clean_segs r [] ss else clean_segs r [''..''] ss)"
  by simp

lemma clean_segs_rooted:
  assumes "\<forall>s \<in> set acc. proper_seg s" "\<forall>s \<in> set ss. slash \<notin> set s"
  shows "\<forall>s \<in> set (clean_segs True acc ss). proper_seg s"
  using assms
proof (induction ss arbitrary: acc)
  case (Cons s ss)
  consider "s = [] \<or> s = ''.''" | "s = ''..''" | "proper_seg s" "\<not> (s = [] \<or> s = ''.'')" "s \<noteq> ''..''"
    using Cons.prems by (auto simp: proper_seg_def)
  then show ?case
  proof cases
    case 1
    show ?thesis unfolding clean_segs_skip [OF 1]
      by (rule Cons.IH) (use Cons.prems in simp_all)
  next
    case 2
    show ?thesis
    proof (cases acc)
      case (Cons a as)
      then have "a \<noteq> ''..''" using Cons.prems by (simp add: proper_seg_def)
      with 2 Cons Cons.IH [of as] Cons.prems show ?thesis by (simp only: clean_segs_up) simp
    next
      case Nil
      with 2 Cons.IH [of "[]"] Cons.prems show ?thesis by (simp only: clean_segs_up) simp
    qed
  next
    case 3
    show ?thesis unfolding clean_segs_keep [OF 3(2,3)]
      by (rule Cons.IH) (use Cons.prems 3(1) in simp_all)
  qed
qed simp

lemma clean_segs_no_slash:
  assumes "\<forall>s \<in> set acc. s \<noteq> [] \<and> slash \<notin> set s" "\<forall>s \<in> set ss. slash \<notin> set s"
  shows "\<forall>s \<in> set (clean_segs r acc ss). s \<noteq> [] \<and> slash \<notin> set s"
  using assms
proof (induction ss arbitrary: acc)
  case (Cons s ss)
  consider "s = [] \<or> s = ''.''" | "s = ''..''" | "\<not> (s = [] \<or> s = ''.'')" "s \<noteq> ''..''"
    by blast
  then show ?case
  proof cases
    case 1
    show ?thesis unfolding clean_segs_skip [OF 1]
      by (rule Cons.IH) (use Cons.prems in simp_all)
  next
    case 2
    have up: "\<forall>s \<in> set (clean_segs r (''..'' # acc) ss). s \<noteq> [] \<and> slash \<notin> set s"
      by (rule Cons.IH) (use Cons.prems in simp_all)
    have "\<forall>s \<in> set (tl acc). s \<noteq> [] \<and> slash \<notin> set s"
      using Cons.prems(1) by (cases acc) simp_all
    then have down: "\<forall>s \<in> set (clean_segs r (tl acc) ss). s \<noteq> [] \<and> slash \<notin> set s"
      by (rule Cons.IH) (use Cons.prems in simp)
    show ?thesis
      unfolding 2 clean_segs_up using up down by (simp split: list.split)
  next
    case 3
    show ?thesis unfolding clean_segs_keep [OF 3]
      by (rule Cons.IH) (use Cons.prems 3(1) in simp_all)
  qed
qed simp

lemma clean_segs_proper:
  "list_all proper_seg ss \<Longrightarrow> clean_segs r acc ss = rev acc @ ss"
proof (induction ss arbitrary: acc)
  case (Cons s ss)
  then have "\<not> (s = [] \<or> s = ''.'')" "s \<noteq> ''..''" by (auto simp: proper_seg_def)
  then have "clean_segs r acc (s # ss) = clean_segs r (s # acc) ss" by (rule clean_segs_keep)
  with Cons show ?case by simp
qed simp

lemma path_segs_proper: "path_is_abs p \<Longrightarrow> list_all proper_seg (path_segs p)"
  using clean_segs_rooted [of "[]" "split_on slash p"] split_on_no_sep [of _ slash p]
  by (auto simp: path_segs_def list_all_iff)

lemma split_abs: "list_all proper_seg ss \<Longrightarrow>
   split_on slash ([slash] @ join_with [slash] ss) = [] # (if ss = [] then [[]] else ss)"
  using split_join [of ss slash] by (auto simp: list_all_iff proper_seg_def)

lemma path_segs_of: "list_all proper_seg ss \<Longrightarrow> path_segs (path_of True ss) = ss"
proof -
  assume ss: "list_all proper_seg ss"
  have "path_is_abs (path_of True ss)" by (simp add: path_is_abs_def path_of_def)
  with ss show ?thesis
    using split_abs [OF ss] clean_segs_proper [OF ss, of True "[]"]
    by (auto simp: path_segs_def path_of_def)
qed

lemma path_is_abs_clean [simp]: "path_is_abs (path_clean p) = path_is_abs p"
proof (cases "path_is_abs p")
  case True
  then show ?thesis by (simp add: path_clean_def path_of_def path_is_abs_def)
next
  case False
  have segs: "\<forall>s \<in> set (path_segs p). s \<noteq> [] \<and> slash \<notin> set s"
    unfolding path_segs_def by (rule clean_segs_no_slash) (auto dest: split_on_no_sep)
  show ?thesis
  proof (cases "path_segs p")
    case (Cons s ss)
    with segs obtain c cs where "s = c # cs" "c \<noteq> slash" by (cases s) auto
    with False Cons show ?thesis
      by (cases ss) (auto simp: path_clean_def path_of_def path_is_abs_def)
  qed (use False in \<open>simp add: path_clean_def path_of_def path_is_abs_def\<close>)
qed

lemma path_segs_clean: "path_is_abs p \<Longrightarrow> path_segs (path_clean p) = path_segs p"
  by (simp add: path_clean_def path_segs_of path_segs_proper)

lemma path_clean_idem: "path_is_abs p \<Longrightarrow> path_clean (path_clean p) = path_clean p"
  by (simp add: path_clean_def [of "path_clean p"] path_segs_clean) (simp add: path_clean_def)

lemma drop_common_prefix: "fst (drop_common bs ts) = [] \<longleftrightarrow> prefix bs ts"
  by (induction bs ts rule: drop_common.induct) auto

lemma drop_common_snd: "set (snd (drop_common bs ts)) \<subseteq> set ts"
  by (induction bs ts rule: drop_common.induct) auto

lemma drop_common_fst: "set (fst (drop_common bs ts)) \<subseteq> set bs"
  by (induction bs ts rule: drop_common.induct) auto

text \<open>A relative path starts by going up exactly when the base has segments left over.\<close>

definition goes_up :: "string \<Rightarrow> bool" where
  "goes_up r \<longleftrightarrow> r = ''..'' \<or> has_prefix r (''..'' @ [slash])"

lemma goes_up_join:
  assumes "list_all proper_seg ts" "bs \<noteq> [] \<or> ts \<noteq> []"
  shows "goes_up (join_with [slash] (replicate (length (bs :: string list)) ''..'' @ ts)) \<longleftrightarrow> bs \<noteq> []"
proof (cases bs)
  case Nil
  with assms obtain t ts' where ts: "ts = t # ts'" by (cases ts) auto
  then have t: "t \<noteq> ''..''" "slash \<notin> set t" using assms(1) by (auto simp: proper_seg_def)
  have "\<not> goes_up t" if "slash \<notin> set t" "t \<noteq> ''..''" for t
    using that by (auto simp: goes_up_def has_prefix_iff prefix_def)
  moreover have "\<not> goes_up (t @ slash # r)" for r
    using t by (auto simp: goes_up_def has_prefix_iff append_eq_append_conv2 prefix_def
        append_eq_Cons_conv Cons_eq_append_conv)
  ultimately show ?thesis
    using Nil ts t by (cases ts') auto
next
  case (Cons b bs')
  have "goes_up (''..'' @ slash # r)" for r by (simp add: goes_up_def)
  moreover have "goes_up ''..''" by (simp add: goes_up_def)
  ultimately show ?thesis
    using Cons by (cases "replicate (length bs') ''..'' @ ts") auto
qed

lemma path_rel_abs:
  assumes "path_is_abs base" "path_is_abs targ"
  shows "\<exists>r. path_rel base targ = Some r \<and> (goes_up r \<longleftrightarrow> \<not> prefix (path_segs base) (path_segs targ))"
proof -
  obtain bs ts where d: "drop_common (path_segs base) (path_segs targ) = (bs, ts)"
    by (cases "drop_common (path_segs base) (path_segs targ)")
  have proper: "list_all proper_seg bs" "list_all proper_seg ts"
    using path_segs_proper [OF assms(1)] path_segs_proper [OF assms(2)] d
      drop_common_fst [of "path_segs base" "path_segs targ"]
      drop_common_snd [of "path_segs base" "path_segs targ"]
    by (auto simp: list_all_iff)
  have hd: "bs \<noteq> [] \<Longrightarrow> hd bs \<noteq> ''..''"
    using proper(1) by (cases bs) (auto simp: proper_seg_def)
  have "prefix (path_segs base) (path_segs targ) \<longleftrightarrow> bs = []"
    using drop_common_prefix [of "path_segs base" "path_segs targ"] d by simp
  with goes_up_join [OF proper(2), of bs] hd assms d show ?thesis
    by (auto simp: path_rel_def goes_up_def)
qed

lemma clean_segs_append:
  "list_all proper_seg ts \<Longrightarrow> clean_segs r acc (ss @ ts) = clean_segs r acc ss @ ts"
proof (induction ss arbitrary: acc)
  case Nil
  then show ?case by (simp add: clean_segs_proper)
next
  case (Cons s ss)
  note IH = Cons.IH [OF Cons.prems]
  consider "s = [] \<or> s = ''.''" | "s = ''..''" | "\<not> (s = [] \<or> s = ''.'')" "s \<noteq> ''..''"
    by blast
  then show ?case
  proof cases
    case 1
    show ?thesis unfolding append_Cons clean_segs_skip [OF 1] by (rule IH)
  next
    case 2
    show ?thesis unfolding append_Cons 2 clean_segs_up using IH by (cases r) (simp_all split: list.split)
  next
    case 3
    show ?thesis unfolding append_Cons clean_segs_keep [OF 3] by (rule IH)
  qed
qed

lemma split_on_append_sep: "split_on c (p @ c # q) = split_on c p @ split_on c q"
  by (induction p) (auto split: list.splits)

lemma split_on_join_append:
  "ts \<noteq> [] \<Longrightarrow> (\<And>t. t \<in> set ts \<Longrightarrow> c \<notin> set t) \<Longrightarrow>
   split_on c (join_with [c] (p # ts)) = split_on c p @ ts"
  by (simp add: join_with_Cons split_on_append_sep split_join)

end
