(* ===== verification/OsModel.thy ===== *)
theory OsModel
  imports SdkErrors Filepath
begin

text \<open>
  The operating-system state the SDK reads and writes through \<open>os\<close>: regular files, the
  environment, the home and working directories. Every operation may fail; \<open>os_fail\<close> is the
  failure the system reports for it (\<open>None\<close>: it succeeds), and a failed write may leave the
  partial contents \<open>os_partial\<close> behind. Directories are not tracked.
\<close>

datatype os_op = OpRead | OpWrite | OpMkdir | OpRename | OpRemove | OpStat

record os =
  os_files :: "string \<Rightarrow> string option"
  os_fail :: "os_op \<Rightarrow> string \<Rightarrow> goerr option"
  os_partial :: "string \<Rightarrow> string \<Rightarrow> string option"
  os_env :: "string \<Rightarrow> string option"
  os_home :: "string option"
  os_wd :: string

definition not_exist_err :: "string \<Rightarrow> string \<Rightarrow> goerr" where
  "not_exist_err opn p = EWrap (opn @ '' '' @ p @ '': no such file or directory'') [ESent OsErrNotExist]"

definition os_read :: "string \<Rightarrow> os \<Rightarrow> goerr + string" where
  "os_read p s = (case os_fail s OpRead p of
     Some e \<Rightarrow> Inl e
   | None \<Rightarrow> (case os_files s p of None \<Rightarrow> Inl (not_exist_err ''open'' p) | Some d \<Rightarrow> Inr d))"

definition os_mkdir_all :: "string \<Rightarrow> os \<Rightarrow> goerr option" where
  "os_mkdir_all p s = os_fail s OpMkdir p"

definition os_write :: "string \<Rightarrow> string \<Rightarrow> os \<Rightarrow> goerr option \<times> os" where
  "os_write p d s = (case os_fail s OpWrite p of
     Some e \<Rightarrow> (Some e, (case os_partial s p d of
                           None \<Rightarrow> s | Some d' \<Rightarrow> s\<lparr>os_files := (os_files s)(p \<mapsto> d')\<rparr>))
   | None \<Rightarrow> (None, s\<lparr>os_files := (os_files s)(p \<mapsto> d)\<rparr>))"

definition os_rename :: "string \<Rightarrow> string \<Rightarrow> os \<Rightarrow> goerr option \<times> os" where
  "os_rename src dst s = (case os_fail s OpRename src of
     Some e \<Rightarrow> (Some e, s)
   | None \<Rightarrow> (case os_files s src of
       None \<Rightarrow> (Some (not_exist_err ''rename'' src), s)
     | Some d \<Rightarrow> (None, s\<lparr>os_files := (os_files s)(src := None, dst := Some d)\<rparr>)))"

definition os_remove :: "string \<Rightarrow> os \<Rightarrow> goerr option \<times> os" where
  "os_remove p s = (case os_fail s OpRemove p of
     Some e \<Rightarrow> (Some e, s)
   | None \<Rightarrow> (case os_files s p of
       None \<Rightarrow> (Some (not_exist_err ''remove'' p), s)
     | Some _ \<Rightarrow> (None, s\<lparr>os_files := (os_files s)(p := None)\<rparr>)))"

definition os_getenv :: "string \<Rightarrow> os \<Rightarrow> string" where
  "os_getenv k s = str_or (os_env s k)"

lemma os_write_frame: "q \<noteq> p \<Longrightarrow> os_files (snd (os_write p d s)) q = os_files s q"
  by (simp add: os_write_def split: option.splits)

lemma os_write_ok: "os_write p d s = (None, s') \<Longrightarrow> os_files s' = (os_files s)(p \<mapsto> d)"
  by (auto simp: os_write_def split: option.splits)

lemma os_rename_ok:
  "os_rename src dst s = (None, s') \<Longrightarrow>
   \<exists>d. os_files s src = Some d \<and> os_files s' = (os_files s)(src := None, dst := Some d)"
  by (auto simp: os_rename_def split: option.splits)

lemma os_rename_err: "os_rename src dst s = (Some e, s') \<Longrightarrow> s' = s"
  by (auto simp: os_rename_def split: option.splits)

lemma os_write_params: "os_write p d s = (r, s') \<Longrightarrow>
   os_fail s' = os_fail s \<and> os_env s' = os_env s \<and> os_home s' = os_home s"
  by (auto simp: os_write_def split: option.splits)

lemma os_rename_params: "os_rename p q s = (r, s') \<Longrightarrow>
   os_fail s' = os_fail s \<and> os_env s' = os_env s \<and> os_home s' = os_home s"
  by (auto simp: os_rename_def split: option.splits)

end
