(* ===== verification/Permissions.thy ===== *)
theory Permissions
  imports Hooks Observability OsModel
begin

text \<open>
  Permission requests (\<open>permissions.go\<close>, \<open>tool_filters.go\<close>, the permission part of
  \<open>client_impl.go\<close> and of \<open>internal/handlers/dispatcher.go\<close>): from the request the agent sends to
  the option the SDK selects. A handler's state \<open>henv\<close> is what the client's callbacks share: the
  hook state with the caller's world, the measurements, and the operating system.
\<close>

record 'w henv =
  he_hooks :: "'w hstate"
  he_obs :: obs
  he_spans :: "span list"
  he_os :: os

definition he_world :: "'w henv \<Rightarrow> 'w" where
  "he_world e = hs_world (he_hooks e)"

definition on_world :: "('w \<Rightarrow> 'r \<times> 'w) \<Rightarrow> 'w henv \<Rightarrow> 'r \<times> 'w henv" where
  "on_world f e = (case f (he_world e) of
     (r, w) \<Rightarrow> (r, e\<lparr>he_hooks := (he_hooks e)\<lparr>hs_world := w\<rparr>\<rparr>))"

definition on_obs :: "(obs \<Rightarrow> obs) \<Rightarrow> 'w henv \<Rightarrow> 'w henv" where
  "on_obs f e = e\<lparr>he_obs := f (he_obs e)\<rparr>"

definition on_spans :: "(span list \<Rightarrow> 'r \<times> span list) \<Rightarrow> 'w henv \<Rightarrow> 'r \<times> 'w henv" where
  "on_spans f e = (case f (he_spans e) of (r, sp) \<Rightarrow> (r, e\<lparr>he_spans := sp\<rparr>))"

definition finish_span :: "nat \<Rightarrow> 'w henv \<Rightarrow> 'w henv" where
  "finish_span i e = e\<lparr>he_spans := end_span i (he_spans e)\<rparr>"

definition run_hook :: "'w hookDispatcher \<Rightarrow> HookEvent \<Rightarrow> string \<Rightarrow> HookInput \<Rightarrow> 'w henv \<Rightarrow>
    (HookOutput \<times> goerr option) \<times> 'w henv" where
  "run_hook d ev p inp e = (case dispatch d ev p inp (he_hooks e) of
     (r, h) \<Rightarrow> (r, e\<lparr>he_hooks := h\<rparr>))"

section \<open>Ready-made callbacks\<close>

type_synonym 'w PermissionCallback =
  "PermissionRequest \<Rightarrow> 'w \<Rightarrow> (PermissionResponse \<times> goerr option) \<times> 'w"

definition first_of_kind :: "PermissionOptionKind \<Rightarrow> PermissionRequest \<Rightarrow> PermissionOption option" where
  "first_of_kind k req = List.find (\<lambda>opt. po_Kind opt = k) (pr_Options req)"

definition pickByKind :: "PermissionRequest \<Rightarrow> PermissionOptionKind \<Rightarrow>
    PermissionResponse \<times> goerr option" where
  "pickByKind req kind =
     (case first_of_kind kind req of
        Some opt \<Rightarrow> (selected (po_OptionId opt), None)
      | None \<Rightarrow>
          if pr_Options req = []
          then (no_response, Some (ENew ''opencodesdk: no permission options on offer''))
          else (no_response, Some (ESent ErrNoOptionOfKind)))"

definition AllowOnce :: "PermissionRequest \<Rightarrow> PermissionResponse \<times> goerr option" where
  "AllowOnce req = pickByKind req PermissionOptionKindAllowOnce"

definition AllowAlways :: "PermissionRequest \<Rightarrow> PermissionResponse \<times> goerr option" where
  "AllowAlways req =
     (case pickByKind req PermissionOptionKindAllowAlways of
        (resp, None) \<Rightarrow> (resp, None)
      | _ \<Rightarrow> pickByKind req PermissionOptionKindAllowOnce)"

definition RejectOnce :: "PermissionRequest \<Rightarrow> PermissionResponse \<times> goerr option" where
  "RejectOnce req =
     (case pickByKind req PermissionOptionKindRejectOnce of
        (resp, None) \<Rightarrow> (resp, None)
      | _ \<Rightarrow> pickByKind req PermissionOptionKindRejectAlways)"

section \<open>Allow and deny lists\<close>

definition WithAllowedTools :: "string list \<Rightarrow> string list \<Rightarrow> string list" where
  "WithAllowedTools names cur = cur @ names"

definition composeCanUseTool :: "string list \<Rightarrow> string list \<Rightarrow> 'w PermissionCallback option \<Rightarrow>
    'w PermissionCallback option" where
  "composeCanUseTool allow deny user =
     (if allow = [] \<and> deny = [] then user
      else Some (\<lambda>req w.
        (let name = str_or (pr_Title req)
         in if name \<in> set deny then (RejectOnce req, w)
            else if name \<in> set allow then (AllowOnce req, w)
            else case user of
                   Some u \<Rightarrow> u req w
                 | None \<Rightarrow> (RejectOnce req, w))))"

section \<open>The instrumented callback\<close>

definition synthReject :: "PermissionRequest \<Rightarrow> PermissionResponse" where
  "synthReject req =
     (case first_of_kind PermissionOptionKindRejectOnce req of
        Some opt \<Rightarrow> selected (po_OptionId opt)
      | None \<Rightarrow>
         (case first_of_kind PermissionOptionKindRejectAlways req of
            Some opt \<Rightarrow> selected (po_OptionId opt)
          | None \<Rightarrow> cancelled_response))"

definition isRejectOutcome :: "PermissionResponse \<Rightarrow> bool" where
  "isRejectOutcome resp =
     (if pp_Cancelled resp then True
      else case pp_Selected resp of
             Some i \<Rightarrow> containsAny i [''reject'', ''deny'']
           | None \<Rightarrow> False)"

definition fireHookPermissionDenied :: "'w hookDispatcher \<Rightarrow> PermissionRequest \<Rightarrow>
    PermissionResponse \<Rightarrow> 'w henv \<Rightarrow> 'w henv" where
  "fireHookPermissionDenied d req resp e =
     (if d = None then e
      else snd (run_hook d HookEventPermissionDenied (str_or (pr_Title req))
        ((hook_input HookEventPermissionDenied (pr_SessionId req))
          \<lparr>hi_PermissionRequest := Some req, hi_PermissionResponse := Some resp\<rparr>) e))"

definition permission_outcome :: "PermissionResponse \<times> goerr option \<Rightarrow> string" where
  "permission_outcome r =
     (case r of
        (_, Some _) \<Rightarrow> ''error''
      | (resp, None) \<Rightarrow>
          if pp_Cancelled resp then ''cancelled''
          else case pp_Selected resp of
                 Some i \<Rightarrow> ''selected:'' @ i
               | None \<Rightarrow> ''error'')"

type_synonym 'w permission_handler =
  "PermissionRequest \<Rightarrow> 'w henv \<Rightarrow> (PermissionResponse \<times> goerr option) \<times> 'w henv"

definition permission_gate :: "'w hookDispatcher \<Rightarrow> PermissionRequest \<Rightarrow> 'w henv \<Rightarrow>
    (HookOutput \<times> goerr option) \<times> 'w henv" where
  "permission_gate d req e =
     run_hook d HookEventPermissionRequest (str_or (pr_Title req))
       ((hook_input HookEventPermissionRequest (pr_SessionId req))\<lparr>hi_PermissionRequest := Some req\<rparr>) e"

definition permission_decide :: "'w hookDispatcher \<Rightarrow> 'w PermissionCallback option \<Rightarrow>
    'w permission_handler" where
  "permission_decide d cb req e =
     (let (r, e1) = (case cb of
            Some f \<Rightarrow> on_world (f req) e
          | None \<Rightarrow> ((synthReject req, None), e));
          e2 = on_obs (RecordPermission (permission_outcome r)) e1;
          e3 = (if snd r = None \<and> isRejectOutcome (fst r)
                then fireHookPermissionDenied d req (fst r) e2 else e2)
      in (r, e3))"

definition instrumentedPermission :: "'w hookDispatcher \<Rightarrow> 'w PermissionCallback option \<Rightarrow>
    'w permission_handler option" where
  "instrumentedPermission d cb =
     (if cb = None \<and> d = None then None
      else Some (\<lambda>req e.
        case permission_gate d req e of
          ((decision, hookErr), e1) \<Rightarrow>
            if d \<noteq> None \<and> (hookErr \<noteq> None \<or> \<not> ho_Continue decision)
            then let resp = synthReject req;
                     e2 = on_obs (RecordPermission ''hook_blocked'') e1
                 in ((resp, hookErr), fireHookPermissionDenied d req resp e2)
            else permission_decide d cb req e1))"

text \<open>\<open>Dispatcher.RequestPermission\<close>: the callback, or the default that rejects.\<close>

definition default_reject :: "PermissionRequest \<Rightarrow> PermissionResponse" where
  "default_reject req =
     (case List.find (\<lambda>opt. po_Kind opt = PermissionOptionKindRejectOnce \<or>
             po_Kind opt = PermissionOptionKindRejectAlways) (pr_Options req) of
        Some opt \<Rightarrow> selected (po_OptionId opt)
      | None \<Rightarrow> selected ''reject'')"

definition RequestPermission :: "'w permission_handler option \<Rightarrow> 'w permission_handler" where
  "RequestPermission cb req e =
     (case cb of Some f \<Rightarrow> f req e | None \<Rightarrow> ((default_reject req, None), e))"

text \<open>The handler \<open>Start\<close> installs, for the client's options.\<close>

definition permission_path :: "'w hookDispatcher \<Rightarrow> string list \<Rightarrow> string list \<Rightarrow>
    'w PermissionCallback option \<Rightarrow> 'w permission_handler" where
  "permission_path d allow deny user =
     RequestPermission (instrumentedPermission d (composeCanUseTool allow deny user))"

section \<open>Frame lemmas\<close>

lemma run_hook_snd [simp]:
  "he_obs (snd (run_hook d ev p inp e)) = he_obs e" "he_os (snd (run_hook d ev p inp e)) = he_os e"
  by (simp_all add: run_hook_def split: prod.splits)

lemma on_world_snd [simp]:
  "he_obs (snd (on_world f e)) = he_obs e" "he_os (snd (on_world f e)) = he_os e"
  by (simp_all add: on_world_def split: prod.splits)

lemma run_hook_frame: "run_hook d ev p inp e = (r, e') \<Longrightarrow> he_obs e' = he_obs e \<and> he_os e' = he_os e"
  by (metis run_hook_snd snd_conv)

lemma on_world_frame: "on_world f e = (r, e') \<Longrightarrow> he_obs e' = he_obs e \<and> he_os e' = he_os e"
  by (metis on_world_snd snd_conv)

lemma on_spans_snd [simp]:
  "he_obs (snd (on_spans f e)) = he_obs e" "he_os (snd (on_spans f e)) = he_os e"
  "he_hooks (snd (on_spans f e)) = he_hooks e"
  by (simp_all add: on_spans_def split: prod.splits)

lemma on_spans_frame:
  "on_spans f e = (r, e') \<Longrightarrow> he_obs e' = he_obs e \<and> he_os e' = he_os e \<and> he_hooks e' = he_hooks e"
  by (metis on_spans_snd snd_conv)

lemma finish_span_sel [simp]:
  "he_obs (finish_span i e) = he_obs e" "he_os (finish_span i e) = he_os e" "he_hooks (finish_span i e) = he_hooks e"
  by (simp_all add: finish_span_def)

lemma on_obs_sel [simp]:
  "he_obs (on_obs f e) = f (he_obs e)" "he_os (on_obs f e) = he_os e"
  "he_hooks (on_obs f e) = he_hooks e" "he_spans (on_obs f e) = he_spans e"
  by (simp_all add: on_obs_def)

lemma fireHookPermissionDenied_frame [simp]:
  "he_obs (fireHookPermissionDenied d req resp e) = he_obs e"
  "he_os (fireHookPermissionDenied d req resp e) = he_os e"
  by (simp_all add: fireHookPermissionDenied_def)

lemma permission_gate_frame:
  "permission_gate d req e = (r, e') \<Longrightarrow> he_obs e' = he_obs e \<and> he_os e' = he_os e"
  by (auto simp: permission_gate_def dest: run_hook_frame)

lemma permission_gate_blocked:
  "permission_gate d req e = ((out, r), e') \<Longrightarrow>
     (d \<noteq> None \<and> (r \<noteq> None \<or> \<not> ho_Continue out)) \<longleftrightarrow> \<not> ho_Continue out"
  by (cases d) (auto simp: permission_gate_def run_hook_def split: prod.splits
      dest: hd.blocked_iff)

section \<open>Rejection never approves\<close>

definition allow_kind :: "PermissionOptionKind \<Rightarrow> bool" where
  "allow_kind k \<longleftrightarrow> k = PermissionOptionKindAllowOnce \<or> k = PermissionOptionKindAllowAlways"

definition approves :: "PermissionRequest \<Rightarrow> PermissionResponse \<Rightarrow> bool" where
  "approves req resp \<longleftrightarrow>
     (\<exists>opt \<in> set (pr_Options req). allow_kind (po_Kind opt) \<and> pp_Selected resp = Some (po_OptionId opt))"

text \<open>
  A request is well formed when its option ids are distinct, and no allowing option is called
  ``reject'', the id the dispatcher falls back to.
\<close>

definition request_ok :: "PermissionRequest \<Rightarrow> bool" where
  "request_ok req \<longleftrightarrow> distinct (map po_OptionId (pr_Options req)) \<and>
     (\<forall>opt \<in> set (pr_Options req). allow_kind (po_Kind opt) \<longrightarrow> po_OptionId opt \<noteq> ''reject'')"

lemma select_rejecting:
  assumes "request_ok req" "opt \<in> set (pr_Options req)" "\<not> allow_kind (po_Kind opt)"
  shows "\<not> approves req (selected (po_OptionId opt))"
proof
  assume "approves req (selected (po_OptionId opt))"
  then obtain opt' where o: "opt' \<in> set (pr_Options req)" "allow_kind (po_Kind opt')"
      "po_OptionId opt' = po_OptionId opt"
    by (auto simp: approves_def)
  then have "opt' = opt"
    using assms inj_onD [of po_OptionId "set (pr_Options req)" opt' opt]
    by (simp add: request_ok_def distinct_map)
  with o assms show False by simp
qed

lemma first_of_kind_Some:
  "first_of_kind k req = Some opt \<Longrightarrow> opt \<in> set (pr_Options req) \<and> po_Kind opt = k"
  by (auto simp: first_of_kind_def find_Some_iff)

lemma find_first: "\<forall>y \<in> set pre. \<not> P y \<Longrightarrow> P x \<Longrightarrow> List.find P (pre @ x # post) = Some x"
  by (induction pre) auto

lemma first_of_kind_None:
  "first_of_kind k req = None \<longleftrightarrow> (\<forall>opt \<in> set (pr_Options req). po_Kind opt \<noteq> k)"
  by (auto simp: first_of_kind_def find_None_iff)

lemma not_approves_trivial [simp]:
  "\<not> approves req no_response" "\<not> approves req cancelled_response"
  by (simp_all add: approves_def)

lemma pickByKind_rejecting:
  "request_ok req \<Longrightarrow> \<not> allow_kind k \<Longrightarrow> \<not> approves req (fst (pickByKind req k))"
  by (auto simp: pickByKind_def select_rejecting dest!: first_of_kind_Some split: option.splits)

lemma synthReject_rejecting: "request_ok req \<Longrightarrow> \<not> approves req (synthReject req)"
  by (auto simp: synthReject_def select_rejecting allow_kind_def split: option.splits
      dest!: first_of_kind_Some)

lemma RejectOnce_rejecting: "request_ok req \<Longrightarrow> \<not> approves req (fst (RejectOnce req))"
  using pickByKind_rejecting [of req PermissionOptionKindRejectOnce]
    pickByKind_rejecting [of req PermissionOptionKindRejectAlways]
  by (auto simp: RejectOnce_def allow_kind_def split: prod.splits option.splits)

lemma default_reject_rejecting:
  assumes "request_ok req"
  shows "\<not> approves req (default_reject req)"
proof (cases "List.find (\<lambda>opt. po_Kind opt = PermissionOptionKindRejectOnce \<or>
             po_Kind opt = PermissionOptionKindRejectAlways) (pr_Options req)")
  case None
  with assms show ?thesis by (auto simp: default_reject_def approves_def request_ok_def)
next
  case (Some opt)
  then have "opt \<in> set (pr_Options req)" "\<not> allow_kind (po_Kind opt)"
    by (auto simp: find_Some_iff allow_kind_def)
  with Some assms show ?thesis by (simp add: default_reject_def select_rejecting)
qed

lemmas rejecting = synthReject_rejecting RejectOnce_rejecting default_reject_rejecting

section \<open>Who can approve\<close>

lemma composeCanUseTool_approves:
  assumes "composeCanUseTool allow deny user = Some f" "request_ok req"
    and "f req w = ((resp, r), w')" "approves req resp"
  shows "(str_or (pr_Title req) \<notin> set deny \<and> str_or (pr_Title req) \<in> set allow) \<or>
    (str_or (pr_Title req) \<notin> set deny \<and> (\<exists>u. user = Some u \<and> u req w = ((resp, r), w')))"
proof (cases "allow = [] \<and> deny = []")
  case True
  with assms show ?thesis by (auto simp: composeCanUseTool_def)
next
  case False
  with assms rejecting [OF assms(2)] show ?thesis
    by (auto simp: composeCanUseTool_def Let_def split: if_splits option.splits)
qed

lemma permission_decide_result:
  "permission_decide d cb req e = (r, e') \<Longrightarrow>
     r = (case cb of Some f \<Rightarrow> fst (f req (he_world e)) | None \<Rightarrow> (synthReject req, None))"
  by (auto simp: permission_decide_def on_world_def Let_def split: option.splits prod.splits)

lemma permission_path_default:
  "composeCanUseTool allow deny user = None \<Longrightarrow> d = None \<Longrightarrow>
     permission_path d allow deny user req e = ((default_reject req, None), e)"
  by (simp add: permission_path_def RequestPermission_def instrumentedPermission_def)

lemma permission_path_unfold:
  assumes "\<not> (composeCanUseTool allow deny user = None \<and> d = None)"
    and g: "permission_gate d req e = ((out, hr), e1)"
  shows "permission_path d allow deny user req e =
    (if ho_Continue out
     then permission_decide d (composeCanUseTool allow deny user) req e1
     else ((synthReject req, hr), fireHookPermissionDenied d req (synthReject req)
             (on_obs (RecordPermission ''hook_blocked'') e1)))"
proof -
  have "permission_path d allow deny user req e =
    (if d \<noteq> None \<and> (hr \<noteq> None \<or> \<not> ho_Continue out)
     then ((synthReject req, hr), fireHookPermissionDenied d req (synthReject req)
             (on_obs (RecordPermission ''hook_blocked'') e1))
     else permission_decide d (composeCanUseTool allow deny user) req e1)"
    using assms(1)
    by (simp only: permission_path_def RequestPermission_def instrumentedPermission_def g Let_def
        if_False option.case prod.case)
  then show ?thesis unfolding permission_gate_blocked [OF g] by simp
qed

text \<open>
  C4: The permission path fails closed. When the answer the agent gets selects an allowing option
  (of a well formed request), the tool is not on the deny list, every hook of the
  permission_request event let the request through, and either the tool is on the allow list or
  the caller's own callback gave this very answer, in the world the hooks left it in. Without a
  callback, a hook or a list nothing is ever approved.
\<close>

theorem approval_is_authorised:
  assumes ok: "request_ok req"
    and path: "permission_path d allow deny user req e = ((resp, r), e')"
    and appr: "approves req resp"
  shows "str_or (pr_Title req) \<notin> set deny \<and>
    ho_Continue (fst (fst (permission_gate d req e))) \<and>
    (str_or (pr_Title req) \<in> set allow \<or>
     (\<exists>u. user = Some u \<and>
        fst (u req (he_world (snd (permission_gate d req e)))) = (resp, r)))"
proof -
  obtain out hr e1 where g: "permission_gate d req e = ((out, hr), e1)" by (metis prod.exhaust)
  note not_appr = rejecting [OF ok]
  have "\<not> (composeCanUseTool allow deny user = None \<and> d = None)"
  proof
    assume "composeCanUseTool allow deny user = None \<and> d = None"
    with path have "resp = default_reject req" by (auto simp: permission_path_default)
    with appr not_appr show False by simp
  qed
  with path have h: "(if ho_Continue out
      then permission_decide d (composeCanUseTool allow deny user) req e1
      else ((synthReject req, hr), fireHookPermissionDenied d req (synthReject req)
              (on_obs (RecordPermission ''hook_blocked'') e1))) = ((resp, r), e')"
    by (simp add: permission_path_unfold [OF _ g])
  then have c: "ho_Continue out" using appr not_appr by (auto split: if_splits)
  with h have dec: "permission_decide d (composeCanUseTool allow deny user) req e1 = ((resp, r), e')"
    by simp
  obtain f where f: "composeCanUseTool allow deny user = Some f"
    using permission_decide_result [OF dec] appr not_appr
    by (cases "composeCanUseTool allow deny user") auto
  obtain w' where "f req (he_world e1) = ((resp, r), w')"
    using permission_decide_result [OF dec] by (cases "f req (he_world e1)") (auto simp: f)
  from composeCanUseTool_approves [OF f ok this appr] c g show ?thesis by auto
qed

definition demo_request :: PermissionRequest where
  "demo_request = \<lparr>pr_SessionId = ''s1'', pr_ToolCallId = ''c1'', pr_Title = Some ''bash'',
     pr_Options = [\<lparr>po_OptionId = ''once'', po_Kind = PermissionOptionKindAllowOnce\<rparr>,
                   \<lparr>po_OptionId = ''no'', po_Kind = PermissionOptionKindRejectOnce\<rparr>]\<rparr>"

definition demo_env :: "nat henv" where
  "demo_env = \<lparr>he_hooks = \<lparr>hs_fired = {}, hs_world = 0\<rparr>, he_obs = [], he_spans = [],
     he_os = \<lparr>os_files = (\<lambda>_. None), os_fail = (\<lambda>_ _. None), os_partial = (\<lambda>_ _. None),
       os_env = (\<lambda>_. None), os_home = None, os_wd = ''/''\<rparr>\<rparr>"

theorem approval_is_authorised_witness:
  "str_or (pr_Title demo_request) \<notin> set [''rm'']"
proof -
  have ok: "request_ok demo_request" by code_simp
  have g: "permission_gate None demo_request demo_env = ((HookAllow, None), demo_env)"
    by (simp add: permission_gate_def run_hook_def)
  have c: "composeCanUseTool [''bash''] [''rm''] None = Some (\<lambda>req w.
      if str_or (pr_Title req) \<noteq> ''rm'' \<and> str_or (pr_Title req) = ''bash''
      then (AllowOnce req, w) else (RejectOnce req, w))"
    by (simp add: composeCanUseTool_def fun_eq_iff Let_def)
  have t: "str_or (pr_Title demo_request) = ''bash''" by (simp add: demo_request_def str_or_def)
  have r: "AllowOnce demo_request = (selected ''once'', None)"
    by (simp add: demo_request_def AllowOnce_def pickByKind_def first_of_kind_def)
  have w: "on_world (\<lambda>w. ((selected ''once'', None), w)) demo_env = ((selected ''once'', None), demo_env)"
    by (simp add: on_world_def demo_env_def he_world_def)
  have p: "permission_path None [''bash''] [''rm''] None demo_request demo_env =
      ((selected ''once'', None), on_obs (RecordPermission ''selected:once'') demo_env)"
    by (simp add: permission_path_unfold [OF _ g] c permission_decide_def r t w permission_outcome_def
        isRejectOutcome_def)
  have a: "approves demo_request (selected ''once'')"
    by (simp add: approves_def demo_request_def allow_kind_def)
  from approval_is_authorised [OF ok p a] show ?thesis by simp
qed

section \<open>Answering and measuring\<close>

text \<open>
  A blocked request is still answered, with the option the agent offered for a rejection:
  the first reject_once option, else the first reject_always option, and only when the agent
  offered neither the answer is the cancelled outcome. RejectOnce agrees whenever one is on offer
  and otherwise returns an error instead of an answer.
\<close>

theorem rejection_answer:
  "(if \<exists>opt \<in> set (pr_Options req). po_Kind opt = PermissionOptionKindRejectOnce
    then \<exists>pre opt post. pr_Options req = pre @ opt # post \<and>
      po_Kind opt = PermissionOptionKindRejectOnce \<and>
      (\<forall>o' \<in> set pre. po_Kind o' \<noteq> PermissionOptionKindRejectOnce) \<and>
      synthReject req = selected (po_OptionId opt) \<and> RejectOnce req = (synthReject req, None)
    else if \<exists>opt \<in> set (pr_Options req). po_Kind opt = PermissionOptionKindRejectAlways
    then \<exists>pre opt post. pr_Options req = pre @ opt # post \<and>
      po_Kind opt = PermissionOptionKindRejectAlways \<and>
      (\<forall>o' \<in> set pre. po_Kind o' \<noteq> PermissionOptionKindRejectAlways) \<and>
      synthReject req = selected (po_OptionId opt) \<and> RejectOnce req = (synthReject req, None)
    else synthReject req = cancelled_response \<and> snd (RejectOnce req) \<noteq> None)"
proof -
  have split: "\<exists>pre opt post. pr_Options req = pre @ opt # post \<and> po_Kind opt = k \<and>
      (\<forall>o' \<in> set pre. po_Kind o' \<noteq> k) \<and> first_of_kind k req = Some opt"
    if "\<exists>opt \<in> set (pr_Options req). po_Kind opt = k" for k
  proof -
    from split_list_first_prop [OF that] obtain pre opt post
      where "pr_Options req = pre @ opt # post" "po_Kind opt = k" "\<forall>o' \<in> set pre. po_Kind o' \<noteq> k"
      by blast
    moreover from this have "first_of_kind k req = Some opt"
      by (simp add: first_of_kind_def find_first)
    ultimately show ?thesis by blast
  qed
  note defs = synthReject_def RejectOnce_def pickByKind_def
  consider (once) "\<exists>opt \<in> set (pr_Options req). po_Kind opt = PermissionOptionKindRejectOnce"
    | (always) "\<not> (\<exists>opt \<in> set (pr_Options req). po_Kind opt = PermissionOptionKindRejectOnce)"
        "\<exists>opt \<in> set (pr_Options req). po_Kind opt = PermissionOptionKindRejectAlways"
    | (none) "\<not> (\<exists>opt \<in> set (pr_Options req). po_Kind opt = PermissionOptionKindRejectOnce)"
        "\<not> (\<exists>opt \<in> set (pr_Options req). po_Kind opt = PermissionOptionKindRejectAlways)"
    by blast
  then show ?thesis
  proof cases
    case once
    from split [OF once] obtain pre opt post where "pr_Options req = pre @ opt # post"
      "po_Kind opt = PermissionOptionKindRejectOnce"
      "\<forall>o' \<in> set pre. po_Kind o' \<noteq> PermissionOptionKindRejectOnce"
      and f: "first_of_kind PermissionOptionKindRejectOnce req = Some opt" by blast
    moreover have "synthReject req = selected (po_OptionId opt)" "RejectOnce req = (synthReject req, None)"
      by (simp_all add: defs f)
    ultimately show ?thesis unfolding if_P [OF once] by blast
  next
    case always
    then have n: "first_of_kind PermissionOptionKindRejectOnce req = None"
      by (simp add: first_of_kind_None)
    from split [OF always(2)] obtain pre opt post where "pr_Options req = pre @ opt # post"
      "po_Kind opt = PermissionOptionKindRejectAlways"
      "\<forall>o' \<in> set pre. po_Kind o' \<noteq> PermissionOptionKindRejectAlways"
      and f: "first_of_kind PermissionOptionKindRejectAlways req = Some opt" by blast
    moreover have "synthReject req = selected (po_OptionId opt)" "RejectOnce req = (synthReject req, None)"
      by (simp_all add: defs f n)
    ultimately show ?thesis unfolding if_not_P [OF always(1)] if_P [OF always(2)] by blast
  next
    case none
    then have "first_of_kind PermissionOptionKindRejectOnce req = None"
      "first_of_kind PermissionOptionKindRejectAlways req = None"
      by (simp_all add: first_of_kind_None)
    then show ?thesis unfolding if_not_P [OF none(1)] if_not_P [OF none(2)] by (simp add: defs)
  qed
qed

lemma permission_decide_measured:
  "total permissionReq (he_obs (snd (permission_decide d cb req e))) = total permissionReq (he_obs e) + 1"
  by (auto simp: permission_decide_def Let_def RecordPermission_def split: option.splits prod.splits
      dest: on_world_frame)

text \<open>
  Every permission request that reaches the instrumented callback is measured exactly once,
  whether a hook blocked it, the callback failed or it was answered; the default path of a client
  without callback and hooks records nothing.
\<close>

theorem permission_measured_once:
  "total permissionReq (he_obs (snd (permission_path d allow deny user req e))) =
     total permissionReq (he_obs e) +
       (if composeCanUseTool allow deny user = None \<and> d = None then 0 else 1)"
proof -
  obtain out hr e1 where g: "permission_gate d req e = ((out, hr), e1)" by (metis prod.exhaust)
  note fr = permission_gate_frame [OF g]
  show ?thesis
  proof (cases "composeCanUseTool allow deny user = None \<and> d = None")
    case True
    then show ?thesis by (simp add: permission_path_default)
  next
    case False
    then show ?thesis using fr permission_decide_measured [of d _ req e1]
      unfolding permission_path_unfold [OF False g] if_not_P [OF False] by (simp add: RecordPermission_def)
  qed
qed

section \<open>Two divergences from the documentation\<close>

text \<open>
  AllowOnce and AllowAlways never fall back to ``the first option on offer'', which their
  documentation promises: a request that offers only other kinds is answered with an error.
\<close>

theorem allow_helpers_do_not_fall_back:
  assumes "\<forall>opt \<in> set (pr_Options req). \<not> allow_kind (po_Kind opt)" and "pr_Options req \<noteq> []"
  shows "AllowOnce req = (no_response, Some (ESent ErrNoOptionOfKind)) \<and>
    AllowAlways req = (no_response, Some (ESent ErrNoOptionOfKind))"
proof -
  have "first_of_kind PermissionOptionKindAllowOnce req = None"
    "first_of_kind PermissionOptionKindAllowAlways req = None"
    using assms by (auto simp: first_of_kind_None allow_kind_def)
  with assms show ?thesis by (simp add: AllowOnce_def AllowAlways_def pickByKind_def)
qed

theorem allow_helpers_do_not_fall_back_witness:
  "snd (AllowOnce (demo_request\<lparr>pr_Options :=
      [\<lparr>po_OptionId = ''no'', po_Kind = PermissionOptionKindRejectOnce\<rparr>]\<rparr>)) \<noteq> None"
  using allow_helpers_do_not_fall_back [of "demo_request\<lparr>pr_Options :=
      [\<lparr>po_OptionId = ''no'', po_Kind = PermissionOptionKindRejectOnce\<rparr>]\<rparr>"]
  by (simp add: allow_kind_def)

definition denied_table :: "nat hook_table" where
  "denied_table = [(HookEventPermissionDenied, [plain_matcher 1 [counting_hook HookAllow]])]"

text \<open>
  The permission_denied hook is driven by the text of the option id, not by the option's
  kind: a rejection through an option whose id contains neither ``reject'' nor ``deny'' does not
  fire it, although the hook is documented to fire after every reject.
\<close>

theorem denied_hook_depends_on_the_option_id:
  "fst (permission_path (Some denied_table) [] [''bash''] None demo_request demo_env) =
     (selected ''no'', None) \<and>
   he_world (snd (permission_path (Some denied_table) [] [''bash''] None demo_request demo_env)) = 0"
proof -
  have g: "permission_gate (Some denied_table) demo_request demo_env = ((HookAllow, None), demo_env)"
    by (simp add: permission_gate_def run_hook_def dispatch_def matchers_for_def denied_table_def)
  have c: "composeCanUseTool [] [''bash''] None = Some (\<lambda>req w. (RejectOnce req, w))"
    by (simp add: composeCanUseTool_def fun_eq_iff Let_def)
  have r: "RejectOnce demo_request = (selected ''no'', None)"
    by (simp add: demo_request_def RejectOnce_def pickByKind_def first_of_kind_def)
  have w: "on_world (\<lambda>w. ((selected ''no'', None), w)) demo_env = ((selected ''no'', None), demo_env)"
    by (simp add: on_world_def demo_env_def he_world_def)
  have "permission_decide (Some denied_table) (Some (\<lambda>req w. (RejectOnce req, w))) demo_request demo_env
      = ((selected ''no'', None), on_obs (RecordPermission ''selected:no'') demo_env)"
    by (simp add: permission_decide_def r w permission_outcome_def isRejectOutcome_def)
  then show ?thesis
    by (simp add: permission_path_unfold [OF _ g] c he_world_def) (simp add: demo_env_def)
qed
end
