(* ===== verification/FsHandlers.thy ===== *)
theory FsHandlers
  imports Permissions
begin

text \<open>
  The file, elicitation and terminal handlers: \<open>internal/handlers/dispatcher.go\<close>, the
  \<open>instrumentedFsWrite\<close> part of \<open>client_impl.go\<close> and \<open>elicit_handler.go\<close>. Lines and limits are
  64-bit integers; a slice expression out of range panics, which is the value \<open>None\<close>. Symbolic
  links are not modelled: the boundary check is lexical.
\<close>

section \<open>Reading\<close>

definition applyLineLimit :: "string \<Rightarrow> int option \<Rightarrow> int option \<Rightarrow> string option" where
  "applyLineLimit content line limit =
     (let lines = split_on CHR 0x0A content;
          n = int (length lines);
          start = (case line of Some l \<Rightarrow> if l > 0 then min (l - 1) n else 0 | None \<Rightarrow> 0);
          end' = (case limit of
                    Some k \<Rightarrow> if k > 0 \<and> i64 (start + k) < n then i64 (start + k) else n
                  | None \<Rightarrow> n)
      in if 0 \<le> start \<and> start \<le> end'
         then Some (join_with [CHR 0x0A] (take (nat (end' - start)) (drop (nat start) lines)))
         else None)"

definition abs_err :: "string \<Rightarrow> string \<Rightarrow> goerr" where
  "abs_err op p = ENew (op @ '': path must be absolute: '' @ go_quote p)"

definition ReadTextFile :: "ReadTextFileRequest \<Rightarrow> os \<Rightarrow> (goerr + string) option" where
  "ReadTextFile req s =
     (if \<not> path_is_abs (rr_Path req) then Some (Inl (abs_err ''fs/read_text_file'' (rr_Path req)))
      else case os_read (rr_Path req) s of
             Inl e \<Rightarrow> Some (Inl (errorf_s_w ''fs/read_text_file'' e))
           | Inr content \<Rightarrow>
               if rr_Line req \<noteq> None \<or> rr_Limit req \<noteq> None
               then map_option Inr (applyLineLimit content (rr_Line req) (rr_Limit req))
               else Some (Inr content))"

section \<open>Writing\<close>

text \<open>
  The boundary of the strict mode. The working directory of the process, on which a relative \<open>cwd\<close>
  depends, is taken to be known: the error of \<open>filepath.Abs\<close> when the system cannot tell it, which also
  rejects the write, is left out.
\<close>

definition assertWithinCwd :: "string \<Rightarrow> string \<Rightarrow> string \<Rightarrow> goerr option" where
  "assertWithinCwd wd target cwd =
     (if cwd = [] then Some (ENew (''fs/write_text_file: strict-cwd-boundary enabled with no cwd configured; rejecting ''
          @ go_quote target))
      else if \<not> path_is_abs target then Some (abs_err ''fs/write_text_file'' target)
      else
        let absCwd = path_abs wd cwd; clean = path_clean target
        in case path_rel absCwd clean of
             None \<Rightarrow> Some (ENew (''fs/write_text_file: path '' @ go_quote target @ '' not under cwd '' @
               go_quote absCwd))
           | Some rel \<Rightarrow>
               if rel = ''..'' \<or> has_prefix rel (''..'' @ [slash])
               then Some (ENew (''fs/write_text_file: path '' @ go_quote target @ '' escapes cwd '' @
                 go_quote absCwd))
               else None)"

definition write_through :: "WriteTextFileRequest \<Rightarrow> os \<Rightarrow> goerr option \<times> os" where
  "write_through req s =
     (if \<not> path_is_abs (wr_Path req) then (Some (abs_err ''fs/write_text_file'' (wr_Path req)), s)
      else
        let dir = path_dir (wr_Path req)
        in case (if dir \<noteq> [] then os_mkdir_all dir s else None) of
             Some e \<Rightarrow> (Some (errorf_s_w ''fs/write_text_file mkdir'' e), s)
           | None \<Rightarrow>
               (case os_write (wr_Path req) (wr_Content req) s of
                  (Some e, s') \<Rightarrow> (Some (errorf_s_w ''fs/write_text_file'' e), s')
                | (None, s') \<Rightarrow> (None, s')))"

type_synonym 'w FsWriteCallback = "WriteTextFileRequest \<Rightarrow> 'w \<Rightarrow> goerr option \<times> 'w"

type_synonym 'w fs_handler = "WriteTextFileRequest \<Rightarrow> 'w henv \<Rightarrow> goerr option \<times> 'w henv"

definition on_os :: "(os \<Rightarrow> 'r \<times> os) \<Rightarrow> 'w henv \<Rightarrow> 'r \<times> 'w henv" where
  "on_os f e = (case f (he_os e) of (r, s) \<Rightarrow> (r, e\<lparr>he_os := s\<rparr>))"

definition WriteTextFile :: "bool \<Rightarrow> string \<Rightarrow> 'w fs_handler option \<Rightarrow> 'w fs_handler" where
  "WriteTextFile strict cwd cb req e =
     (case (if strict then assertWithinCwd (os_wd (he_os e)) (wr_Path req) cwd else None) of
        Some err \<Rightarrow> (Some err, e)
      | None \<Rightarrow>
          (case cb of
             Some f \<Rightarrow> f req e
           | None \<Rightarrow> on_os (write_through req) e))"

definition fs_gate :: "'w hookDispatcher \<Rightarrow> WriteTextFileRequest \<Rightarrow> 'w henv \<Rightarrow>
    (HookOutput \<times> goerr option) \<times> 'w henv" where
  "fs_gate d req e =
     run_hook d HookEventFileChanged (wr_Path req)
       ((hook_input HookEventFileChanged (wr_SessionId req))\<lparr>hi_FileWrite := Some req\<rparr>) e"

definition fs_commit :: "'w FsWriteCallback option \<Rightarrow> 'w fs_handler" where
  "fs_commit cb req e =
     (case (case cb of Some f \<Rightarrow> on_world (f req) e | None \<Rightarrow> on_os (write_through req) e) of
        (Some err, e') \<Rightarrow> (Some err, on_obs (RecordFsDelegation ''write'' ''error'') e')
      | (None, e') \<Rightarrow> (None, on_obs (RecordFsDelegation ''write'' ''handled'') e'))"

definition instrumentedFsWrite :: "'w hookDispatcher \<Rightarrow> 'w FsWriteCallback option \<Rightarrow>
    'w fs_handler option" where
  "instrumentedFsWrite d cb =
     (if cb = None \<and> d = None then None
      else Some (\<lambda>req e.
        if d = None then fs_commit cb req e
        else case fs_gate d req e of
          ((decision, Some hookErr), e1) \<Rightarrow>
            (Some hookErr, on_obs (RecordFsDelegation ''write'' ''hook_error'') e1)
        | ((decision, None), e1) \<Rightarrow>
            if \<not> ho_Continue decision
            then (Some (ENew (if ho_Reason decision = [] then ''hook blocked write''
                              else ho_Reason decision)),
                  on_obs (RecordFsDelegation ''write'' ''hook_blocked'') e1)
            else fs_commit cb req e1))"

text \<open>The handler \<open>Start\<close> installs.\<close>

definition fs_path :: "'w hookDispatcher \<Rightarrow> bool \<Rightarrow> string \<Rightarrow> 'w FsWriteCallback option \<Rightarrow> 'w fs_handler" where
  "fs_path d strict cwd cb = WriteTextFile strict cwd (instrumentedFsWrite d cb)"

section \<open>Elicitation and terminals\<close>

datatype elicit_response = ElicitAccept json | ElicitDecline | ElicitCancel | ElicitNone

record ElicitRequest =
  er_Form :: "json option"
  er_Url :: "string option"

definition elicitationMode :: "ElicitRequest \<Rightarrow> string" where
  "elicitationMode req =
     (if er_Form req \<noteq> None then ''form'' else if er_Url req \<noteq> None then ''url'' else ''unknown'')"

definition DeclineElicitation :: "ElicitRequest \<Rightarrow> elicit_response \<times> goerr option" where
  "DeclineElicitation req = (ElicitDecline, None)"

fun elicit_outcome :: "elicit_response \<times> goerr option \<Rightarrow> string" where
  "elicit_outcome (_, Some _) = ''error''"
| "elicit_outcome (ElicitAccept _, None) = ''accept''"
| "elicit_outcome (ElicitDecline, None) = ''decline''"
| "elicit_outcome (ElicitCancel, None) = ''cancel''"
| "elicit_outcome (ElicitNone, None) = ''error''"

type_synonym 'w ElicitationCallback =
  "ElicitRequest \<Rightarrow> 'w \<Rightarrow> (elicit_response \<times> goerr option) \<times> 'w"

definition instrumentedElicitation :: "'w ElicitationCallback option \<Rightarrow>
    (ElicitRequest \<Rightarrow> 'w henv \<Rightarrow> (elicit_response \<times> goerr option) \<times> 'w henv) option" where
  "instrumentedElicitation cb =
     map_option (\<lambda>f req e.
       case on_world (f req) e of
         (r, e') \<Rightarrow> (r, on_obs (RecordElicitationRequest (elicitationMode req) (elicit_outcome r)) e')) cb"

definition UnstableCreateElicitation ::
    "(ElicitRequest \<Rightarrow> 'w henv \<Rightarrow> (elicit_response \<times> goerr option) \<times> 'w henv) option \<Rightarrow>
     ElicitRequest \<Rightarrow> 'w henv \<Rightarrow> (elicit_response \<times> goerr option) \<times> 'w henv" where
  "UnstableCreateElicitation cb req e =
     (case cb of Some f \<Rightarrow> f req e | None \<Rightarrow> (DeclineElicitation req, e))"

definition UnstableCompleteElicitation :: "('n \<Rightarrow> 'w henv \<Rightarrow> 'w henv) option \<Rightarrow> 'n \<Rightarrow> 'w henv \<Rightarrow>
    goerr option \<times> 'w henv" where
  "UnstableCompleteElicitation cb n e =
     (case cb of Some f \<Rightarrow> (None, f n e) | None \<Rightarrow> (None, e))"

definition wrapElicitationComplete :: "('n \<Rightarrow> 'w \<Rightarrow> 'w) option \<Rightarrow> ('n \<Rightarrow> 'w henv \<Rightarrow> 'w henv) option" where
  "wrapElicitationComplete cb =
     (case cb of None \<Rightarrow> None | Some f \<Rightarrow> Some (\<lambda>params e. snd (on_world (\<lambda>w. ((), f params w)) e)))"

datatype terminal_call =
    CreateTerminal | KillTerminal | TerminalOutput | ReleaseTerminal | WaitForTerminalExit

fun terminal_handler :: "terminal_call \<Rightarrow> goerr option" where
  "terminal_handler _ = Some (ESent ErrTerminalUnsupported)"

section \<open>The boundary\<close>

lemma path_abs_is_abs: "path_is_abs wd \<Longrightarrow> path_is_abs (path_abs wd p)"
proof (cases "path_is_abs p")
  case False
  assume "path_is_abs wd"
  then obtain w where w: "wd = slash # w" by (cases wd) (auto simp: path_is_abs_def split: if_splits)
  then have "path_is_abs (join_with [slash] (filter (\<lambda>e. e \<noteq> []) [wd, p]))"
    by (cases p) (simp_all add: path_is_abs_def)
  moreover have "filter (\<lambda>e. e \<noteq> []) [wd, p] \<noteq> []" by (simp add: w)
  ultimately show ?thesis using False by (simp only: path_abs_def path_join_def Let_def if_False path_is_abs_clean)
qed (simp add: path_abs_def)

definition inside :: "string \<Rightarrow> string \<Rightarrow> string \<Rightarrow> bool" where
  "inside wd cwd target \<longleftrightarrow>
     cwd \<noteq> [] \<and> path_is_abs target \<and> prefix (path_segs (path_abs wd cwd)) (path_segs target)"

lemma assertWithinCwd_iff:
  assumes "path_is_abs wd"
  shows "assertWithinCwd wd target cwd = None \<longleftrightarrow> inside wd cwd target"
proof (cases "cwd = [] \<or> \<not> path_is_abs target")
  case True
  then show ?thesis by (auto simp: assertWithinCwd_def inside_def)
next
  case False
  then obtain r where "path_rel (path_abs wd cwd) (path_clean target) = Some r"
    and "goes_up r \<longleftrightarrow> \<not> prefix (path_segs (path_abs wd cwd)) (path_segs (path_clean target))"
    using path_rel_abs [of "path_abs wd cwd" "path_clean target"] path_abs_is_abs [OF assms]
    by auto
  with False show ?thesis
    by (simp add: assertWithinCwd_def goes_up_def path_segs_clean inside_def Let_def)
qed

lemma write_through_frame:
  "write_through req s = (r, s') \<Longrightarrow> q \<noteq> wr_Path req \<Longrightarrow> os_files s' q = os_files s q"
  using os_write_frame [of q "wr_Path req" "wr_Content req" s]
  by (auto simp: write_through_def Let_def split: if_splits option.splits prod.splits)

lemma fs_gate_frame:
  "fs_gate d req e = (r, e') \<Longrightarrow> he_obs e' = he_obs e \<and> he_os e' = he_os e"
  by (auto simp: fs_gate_def dest: run_hook_frame)

lemma fs_commit_os:
  "fs_commit cb req e = (r, e') \<Longrightarrow>
     he_os e' = (case cb of Some _ \<Rightarrow> he_os e | None \<Rightarrow> snd (write_through req (he_os e)))"
  by (auto simp: fs_commit_def on_os_def split: option.splits prod.splits
      dest: on_world_frame)

lemma instrumentedFsWrite_os:
  assumes "instrumentedFsWrite d cb = Some f" "f req e = (r, e')"
  shows "he_os e' = he_os e \<or> he_os e' = snd (write_through req (he_os e))"
  using assms fs_gate_frame [of d req e] fs_commit_os [of cb req]
  by (fastforce simp: instrumentedFsWrite_def split: if_splits prod.splits option.splits)

lemma fs_path_os:
  assumes "fs_path d strict cwd cb req e = (r, e')"
  shows "he_os e' = he_os e \<or>
    he_os e' = snd (write_through req (he_os e)) \<and>
    (strict \<longrightarrow> assertWithinCwd (os_wd (he_os e)) (wr_Path req) cwd = None)"
  using assms instrumentedFsWrite_os [of d cb _ req e r e']
  by (auto simp: fs_path_def WriteTextFile_def on_os_def split: option.splits prod.splits if_splits)

text \<open>
  C11: The strict boundary is exact. A write whose target is an absolute path below the configured
  directory (the cleaned segments of the directory, resolved against the working directory, are a
  prefix of the cleaned segments of the target) is handled exactly as without the boundary; every
  other write is refused with an error before any hook, callback or file operation runs. So
  neither a \<open>..\<close> component nor a sibling whose name merely starts with the directory's passes.
\<close>

theorem strict_boundary_exact:
  assumes "path_is_abs (os_wd (he_os e))"
  shows "if inside (os_wd (he_os e)) cwd (wr_Path req)
    then fs_path d True cwd cb req e = fs_path d False cwd cb req e
    else \<exists>err. fs_path d True cwd cb req e = (Some err, e)"
  using assertWithinCwd_iff [OF assms, of "wr_Path req" cwd]
  by (auto simp: fs_path_def WriteTextFile_def split: option.splits)

text \<open>
  With the strict boundary on, whatever hooks and callbacks are installed and whatever the
  agent asks for, the only file a write request can change is the requested one, and only if it
  lies below the configured directory.
\<close>

theorem strict_writes_confined:
  assumes "fs_path d True cwd cb req e = (r, e')" and "path_is_abs (os_wd (he_os e))"
    and "os_files (he_os e') p \<noteq> os_files (he_os e) p"
  shows "p = wr_Path req \<and> inside (os_wd (he_os e)) cwd p"
proof -
  from fs_path_os [OF assms(1)] assms(3)
  have w: "he_os e' = snd (write_through req (he_os e))"
    and a: "assertWithinCwd (os_wd (he_os e)) (wr_Path req) cwd = None" by auto
  obtain r' s' where "write_through req (he_os e) = (r', s')" by (metis prod.exhaust)
  with w assms(3) write_through_frame have "p = wr_Path req" by fastforce
  with a show ?thesis by (simp add: assertWithinCwd_iff [OF assms(2)])
qed

definition demo_write :: "string \<Rightarrow> WriteTextFileRequest" where
  "demo_write p = \<lparr>wr_SessionId = ''s1'', wr_Path = p, wr_Content = ''x''\<rparr>"

lemma demo_write_sel [simp]: "wr_Path (demo_write p) = p" "wr_Content (demo_write p) = ''x''"
  by (simp_all add: demo_write_def)

lemma demo_env_fail: "os_fail (he_os demo_env) = (\<lambda>_ _. None)"
  by (simp add: demo_env_def)

lemma demo_env_wd: "os_wd (he_os demo_env) = ''/''"
  by (simp add: demo_env_def)

theorem strict_boundary_exact_witness:
  "\<exists>err. fs_path None True ''proj'' None (demo_write ''/proj-evil/x'') demo_env = (Some err, demo_env)"
proof -
  have "path_is_abs (os_wd (he_os demo_env))" by (simp add: demo_env_wd path_is_abs_def)
  moreover have "\<not> inside ''/'' ''proj'' ''/proj-evil/x''" by code_simp
  ultimately show ?thesis
    using strict_boundary_exact [of demo_env "''proj''" "demo_write ''/proj-evil/x''" None None]
    by (simp only: demo_env_wd demo_write_sel if_False)
qed

theorem strict_writes_confined_witness:
  "inside ''/'' ''proj'' ''/proj/./a''"
proof -
  have abs: "path_is_abs (os_wd (he_os demo_env))" by (simp add: demo_env_wd path_is_abs_def)
  have "assertWithinCwd ''/'' ''/proj/./a'' ''proj'' = None" by code_simp
  moreover have "path_is_abs ''/proj/./a''" "path_dir ''/proj/./a'' = ''/proj''" by code_simp+
  moreover have "write_through (demo_write ''/proj/./a'') (he_os demo_env) =
      (None, (he_os demo_env)\<lparr>os_files := [''/proj/./a'' \<mapsto> ''x'']\<rparr>)"
    using calculation(2) by (simp add: write_through_def os_mkdir_all_def os_write_def Let_def demo_env_fail)
      (simp add: demo_env_def)
  ultimately have p: "fs_path None True ''proj'' None (demo_write ''/proj/./a'') demo_env =
     (None, demo_env\<lparr>he_os := (he_os demo_env)\<lparr>os_files := [''/proj/./a'' \<mapsto> ''x'']\<rparr>\<rparr>)"
    by (simp add: fs_path_def instrumentedFsWrite_def WriteTextFile_def demo_env_wd on_os_def)
  have "os_files (he_os (demo_env\<lparr>he_os := (he_os demo_env)\<lparr>os_files := [''/proj/./a'' \<mapsto> ''x'']\<rparr>\<rparr>)) ''/proj/./a''
      \<noteq> os_files (he_os demo_env) ''/proj/./a''"
    by (simp add: demo_env_def)
  from strict_writes_confined [OF p abs this] show ?thesis by (simp only: demo_env_wd)
qed

section \<open>The hook gate of a write\<close>

text \<open>
  A write that a file_changed hook blocks (or whose hook fails) has no effect: the agent gets
  an error, the caller's write callback is not invoked (the world is the one the hooks left), no
  file changes, and the refusal is measured once.
\<close>

theorem blocked_write_has_no_effect:
  assumes "fs_gate (Some t) req e = ((out, hr), e1)" "\<not> ho_Continue out"
  shows "\<exists>err e'. fs_path (Some t) False cwd cb req e = (Some err, e') \<and>
    he_os e' = he_os e \<and> he_hooks e' = he_hooks e1 \<and>
    total fsDelegated (he_obs e') = total fsDelegated (he_obs e) + 1"
proof (cases hr)
  case None
  with assms fs_gate_frame [OF assms(1)] show ?thesis
    by (simp add: fs_path_def instrumentedFsWrite_def WriteTextFile_def RecordFsDelegation_def)
next
  case (Some err)
  with assms fs_gate_frame [OF assms(1)] show ?thesis
    by (simp add: fs_path_def instrumentedFsWrite_def WriteTextFile_def RecordFsDelegation_def)
qed

text \<open>
  Installing hooks that let a write through does not change what the write does: without a
  write callback, the copy of the default behaviour in the client and the dispatcher's own one
  give the agent the same answer and leave the same files.
\<close>

theorem allowing_hooks_keep_the_default:
  assumes "fs_gate (Some t) req e = ((out, hr), e1)" "ho_Continue out"
  shows "fst (fs_path (Some t) strict cwd None req e) = fst (fs_path None strict cwd None req e) \<and>
    he_os (snd (fs_path (Some t) strict cwd None req e)) = he_os (snd (fs_path None strict cwd None req e))"
proof -
  have "hr = None"
    using assms hd.continue_no_error by (fastforce simp: fs_gate_def run_hook_def split: prod.splits)
  with assms fs_gate_frame [OF assms(1)] show ?thesis
    by (auto simp: fs_path_def instrumentedFsWrite_def WriteTextFile_def fs_commit_def on_os_def
        split: option.splits prod.splits)
qed

definition blocker_table :: "bool \<Rightarrow> nat hook_table" where
  "blocker_table b = [(HookEventFileChanged,
     [plain_matcher 1 [counting_hook (if b then HookBlock ''no'' else HookAllow)]])]"

lemma blocker_gate:
  "fs_gate (Some (blocker_table b)) req demo_env =
     ((if b then HookBlock ''no'' else HookAllow, None),
      demo_env\<lparr>he_hooks := \<lparr>hs_fired = {}, hs_world = 1\<rparr>\<rparr>)"
  by (simp add: fs_gate_def run_hook_def dispatch_def matchers_for_def blocker_table_def
      plain_matcher_def matches_def counting_hook_def demo_env_def merge_out_def hook_deadline_def
      HookAllow_def HookBlock_def)

theorem blocked_write_has_no_effect_witness:
  "fst (fs_path (Some (blocker_table True)) False [] None (demo_write ''/a'') demo_env) \<noteq> None"
  using blocked_write_has_no_effect [OF blocker_gate [of True "demo_write ''/a''"], of "[]" None] by auto

theorem allowing_hooks_keep_the_default_witness:
  "fst (fs_path (Some (blocker_table False)) False [] None (demo_write ''/a'') demo_env) =
   fst (fs_path None False [] None (demo_write ''/a'') demo_env)"
  using allowing_hooks_keep_the_default [OF blocker_gate [of False "demo_write ''/a''"], of False "[]"] by simp

section \<open>The line window\<close>

definition window :: "string list \<Rightarrow> int option \<Rightarrow> int option \<Rightarrow> string list" where
  "window lines line limit =
     (let tail = drop (case line of Some l \<Rightarrow> nat (l - 1) | None \<Rightarrow> 0) lines
      in case limit of Some k \<Rightarrow> if k > 0 then take (nat k) tail else tail | None \<Rightarrow> tail)"

text \<open>
  The window of a read: as long as the 64-bit sum of the start and the limit does not wrap,
  reading never panics and returns the lines from the given 1-based line on, at most \<open>limit\<close> of
  them; a non-positive line or limit means no restriction, a line past the end gives no line.
\<close>

theorem applyLineLimit_window:
  assumes "int (length (split_on CHR 0x0A content)) + (case limit of Some k \<Rightarrow> k | None \<Rightarrow> 0) < 2 ^ 63"
  shows "applyLineLimit content line limit =
    Some (join_with [CHR 0x0A] (window (split_on CHR 0x0A content) line limit))"
proof -
  define ls where "ls = split_on CHR 0x0A content"
  define start where "start = (case line of Some l \<Rightarrow> if l > 0 then min (l - 1) (int (length ls)) else 0 | None \<Rightarrow> 0)"
  define fin where "fin = (case limit of
      Some k \<Rightarrow> if k > 0 \<and> i64 (start + k) < int (length ls) then i64 (start + k) else int (length ls)
    | None \<Rightarrow> int (length ls))"
  have s: "0 \<le> start" "start \<le> int (length ls)" by (auto simp: start_def split: option.splits)
  have tail: "drop (case line of Some l \<Rightarrow> nat (l - 1) | None \<Rightarrow> 0) ls = drop (nat start) ls"
    by (auto simp: start_def min_def split: option.splits)
  have id: "i64 (start + k) = start + k" if "limit = Some k" "k > 0" for k
    using assms that s by (intro i64_id) (auto simp: in_i64_def simp flip: ls_def)
  have f: "start \<le> fin" using s id by (auto simp: fin_def split: option.splits)
  have "take (nat (fin - start)) (drop (nat start) ls) = window ls line limit"
    using s id by (auto simp: window_def Let_def tail fin_def split: option.splits)
  with s f show ?thesis
    unfolding applyLineLimit_def Let_def ls_def [symmetric] start_def [symmetric] fin_def [symmetric]
    by simp
qed

theorem applyLineLimit_window_witness:
  "applyLineLimit (''a'' @ [CHR 0x0A] @ ''b'' @ [CHR 0x0A] @ ''c'') (Some 2) (Some 1) = Some ''b''"
  using applyLineLimit_window [of "''a'' @ [CHR 0x0A] @ ''b'' @ [CHR 0x0A] @ ''c''" "Some 1" "Some 2"]
  by (simp add: window_def)

text \<open>
  A limit close to the largest integer crashes the handler: the sum of the start line and the
  limit wraps around to a negative bound, and slicing with it panics.
\<close>

theorem applyLineLimit_overflow:
  "applyLineLimit (''a'' @ [CHR 0x0A] @ ''b'') (Some 2) (Some (2 ^ 63 - 1)) = None"
  by (simp add: applyLineLimit_def i64_def Let_def)
end
