(* ===== verification/StructuredOutput.thy ===== *)
theory StructuredOutput
  imports Observability Interfaces
begin

text \<open>
  Structured output (\<open>structured_output.go\<close>, \<open>structured_output_tool.go\<close>): the capture slot the
  implicit bridge tool writes, the decoders, and the extraction of a JSON value from the
  assistant's text. The \<open>encoding/json\<close> package is a parameter: \<open>marshal\<close> and \<open>unmarshal\<close> into the
  caller's type. A Go \<open>map[string]any\<close> that may be nil is an optional association list.
\<close>

section \<open>The capture slot\<close>

type_synonym payload = "(string \<times> json) list"

record structuredOutputCapture =
  soc_payload :: "payload option"
  soc_calls :: int

definition newStructuredOutputCapture :: structuredOutputCapture where
  "newStructuredOutputCapture = \<lparr>soc_payload = None, soc_calls = 0\<rparr>"

definition capture_store :: "payload \<Rightarrow> structuredOutputCapture \<Rightarrow> int \<times> structuredOutputCapture" where
  "capture_store p c =
     (let c' = c\<lparr>soc_payload := Some p, soc_calls := soc_calls c + 1\<rparr> in (soc_calls c', c'))"

definition capture_drain :: "structuredOutputCapture \<Rightarrow> payload option \<times> structuredOutputCapture" where
  "capture_drain c = (soc_payload c, c\<lparr>soc_payload := None, soc_calls := 0\<rparr>)"

definition StructuredOutputToolName :: string where
  "StructuredOutputToolName = ''StructuredOutput''"

definition structuredOutputCapturedAck :: string where
  "structuredOutputCapturedAck = ''Structured output captured. Do not call `'' @ StructuredOutputToolName @
     ''` again. End your turn now without any further prose, tool calls, or commentary.''"

definition structuredOutputRepeatAck :: string where
  "structuredOutputRepeatAck = ''Structured output was already captured for this turn. Do not call `'' @
     StructuredOutputToolName @ ''` again. End your turn now.''"

record ToolOutput =
  to_Text :: string
  to_Structured :: "json option"
  to_IsError :: bool

definition structured_tool_handler :: "payload \<Rightarrow> structuredOutputCapture \<Rightarrow>
    ToolOutput \<times> structuredOutputCapture" where
  "structured_tool_handler inp c =
     (case capture_store inp c of
        (calls, c') \<Rightarrow>
          (\<lparr>to_Text = (if calls > 1 then structuredOutputRepeatAck else structuredOutputCapturedAck),
             to_Structured = Some (JObj inp), to_IsError = False\<rparr>, c'))"

definition structuredOutputInstructionText :: "(payload \<Rightarrow> goerr + string) \<Rightarrow> payload \<Rightarrow> string" where
  "structuredOutputInstructionText marshal schema =
     (let raw = (case marshal schema of Inl _ \<Rightarrow> ''{}'' | Inr s \<Rightarrow> s)
      in ''You MUST deliver your final answer by calling the `'' @ StructuredOutputToolName @
         ''` tool exactly once and then end your turn immediately. Do not call the tool more than once. '' @
         ''Do not respond with prose, markdown, code fences, or any text outside the tool call. '' @
         ''The tool's input schema defines the required shape:'' @ [CHR 0x0A, CHR 0x0A] @ raw)"

text \<open>
  The tool keeps the last payload of a turn, not the first: after any non-empty sequence of
  calls the drain returns the payload of the last one, although the tool's description promises
  that additional calls are discarded, and the calls after the first are only acknowledged as
  repeats. Draining empties the slot: the next turn starts with nothing captured.
\<close>

theorem capture_keeps_the_last:
  "capture_drain (fold (\<lambda>p c. snd (structured_tool_handler p c)) (ps @ [p]) newStructuredOutputCapture) =
     (Some p, newStructuredOutputCapture) \<and>
   fst (capture_drain newStructuredOutputCapture) = None"
  by (simp add: structured_tool_handler_def capture_store_def capture_drain_def
      newStructuredOutputCapture_def)

section \<open>The output schema option\<close>

definition unwrapOutputSchemaEnvelope :: "payload \<Rightarrow> payload option" where
  "unwrapOutputSchemaEnvelope schema =
     (if schema = [] then None
      else if as_string (jget schema ''type'') \<noteq> Some ''json_schema'' then Some schema
      else case as_obj (jget schema ''schema'') of
             Some inner \<Rightarrow> if inner = [] then None else Some inner
           | None \<Rightarrow> None)"

section \<open>JSON in prose\<close>

definition fence :: string where "fence = ''```''"

fun after_char :: "char \<Rightarrow> string \<Rightarrow> string option" where
  "after_char c [] = None"
| "after_char c (x # xs) = (if x = c then Some xs else after_char c xs)"

definition extractFenced :: "string \<Rightarrow> string \<Rightarrow> string" where
  "extractFenced text opener =
     (case str_cut text opener of
        None \<Rightarrow> []
      | Some (_, remainder) \<Rightarrow>
          (let r = (case after_char CHR 0x0A remainder of Some r \<Rightarrow> r | None \<Rightarrow> remainder)
           in case str_cut r fence of
                None \<Rightarrow> []
              | Some (body, _) \<Rightarrow> trim_space body))"

text \<open>
  The scan of \<open>extractBracedSpan\<close> from the opening bracket on: the depth, whether it is inside a
  string, whether the next character is escaped. It returns the span it consumed.
\<close>

fun brace_scan :: "char \<Rightarrow> char \<Rightarrow> int \<Rightarrow> bool \<Rightarrow> bool \<Rightarrow> string \<Rightarrow> string option" where
  "brace_scan oc cc depth inString escape [] = None"
| "brace_scan oc cc depth inString escape (c # cs) =
     (if escape then map_option (Cons c) (brace_scan oc cc depth inString False cs)
      else if c = CHR 0x5C then map_option (Cons c) (brace_scan oc cc depth inString True cs)
      else if c = CHR 0x22 then map_option (Cons c) (brace_scan oc cc depth (\<not> inString) False cs)
      else if inString then map_option (Cons c) (brace_scan oc cc depth inString False cs)
      else if c = oc then map_option (Cons c) (brace_scan oc cc (depth + 1) inString False cs)
      else if c = cc then
        (if depth - 1 = 0 then Some [c]
         else map_option (Cons c) (brace_scan oc cc (depth - 1) inString False cs))
      else map_option (Cons c) (brace_scan oc cc depth inString False cs))"

definition is_open :: "char \<Rightarrow> bool" where
  "is_open c \<longleftrightarrow> c = CHR ''{'' \<or> c = CHR ''[''"

definition close_of :: "char \<Rightarrow> char" where
  "close_of c = (if c = CHR ''['' then CHR '']'' else CHR ''}'')"

definition extractBracedSpan :: "string \<Rightarrow> string" where
  "extractBracedSpan text =
     (case dropWhile (\<lambda>c. \<not> is_open c) text of
        [] \<Rightarrow> []
      | c # cs \<Rightarrow>
          (case brace_scan c (close_of c) 0 False False (c # cs) of
             None \<Rightarrow> [] | Some found \<Rightarrow> found))"

definition extractJSONCandidate :: "string \<Rightarrow> string" where
  "extractJSONCandidate text =
     (let raw = extractFenced text (fence @ ''json'')
      in if raw \<noteq> [] then raw
         else let raw2 = extractFenced text fence
              in if raw2 \<noteq> [] then raw2 else extractBracedSpan text)"

section \<open>Decoding\<close>

definition structuredOutputMetaKey :: string where
  "structuredOutputMetaKey = ''structuredOutput''"

record QueryResult =
  qr_SessionID :: string
  qr_AssistantText :: string
  qr_StopReason :: string
  qr_Usage :: "Usage option"
  qr_Notifications :: "SessionNotification list"

definition meta_get :: "Meta \<Rightarrow> string \<Rightarrow> json option" where
  "meta_get m k = (case m of None \<Rightarrow> None | Some kvs \<Rightarrow> jget kvs k)"

definition convertStructured :: "(json \<Rightarrow> goerr + string) \<Rightarrow> (string \<Rightarrow> goerr + 't) \<Rightarrow> json \<Rightarrow> goerr + 't" where
  "convertStructured marshal unmarshal raw =
     (case marshal raw of
        Inl e \<Rightarrow> Inl (errorf_s_w ''marshal structured output'' e)
      | Inr data \<Rightarrow>
          (case unmarshal data of
             Inl e \<Rightarrow> Inl (errorf_s_w ''decode structured output'' e)
           | Inr v \<Rightarrow> Inr v))"

fun decodeFromNotifications :: "(json \<Rightarrow> goerr + string) \<Rightarrow> (string \<Rightarrow> goerr + 't) \<Rightarrow>
    SessionNotification list \<Rightarrow> (goerr + 't) option" where
  "decodeFromNotifications marshal unmarshal [] = None"
| "decodeFromNotifications marshal unmarshal (n # ns) =
     (case meta_get (sn_Meta n) structuredOutputMetaKey of
        None \<Rightarrow> decodeFromNotifications marshal unmarshal ns
      | Some raw \<Rightarrow> Some (convertStructured marshal unmarshal raw))"

definition outcome_of :: "goerr + 't \<Rightarrow> string" where
  "outcome_of r = (case r of Inl _ \<Rightarrow> ''error'' | Inr _ \<Rightarrow> ''ok'')"

definition DecodeStructuredOutput :: "(json \<Rightarrow> goerr + string) \<Rightarrow> (string \<Rightarrow> goerr + 't) \<Rightarrow>
    QueryResult option \<Rightarrow> obs \<Rightarrow> (goerr + 't) \<times> obs" where
  "DecodeStructuredOutput marshal unmarshal result ob =
     (case result of
        None \<Rightarrow> (Inl (ENew ''opencodesdk: DecodeStructuredOutput: nil result''),
                 RecordStructuredDecode ''notifications'' ''missing'' ob)
      | Some q \<Rightarrow>
          (case decodeFromNotifications marshal unmarshal (qr_Notifications q) of
             Some r \<Rightarrow> (r, RecordStructuredDecode ''notifications'' (outcome_of r) ob)
           | None \<Rightarrow>
               (let raw = (if qr_AssistantText q = [] then [] else extractJSONCandidate (qr_AssistantText q));
                    parsed = (if raw = [] then None
                              else case unmarshal raw of Inl _ \<Rightarrow> None | Inr v \<Rightarrow> Some v)
                in case parsed of
                     Some v \<Rightarrow> (Inr v, RecordStructuredDecode ''text'' ''ok'' ob)
                   | None \<Rightarrow> (Inl (ESent ErrStructuredOutputMissing),
                       RecordStructuredDecode ''notifications'' ''missing'' ob))))"

definition DecodePromptResult :: "(json \<Rightarrow> goerr + string) \<Rightarrow> (string \<Rightarrow> goerr + 't) \<Rightarrow>
    PromptResult option \<Rightarrow> obs \<Rightarrow> (goerr + 't) \<times> obs" where
  "DecodePromptResult marshal unmarshal result ob =
     (case result of
        None \<Rightarrow> (Inl (ENew ''opencodesdk: DecodePromptResult: nil result''),
                 RecordStructuredDecode ''prompt_meta'' ''missing'' ob)
      | Some r \<Rightarrow>
          (case meta_get (res_Meta r) structuredOutputMetaKey of
             None \<Rightarrow> (Inl (ESent ErrStructuredOutputMissing),
                      RecordStructuredDecode ''prompt_meta'' ''missing'' ob)
           | Some raw \<Rightarrow>
               (let v = convertStructured marshal unmarshal raw
                in (v, RecordStructuredDecode ''prompt_meta'' (outcome_of v) ob))))"

section \<open>Bracket depth\<close>

text \<open>The text outside of string literals, escapes removed: the specification of the scan.\<close>

fun unquoted :: "bool \<Rightarrow> bool \<Rightarrow> string \<Rightarrow> string" where
  "unquoted inString escape [] = []"
| "unquoted inString escape (c # cs) =
     (if escape then unquoted inString False cs
      else if c = CHR 0x5C then unquoted inString True cs
      else if c = CHR 0x22 then unquoted (\<not> inString) False cs
      else if inString then unquoted inString False cs
      else c # unquoted inString False cs)"

definition depth :: "char \<Rightarrow> bool \<Rightarrow> bool \<Rightarrow> string \<Rightarrow> int" where
  "depth oc s e xs = int (count_list (unquoted s e xs) oc) - int (count_list (unquoted s e xs) (close_of oc))"

lemma depth_Nil [simp]: "depth oc s e [] = 0"
  by (simp add: depth_def)

lemma close_of_open:
  "is_open oc \<Longrightarrow> close_of oc \<noteq> oc \<and> oc \<noteq> CHR 0x5C \<and> oc \<noteq> CHR 0x22 \<and>
     close_of oc \<noteq> CHR 0x5C \<and> close_of oc \<noteq> CHR 0x22"
  by (auto simp: is_open_def close_of_def)

definition after :: "char \<Rightarrow> bool \<Rightarrow> bool \<Rightarrow> bool \<times> bool" where
  "after c s e =
     (if e then (s, False) else if c = CHR 0x5C then (s, True)
      else if c = CHR 0x22 then (\<not> s, False) else (s, False))"

definition weight :: "char \<Rightarrow> char \<Rightarrow> bool \<Rightarrow> bool \<Rightarrow> int" where
  "weight oc c s e =
     (if e \<or> s then 0 else if c = oc then 1 else if c = close_of oc then - 1 else 0)"

lemma depth_Cons:
  assumes "is_open oc"
  shows "depth oc s e (c # cs) = weight oc c s e + depth oc (fst (after c s e)) (snd (after c s e)) cs"
  using close_of_open [OF assms] by (auto simp: depth_def weight_def after_def)

lemma brace_scan_Cons:
  assumes "is_open oc"
  shows "brace_scan oc (close_of oc) d s e (c # cs) =
    (if weight oc c s e = - 1 \<and> d - 1 = 0 then Some [c]
     else map_option (Cons c)
       (brace_scan oc (close_of oc) (d + weight oc c s e) (fst (after c s e)) (snd (after c s e)) cs))"
  using close_of_open [OF assms] by (auto simp: weight_def after_def)

declare brace_scan.simps(2) [simp del] unquoted.simps(2) [simp del]

lemma weight_last: "weight oc c s e = - 1 \<Longrightarrow> c = close_of oc"
  by (auto simp: weight_def split: if_splits)

lemma weight_ge: "weight oc c s e \<ge> - 1"
  by (simp add: weight_def)

definition closes :: "char \<Rightarrow> int \<Rightarrow> bool \<Rightarrow> bool \<Rightarrow> string \<Rightarrow> string \<Rightarrow> bool" where
  "closes oc d s e xs r \<longleftrightarrow> prefix r xs \<and> r \<noteq> [] \<and> last r = close_of oc \<and> d + depth oc s e r = 0 \<and>
     (\<forall>p. strict_prefix p r \<longrightarrow> d + depth oc s e p > 0)"

lemma closes_Cons:
  assumes "is_open oc" "d > 0" "d + weight oc c s e > 0"
    and "closes oc (d + weight oc c s e) (fst (after c s e)) (snd (after c s e)) cs r"
  shows "closes oc d s e (c # cs) (c # r)"
proof -
  have "d + depth oc s e p > 0" if "strict_prefix p (c # r)" for p
    using that assms by (cases p) (auto simp: closes_def depth_Cons strict_prefix_def add.assoc)
  then show ?thesis using assms by (auto simp: closes_def depth_Cons add.assoc)
qed

lemma brace_scan_correct:
  assumes "is_open oc"
  shows "d > 0 \<Longrightarrow>
    (case brace_scan oc (close_of oc) d s e xs of
       Some r \<Rightarrow> closes oc d s e xs r
     | None \<Rightarrow> \<forall>p. prefix p xs \<longrightarrow> d + depth oc s e p > 0)"
proof (induction xs arbitrary: d s e)
  case Nil
  then show ?case by simp
next
  case (Cons c cs)
  show ?case
  proof (cases "weight oc c s e = - 1 \<and> d - 1 = 0")
    case True
    then have "closes oc d s e (c # cs) [c]"
      using weight_last [of oc c s e]
      by (auto simp: closes_def depth_Cons [OF assms] strict_prefix_def prefix_Cons)
    with True show ?thesis by (simp add: brace_scan_Cons [OF assms])
  next
    case False
    then have pos: "d + weight oc c s e > 0"
      using Cons.prems weight_ge [of oc c s e] by linarith
    note IH = Cons.IH [OF pos, where s = "fst (after c s e)" and e = "snd (after c s e)"]
    show ?thesis
    proof (cases "brace_scan oc (close_of oc) (d + weight oc c s e) (fst (after c s e)) (snd (after c s e)) cs")
      case None
      have "d + depth oc s e p > 0" if "prefix p (c # cs)" for p
        using that IH None Cons.prems by (cases p) (auto simp: depth_Cons [OF assms] add.assoc)
      with False None show ?thesis by (auto simp: brace_scan_Cons [OF assms])
    next
      case (Some r)
      then have "closes oc d s e (c # cs) (c # r)"
        using closes_Cons [OF assms Cons.prems pos] IH by simp
      with False Some show ?thesis by (auto simp: brace_scan_Cons [OF assms])
    qed
  qed
qed

text \<open>
  C31: What \<open>extractBracedSpan\<close> finds, in any text. It starts at the first opening bracket of the text,
  square or curly, and returns the shortest span from there in which the opening and the closing
  brackets of that bracket's own kind balance outside of string literals; the span ends with the
  closing bracket. It returns nothing exactly when there is no opening bracket or when no span
  balances. Brackets inside JSON strings, also after escaped quotes, never end the span. Brackets of
  the other kind are not counted at all, so the span need not be well formed: of \<open>{a:[}]}\<close> it returns
  \<open>{a:[}\<close>.
\<close>

theorem extractBracedSpan_correct:
  "case dropWhile (\<lambda>c. \<not> is_open c) text of
     [] \<Rightarrow> extractBracedSpan text = []
   | oc # cs \<Rightarrow>
       if \<exists>p. prefix p (oc # cs) \<and> p \<noteq> [] \<and> depth oc False False p \<le> 0
       then prefix (extractBracedSpan text) (oc # cs) \<and> extractBracedSpan text \<noteq> [] \<and>
         last (extractBracedSpan text) = close_of oc \<and>
         depth oc False False (extractBracedSpan text) = 0 \<and>
         (\<forall>p. strict_prefix p (extractBracedSpan text) \<and> p \<noteq> [] \<longrightarrow> depth oc False False p > 0)
       else extractBracedSpan text = []"
proof (cases "dropWhile (\<lambda>c. \<not> is_open c) text")
  case Nil
  then show ?thesis by (simp add: extractBracedSpan_def del: dropWhile_eq_Nil_conv)
next
  case start: (Cons oc cs)
  then have oc: "is_open oc" by (metis dropWhile_eq_Cons_conv)
  have w: "weight oc oc False False = 1" "after oc False False = (False, False)"
    using close_of_open [OF oc] by (simp_all add: weight_def after_def)
  note scan = brace_scan_correct [OF oc, where d = 1 and s = False and e = False and xs = cs]
  have d: "depth oc False False (oc # p) = 1 + depth oc False False p" for p
    by (simp add: depth_Cons [OF oc] w)
  have e: "extractBracedSpan text =
      (case brace_scan oc (close_of oc) 1 False False cs of None \<Rightarrow> [] | Some r \<Rightarrow> oc # r)"
    using start by (simp add: extractBracedSpan_def brace_scan_Cons [OF oc] w split: option.split)
  show ?thesis
  proof (cases "brace_scan oc (close_of oc) 1 False False cs")
    case None
    have "\<not> depth oc False False p \<le> 0" if "prefix p (oc # cs)" "p \<noteq> []" for p
      using that scan None by (cases p) (auto simp: d not_le)
    with None e start show ?thesis by auto
  next
    case (Some r)
    with scan have c: "closes oc 1 False False cs r" by simp
    then have "\<exists>p. prefix p (oc # cs) \<and> p \<noteq> [] \<and> depth oc False False p \<le> 0"
      by (intro exI [of _ "oc # r"]) (auto simp: closes_def d)
    moreover have "depth oc False False p > 0" if "strict_prefix p (oc # r)" "p \<noteq> []" for p
      using that c by (cases p) (auto simp: closes_def d strict_prefix_def)
    ultimately show ?thesis using c Some e start by (auto simp: closes_def d)
  qed
qed

theorem extractBracedSpan_correct_witness:
  "extractBracedSpan ''say {a:[}]} x'' = ''{a:[}''"
proof -
  have "dropWhile (\<lambda>c. \<not> is_open c) ''say {a:[}]} x'' = CHR ''{'' # ''a:[}]} x''" by code_simp
  with extractBracedSpan_correct [of "''say {a:[}]} x''"]
  have "prefix (extractBracedSpan ''say {a:[}]} x'') ''{a:[}]} x'' \<or> extractBracedSpan ''say {a:[}]} x'' = []"
    by (auto split: if_splits)
  moreover have "extractBracedSpan ''say {a:[}]} x'' = ''{a:[}''" by code_simp
  ultimately show ?thesis by simp
qed


section \<open>Fences\<close>

text \<open>
  A fenced JSON block is found whatever prose surrounds it: when the opening fence is the
  first one of its kind and the body holds no fence of its own, the candidate is the trimmed body
  of the block (provided it is not empty), and not some braced span of the prose.
\<close>

theorem fenced_json_found:
  assumes pre: "\<not> sublist (fence @ ''json'') (pre @ fence @ ''jso'')"
    and body: "\<not> sublist fence (body @ ''``'')" and ne: "trim_space body \<noteq> []"
  shows "extractJSONCandidate (pre @ fence @ ''json'' @ CHR 0x0A # body @ fence @ post) = trim_space body"
proof -
  have "str_cut (pre @ (fence @ ''json'') @ (CHR 0x0A # body @ fence @ post)) (fence @ ''json'') =
      Some (pre, CHR 0x0A # body @ fence @ post)"
    by (rule str_cut_append) (use pre in \<open>simp_all add: fence_def\<close>)
  moreover have "str_cut (body @ fence @ post) fence = Some (body, post)"
    by (rule str_cut_append) (use body in \<open>simp_all add: fence_def\<close>)
  ultimately have "extractFenced (pre @ fence @ ''json'' @ CHR 0x0A # body @ fence @ post) (fence @ ''json'') =
      trim_space body"
    by (simp add: extractFenced_def)
  with ne show ?thesis by (simp add: extractJSONCandidate_def)
qed

theorem fenced_json_found_witness:
  "extractJSONCandidate (''Use {x}: '' @ fence @ ''json'' @ CHR 0x0A # '' [1] '' @ fence @ ''!'') = ''[1]''"
proof -
  have "\<not> sublist (fence @ ''json'') (''Use {x}: '' @ fence @ ''jso'')"
    "\<not> sublist fence ('' [1] '' @ ''``'')"
    by (simp_all add: fence_def flip: str_contains_iff)
  moreover have "trim_space '' [1] '' = ''[1]''" by code_simp
  ultimately show ?thesis using fenced_json_found [of "''Use {x}: ''" "'' [1] ''" "''!''"] by simp
qed

lemma decode_measured_once:
  "total structuredDecode (snd (DecodeStructuredOutput m u r ob)) = total structuredDecode ob + 1"
  "total structuredDecode (snd (DecodePromptResult m u p ob)) = total structuredDecode ob + 1"
  by (auto simp: DecodeStructuredOutput_def DecodePromptResult_def RecordStructuredDecode_def Let_def
      split: option.splits)
end
