(* ===== verification/Session.thy ===== *)
theory Session
  imports Permissions StructuredOutput
begin

text \<open>
  The session (\<open>session_impl.go\<close>, \<open>updates.go\<close>, \<open>maxturns.go\<close>, the variant part of
  \<open>unstable.go\<close>): its state, the delivery of notifications in two critical sections, the
  bookkeeping under the lock, the typed subscribers, a prompt turn and the configuration calls.

  The connection to opencode is a parameter: an RPC is a function on the caller's world, found in
  the configuration \<open>cfg\<close> with the other things a session takes from its client. A subscriber is a
  function on the world that also says whether it called \<open>Cancel\<close> on its session. Clock readings
  are arguments, in seconds.
\<close>

section \<open>Variant information\<close>

record VariantInfo =
  vi_ModelId :: string
  vi_Variant :: string
  vi_AvailableVariants :: "string list"

definition OpencodeVariant :: "Meta \<Rightarrow> VariantInfo option" where
  "OpencodeVariant meta =
     (case as_obj (meta_get meta ''opencode'') of
        None \<Rightarrow> None
      | Some oc \<Rightarrow>
          (let info = \<lparr>vi_ModelId = str_or (as_string (jget oc ''modelId'')),
                       vi_Variant = str_or (as_string (jget oc ''variant'')),
                       vi_AvailableVariants =
                         (case as_arr (jget oc ''availableVariants'') of
                            Some raw \<Rightarrow> json_strings raw | None \<Rightarrow> [])\<rparr>
           in if vi_ModelId info = [] \<and> vi_Variant info = [] \<and> vi_AvailableVariants info = []
              then None else Some info))"

section \<open>State\<close>

type_synonym ('p, 'w) handler = "'p \<Rightarrow> 'w \<Rightarrow> bool \<times> 'w"

record 'w UpdateHandlers =
  uh_UserMessage :: "(Chunk, 'w) handler option"
  uh_AgentMessage :: "(Chunk, 'w) handler option"
  uh_AgentThought :: "(Chunk, 'w) handler option"
  uh_ToolCall :: "(ToolCall, 'w) handler option"
  uh_ToolCallUpdate :: "(ToolCallUpdate, 'w) handler option"
  uh_Plan :: "(json, 'w) handler option"
  uh_AvailableCommands :: "(string list, 'w) handler option"
  uh_CurrentMode :: "(string, 'w) handler option"
  uh_ConfigOption :: "(json, 'w) handler option"
  uh_SessionInfo :: "(json, 'w) handler option"
  uh_Usage :: "(UsageUpdate, 'w) handler option"

definition no_handlers :: "'w UpdateHandlers" where
  "no_handlers = \<lparr>uh_UserMessage = None, uh_AgentMessage = None, uh_AgentThought = None,
     uh_ToolCall = None, uh_ToolCallUpdate = None, uh_Plan = None, uh_AvailableCommands = None,
     uh_CurrentMode = None, uh_ConfigOption = None, uh_SessionInfo = None, uh_Usage = None\<rparr>"

record toolCallObservation =
  tco_started :: rat
  tco_name :: string
  tco_kind :: string

record 'w session =
  s_id :: string
  s_updates :: "SessionNotification chan"
  s_closed :: bool
  s_cancelIntended :: bool
  s_initialModels :: "ModelState option"
  s_initialModes :: "ModeState option"
  s_initialOptions :: json
  s_meta :: Meta
  s_commands :: "string list"
  s_currentModel :: string
  s_currentMode :: string
  s_resolvedVariant :: "VariantInfo option"
  s_toolCallStart :: "(string \<times> toolCallObservation) list"
  s_subscribers :: "(64 word \<times> 'w UpdateHandlers) list"
  s_subSeq :: "64 word"
  s_dropped :: int

text \<open>\<open>newSession\<close> without the registration, which belongs to the client.\<close>

definition new_session :: "string \<Rightarrow> ModelState option \<Rightarrow> ModeState option \<Rightarrow> json \<Rightarrow> Meta \<Rightarrow> int \<Rightarrow>
    'w session" where
  "new_session sid models modes opts meta bufferSize =
     (let size = (if bufferSize \<le> 0 then 128 else bufferSize)
      in \<lparr>s_id = sid, s_updates = chan_new (nat size), s_closed = False, s_cancelIntended = False,
         s_initialModels = models, s_initialModes = modes, s_initialOptions = opts, s_meta = meta,
         s_commands = [],
         s_currentModel = (case models of Some m \<Rightarrow> mo_CurrentModelId m | None \<Rightarrow> []),
         s_currentMode = (case modes of Some m \<Rightarrow> md_CurrentModeId m | None \<Rightarrow> []),
         s_resolvedVariant = None, s_toolCallStart = [], s_subscribers = [], s_subSeq = 0,
         s_dropped = 0\<rparr>)"

record 'w cfg =
  cf_hooks :: "'w hookDispatcher"
  cf_user :: string
  cf_caps :: AgentCapabilities
  cf_outputSchema :: "payload option"
  cf_marshal :: "payload \<Rightarrow> goerr + string"
  cf_onUpdateDropped :: "(string \<Rightarrow> int \<Rightarrow> 'w \<Rightarrow> 'w) option"
  cf_onTurnComplete :: "(string \<Rightarrow> PromptResult option \<Rightarrow> goerr option \<Rightarrow> 'w \<Rightarrow> 'w) option"
  cf_rpcCancel :: "string \<Rightarrow> 'w \<Rightarrow> goerr option \<times> 'w"
  cf_rpcSetConfig :: "string \<Rightarrow> string \<Rightarrow> json \<Rightarrow> 'w \<Rightarrow> goerr option \<times> 'w"

section \<open>Accessors\<close>

definition ID :: "'w session \<Rightarrow> string" where
  "ID s = s_id s"

definition Updates :: "'w session \<Rightarrow> SessionNotification chan" where
  "Updates s = s_updates s"

definition InitialModels :: "'w session \<Rightarrow> ModelState option" where
  "InitialModels s = s_initialModels s"

definition InitialModes :: "'w session \<Rightarrow> ModeState option" where
  "InitialModes s = s_initialModes s"

definition InitialConfigOptions :: "'w session \<Rightarrow> json" where
  "InitialConfigOptions s = s_initialOptions s"

definition session_Meta :: "'w session \<Rightarrow> Meta" where
  "session_Meta s = s_meta s"

definition DroppedUpdates :: "'w session \<Rightarrow> int" where
  "DroppedUpdates s = s_dropped s"

definition AvailableModels :: "'w session \<Rightarrow> string list" where
  "AvailableModels s = (case s_initialModels s of None \<Rightarrow> [] | Some m \<Rightarrow> mo_AvailableModels m)"

definition AvailableModes :: "'w session \<Rightarrow> string list" where
  "AvailableModes s = (case s_initialModes s of None \<Rightarrow> [] | Some m \<Rightarrow> md_AvailableModes m)"

definition AvailableCommands :: "'w session \<Rightarrow> string list" where
  "AvailableCommands s = s_commands s"

definition CurrentVariant :: "'w session \<Rightarrow> VariantInfo option" where
  "CurrentVariant s =
     (case s_resolvedVariant s of
        Some v \<Rightarrow> Some v
      | None \<Rightarrow> if s_meta s = None then None else OpencodeVariant (s_meta s))"

definition setResolvedVariant :: "VariantInfo option \<Rightarrow> 'w session \<Rightarrow> 'w session" where
  "setResolvedVariant v s = (case v of None \<Rightarrow> s | Some _ \<Rightarrow> s\<lparr>s_resolvedVariant := v\<rparr>)"

section \<open>Subscribers\<close>

definition Subscribe :: "'w UpdateHandlers \<Rightarrow> 'w session \<Rightarrow> 64 word \<times> 'w session" where
  "Subscribe h s =
     (let i = s_subSeq s + 1
      in (i, s\<lparr>s_subSeq := i, s_subscribers := amap_put i h (s_subscribers s)\<rparr>))"

definition unsubscribe :: "64 word \<Rightarrow> 'w session \<Rightarrow> 'w session" where
  "unsubscribe i s = s\<lparr>s_subscribers := amap_del i (s_subscribers s)\<rparr>"

definition Cancel :: "'w cfg \<Rightarrow> 'w session \<times> 'w henv \<Rightarrow> goerr option \<times> ('w session \<times> 'w henv)" where
  "Cancel cfg se =
     (case se of (s, e) \<Rightarrow>
       (case on_world (cf_rpcCancel cfg (s_id s)) e of
          (r, e') \<Rightarrow> (r, (s\<lparr>s_cancelIntended := True\<rparr>, e'))))"

definition case_of :: "'p option \<Rightarrow> ('p, 'w) handler option \<Rightarrow> ('w \<Rightarrow> bool \<times> 'w) option" where
  "case_of p h = (case p of None \<Rightarrow> None | Some x \<Rightarrow> (case h of None \<Rightarrow> None | Some f \<Rightarrow> Some (f x)))"

definition chosen_handler :: "SessionUpdate \<Rightarrow> 'w UpdateHandlers \<Rightarrow> ('w \<Rightarrow> bool \<times> 'w) option" where
  "chosen_handler u h = first_some
     [case_of (su_UserMessageChunk u) (uh_UserMessage h),
      case_of (su_AgentMessageChunk u) (uh_AgentMessage h),
      case_of (su_AgentThoughtChunk u) (uh_AgentThought h),
      case_of (su_ToolCall u) (uh_ToolCall h),
      case_of (su_ToolCallUpdate u) (uh_ToolCallUpdate h),
      case_of (su_Plan u) (uh_Plan h),
      case_of (su_AvailableCommandsUpdate u) (uh_AvailableCommands h),
      case_of (su_CurrentModeUpdate u) (uh_CurrentMode h),
      case_of (su_ConfigOptionUpdate u) (uh_ConfigOption h),
      case_of (su_SessionInfoUpdate u) (uh_SessionInfo h),
      case_of (su_UsageUpdate u) (uh_Usage h)]"

definition run_subscriber :: "'w cfg \<Rightarrow> SessionUpdate \<Rightarrow> 'w UpdateHandlers \<Rightarrow>
    'w session \<times> 'w henv \<Rightarrow> 'w session \<times> 'w henv" where
  "run_subscriber cfg u h se =
     (case chosen_handler u h of
        None \<Rightarrow> se
      | Some f \<Rightarrow>
          (case on_world f (snd se) of
             (cancels, e') \<Rightarrow>
               if cancels then snd (Cancel cfg (fst se, e')) else (fst se, e')))"

definition dispatchSubscribers :: "'w cfg \<Rightarrow> 'w UpdateHandlers list \<Rightarrow> SessionUpdate \<Rightarrow>
    'w session \<times> 'w henv \<Rightarrow> 'w session \<times> 'w henv" where
  "dispatchSubscribers cfg subs u se = fold (run_subscriber cfg u) subs se"

section \<open>Bookkeeping under the lock\<close>

definition notify_hook :: "'w hookDispatcher \<Rightarrow> HookEvent \<Rightarrow> string \<Rightarrow> HookInput \<Rightarrow> 'w henv \<Rightarrow> 'w henv" where
  "notify_hook d ev primary inp e = (if d = None then e else snd (run_hook d ev primary inp e))"

definition isTerminalToolCallStatus :: "ToolCallStatus \<Rightarrow> bool" where
  "isTerminalToolCallStatus st \<longleftrightarrow> st = ToolCallStatusCompleted \<or> st = ToolCallStatusFailed"

definition fireHookPreToolUse :: "'w cfg \<Rightarrow> string \<Rightarrow> ToolCall \<Rightarrow> 'w henv \<Rightarrow> 'w henv" where
  "fireHookPreToolUse cfg sid tc =
     notify_hook (cf_hooks cfg) HookEventPreToolUse (tc_Title tc)
       ((hook_input HookEventPreToolUse sid)\<lparr>hi_ToolCall := Some tc\<rparr>)"

definition post_event :: "ToolCallStatus \<Rightarrow> HookEvent" where
  "post_event st = (if st = ToolCallStatusFailed then HookEventPostToolUseFailure else HookEventPostToolUse)"

definition synth_update :: "ToolCall \<Rightarrow> ToolCallUpdate" where
  "synth_update tc = \<lparr>tcu_ToolCallId = tc_ToolCallId tc, tcu_Title = Some (tc_Title tc),
     tcu_Kind = Some (tc_Kind tc), tcu_Status = Some (tc_Status tc), tcu_Payload = tc_Payload tc\<rparr>"

definition fireHookPostToolUseFromToolCall :: "'w cfg \<Rightarrow> string \<Rightarrow> ToolCall \<Rightarrow> 'w henv \<Rightarrow> 'w henv" where
  "fireHookPostToolUseFromToolCall cfg sid tc =
     (let ev = post_event (tc_Status tc)
      in notify_hook (cf_hooks cfg) ev (tc_Title tc)
           ((hook_input ev sid)\<lparr>hi_ToolCallUpdate := Some (synth_update tc)\<rparr>))"

definition fireHookPostToolUseFromUpdate :: "'w cfg \<Rightarrow> string \<Rightarrow> ToolCallUpdate \<Rightarrow> 'w henv \<Rightarrow> 'w henv" where
  "fireHookPostToolUseFromUpdate cfg sid tcu e =
     (case tcu_Status tcu of
        None \<Rightarrow> e
      | Some st \<Rightarrow>
          (let ev = post_event st
           in notify_hook (cf_hooks cfg) ev (str_or (tcu_Title tcu))
                ((hook_input ev sid)\<lparr>hi_ToolCallUpdate := Some tcu\<rparr>) e))"

definition emitToolCallTerminal :: "rat \<Rightarrow> string \<Rightarrow> string \<Rightarrow> string \<Rightarrow> string \<Rightarrow>
    'w session \<times> 'w henv \<Rightarrow> 'w session \<times> 'w henv" where
  "emitToolCallTerminal t1 i name kind status se =
     (case se of (s, e) \<Rightarrow>
       (case map_of (s_toolCallStart s) i of
          None \<Rightarrow> (s, on_obs (RecordToolCall name kind status 0) e)
        | Some tco \<Rightarrow>
            (s\<lparr>s_toolCallStart := amap_del i (s_toolCallStart s)\<rparr>,
             on_obs (RecordToolCall (if name = [] then tco_name tco else name)
               (if kind = [] then tco_kind tco else kind) status (t1 - tco_started tco)) e)))"

text \<open>\<open>t0\<close> is the reading of \<open>time.Now\<close> at an announced tool call, \<open>t1\<close> the one of \<open>time.Since\<close>.\<close>

definition observeInLock :: "'w cfg \<Rightarrow> rat \<Rightarrow> rat \<Rightarrow> SessionUpdate \<Rightarrow>
    'w session \<times> 'w henv \<Rightarrow> 'w session \<times> 'w henv" where
  "observeInLock cfg t0 t1 u se =
     (case se of (s, e) \<Rightarrow>
       (case su_AvailableCommandsUpdate u of
          Some cmds \<Rightarrow> (s\<lparr>s_commands := cmds\<rparr>, e)
        | None \<Rightarrow>
       (case su_ToolCall u of
          Some tc \<Rightarrow>
            (let s1 = s\<lparr>s_toolCallStart := amap_put (tc_ToolCallId tc)
                   \<lparr>tco_started = t0, tco_name = tc_Title tc, tco_kind = tc_Kind tc\<rparr> (s_toolCallStart s)\<rparr>;
                 e1 = fireHookPreToolUse cfg (s_id s) tc e
             in if isTerminalToolCallStatus (tc_Status tc)
                then emitToolCallTerminal t1 (tc_ToolCallId tc) (tc_Title tc) (tc_Kind tc)
                       (status_text (tc_Status tc))
                       (s1, fireHookPostToolUseFromToolCall cfg (s_id s) tc e1)
                else (s1, e1))
        | None \<Rightarrow>
       (case su_ToolCallUpdate u of
          Some tcu \<Rightarrow>
            (case tcu_Status tcu of
               None \<Rightarrow> (s, e)
             | Some st \<Rightarrow>
                 if \<not> isTerminalToolCallStatus st then (s, e)
                 else emitToolCallTerminal t1 (tcu_ToolCallId tcu) (str_or (tcu_Title tcu))
                        (str_or (tcu_Kind tcu)) (status_text st)
                        (s, fireHookPostToolUseFromUpdate cfg (s_id s) tcu e))
        | None \<Rightarrow>
       (case su_UsageUpdate u of
          None \<Rightarrow> (s, e)
        | Some uu \<Rightarrow>
            (case uu_Cost uu of
               None \<Rightarrow> (s, e)
             | Some (amount, currency) \<Rightarrow>
                 (s, on_obs (RecordCost amount currency (s_currentModel s)) e)))))))"

section \<open>Delivery and close\<close>

text \<open>
  \<open>deliver\<close> takes the lock twice: \<open>deliver_first\<close> is the first critical section (it returns the
  subscribers to call; the order of the table stands for Go's unspecified iteration order),
  \<open>deliver_send\<close> the second one; between the two the lock is free. \<open>None\<close> as the result of \<open>deliver_send\<close> is the panic of a
  send on a closed channel.
\<close>

definition deliver_first :: "'w cfg \<Rightarrow> rat \<Rightarrow> rat \<Rightarrow> SessionNotification \<Rightarrow> 'w session \<times> 'w henv \<Rightarrow>
    'w UpdateHandlers list option \<times> ('w session \<times> 'w henv)" where
  "deliver_first cfg t0 t1 n se =
     (if s_closed (fst se) then (None, se)
      else let se' = observeInLock cfg t0 t1 (sn_Update n) se
           in (Some (map snd (s_subscribers (fst se'))), se'))"

definition deliver_send :: "'w cfg \<Rightarrow> SessionNotification \<Rightarrow> 'w session \<times> 'w henv \<Rightarrow>
    ('w session \<times> 'w henv) option" where
  "deliver_send cfg n se =
     (case se of (s, e) \<Rightarrow>
       if s_closed s then Some (s, e)
       else case chan_try_send n (s_updates s) of
              Sent ch \<Rightarrow> Some (s\<lparr>s_updates := ch\<rparr>, e)
            | SendPanic \<Rightarrow> None
            | Full \<Rightarrow>
                (let count = s_dropped s + 1;
                     s1 = s\<lparr>s_dropped := count\<rparr>;
                     e1 = on_obs (RecordUpdateDropped (s_id s)) e
                 in Some (s1, case cf_onUpdateDropped cfg of
                                None \<Rightarrow> e1
                              | Some cb \<Rightarrow> snd (on_world (\<lambda>w. ((), cb (s_id s) count w)) e1))))"

definition deliver :: "'w cfg \<Rightarrow> rat \<Rightarrow> rat \<Rightarrow> SessionNotification \<Rightarrow> 'w session \<times> 'w henv \<Rightarrow>
    ('w session \<times> 'w henv) option" where
  "deliver cfg t0 t1 n se =
     (case deliver_first cfg t0 t1 n se of
        (None, se') \<Rightarrow> Some se'
      | (Some subs, se') \<Rightarrow>
          deliver_send cfg n (dispatchSubscribers cfg subs (sn_Update n) se'))"

text \<open>\<open>close\<close>; closing a closed channel would panic.\<close>

definition close_session :: "'w session \<Rightarrow> 'w session option" where
  "close_session s =
     (if s_closed s then Some s
      else map_option (\<lambda>ch. s\<lparr>s_closed := True, s_updates := ch\<rparr>) (chan_close (s_updates s)))"

section \<open>Prompt turns\<close>

definition checkPromptCapabilities :: "AgentCapabilities \<Rightarrow> ContentBlock list \<Rightarrow> goerr option" where
  "checkPromptCapabilities caps blocks =
     first_some (map (\<lambda>b.
       if cb_Image b \<noteq> None \<and> \<not> pc_Image (ac_Prompt caps)
       then Some (errorf_w_s (ESent ErrCapabilityUnavailable) ''image'')
       else if cb_Audio b \<noteq> None \<and> \<not> pc_Audio (ac_Prompt caps)
       then Some (errorf_w_s (ESent ErrCapabilityUnavailable) ''audio'')
       else if cb_Resource b \<noteq> None \<and> \<not> pc_EmbeddedContext (ac_Prompt caps)
       then Some (errorf_w_s (ESent ErrCapabilityUnavailable) ''embedded resource (embeddedContext)'')
       else None) blocks)"

definition extractPromptText :: "ContentBlock list \<Rightarrow> string" where
  "extractPromptText blocks =
     join_with [CHR 0x0A] (concat (map (\<lambda>b. case cb_Text b of Some t \<Rightarrow> [t] | None \<Rightarrow> []) blocks))"

definition tokensFromUsage :: "Usage option \<Rightarrow> TokenCounts" where
  "tokensFromUsage u =
     (case u of
        None \<Rightarrow> \<lparr>tk_Input = 0, tk_Output = 0, tk_CachedRead = 0, tk_CachedWrite = 0, tk_Thought = 0\<rparr>
      | Some u \<Rightarrow>
          (let opt = (\<lambda>v. case v of Some x \<Rightarrow> x | None \<Rightarrow> 0)
           in \<lparr>tk_Input = u_InputTokens u, tk_Output = u_OutputTokens u,
              tk_CachedRead = opt (u_CachedReadTokens u), tk_CachedWrite = opt (u_CachedWriteTokens u),
              tk_Thought = opt (u_ThoughtTokens u)\<rparr>))"

definition text_block :: "string \<Rightarrow> ContentBlock" where
  "text_block t = no_block\<lparr>cb_Text := Some t\<rparr>"

text \<open>Everything \<open>Prompt\<close> does before the RPC: the blocks and labels it goes on with, or an error.\<close>

definition prompt_prepare :: "'w cfg \<Rightarrow> ContentBlock list \<Rightarrow> 'w session \<times> 'w henv \<Rightarrow>
    (goerr + ContentBlock list \<times> PromptLabels) \<times> ('w session \<times> 'w henv)" where
  "prompt_prepare cfg blocks se =
     (if blocks = []
      then (Inl (ENew ''opencodesdk: Prompt requires at least one content block''), se)
      else case checkPromptCapabilities (cf_caps cfg) blocks of
        Some err \<Rightarrow> (Inl err, se)
      | None \<Rightarrow>
          (let blocks' = (case cf_outputSchema cfg of
                 None \<Rightarrow> blocks
               | Some schema \<Rightarrow> text_block (structuredOutputInstructionText (cf_marshal cfg) schema) # blocks);
               promptText = extractPromptText blocks';
               inp = (hook_input HookEventUserPromptSubmit (s_id (fst se)))\<lparr>hi_PromptText := promptText\<rparr>
           in case (if cf_hooks cfg = None then ((HookAllow, None), snd se)
                    else run_hook (cf_hooks cfg) HookEventUserPromptSubmit promptText inp (snd se)) of
                ((decision, Some hookErr), e1) \<Rightarrow>
                  (Inl (errorf_w_w (ESent ErrHookRejected) hookErr), (fst se, e1))
              | ((decision, None), e1) \<Rightarrow>
                  if \<not> ho_Continue decision
                  then (Inl (errorf_w_s (ESent ErrHookRejected)
                          (if ho_Reason decision = [] then ''hook rejected prompt'' else ho_Reason decision)),
                        (fst se, e1))
                  else (Inr (blocks', \<lparr>pl_Model = s_currentModel (fst se), pl_Mode = s_currentMode (fst se),
                          pl_User = cf_user cfg\<rparr>),
                        ((fst se)\<lparr>s_cancelIntended := False\<rparr>, e1))))"

definition fireTurnComplete :: "'w cfg \<Rightarrow> PromptResult option \<Rightarrow> goerr option \<Rightarrow> 'w session \<Rightarrow> 'w henv \<Rightarrow> 'w henv" where
  "fireTurnComplete cfg result err s e =
     (let e1 = (case err of
            None \<Rightarrow> notify_hook (cf_hooks cfg) HookEventStop (s_id s)
                      ((hook_input HookEventStop (s_id s))\<lparr>hi_PromptResult := result\<rparr>) e
          | Some _ \<Rightarrow> notify_hook (cf_hooks cfg) HookEventStopFailure (s_id s)
                      ((hook_input HookEventStopFailure (s_id s))\<lparr>hi_PromptError := err\<rparr>) e)
      in case cf_onTurnComplete cfg of
           None \<Rightarrow> e1
         | Some cb \<Rightarrow> snd (on_world (\<lambda>w. ((), cb (s_id s) result err w)) e1))"

text \<open>
  What \<open>Prompt\<close> does with the RPC's result. \<open>capture\<close> is the client's capture slot, when it has
  one; \<open>ctxErr\<close> is \<open>ctx.Err()\<close>, \<open>d\<close> the time the turn took.
\<close>

definition prompt_error :: "goerr option \<Rightarrow> bool \<Rightarrow> goerr \<Rightarrow> goerr" where
  "prompt_error ctxErr intended err =
     (if intended \<or> errors_is err CtxCanceled
      then errorf_w_w (ESent ErrCancelled) err
      else wrapACPErrCtx ctxErr err)"

definition attach_payload :: "structuredOutputCapture option \<Rightarrow> PromptResult \<Rightarrow>
    PromptResult \<times> structuredOutputCapture option" where
  "attach_payload capture result =
     (case capture of
        None \<Rightarrow> (result, None)
      | Some c \<Rightarrow>
          (case capture_drain c of
             (None, c') \<Rightarrow> (result, Some c')
           | (Some payload, c') \<Rightarrow>
               (result\<lparr>res_Meta := Some (amap_put structuredOutputMetaKey (JObj payload)
                   (case res_Meta result of None \<Rightarrow> [] | Some m \<Rightarrow> m))\<rparr>, Some c')))"

definition prompt_finish :: "'w cfg \<Rightarrow> goerr option \<Rightarrow> rat \<Rightarrow> PromptLabels \<Rightarrow> goerr + PromptResult \<Rightarrow>
    structuredOutputCapture option \<Rightarrow> 'w session \<times> 'w henv \<Rightarrow>
    (goerr + PromptResult) \<times> structuredOutputCapture option \<times> ('w session \<times> 'w henv)" where
  "prompt_finish cfg ctxErr d labels resp capture se =
     (case resp of
        Inl err \<Rightarrow>
          (let promptErr = prompt_error ctxErr (s_cancelIntended (fst se)) err;
               s1 = (fst se)\<lparr>s_cancelIntended := False\<rparr>
           in (Inl promptErr, capture, (s1, fireTurnComplete cfg None (Some promptErr) s1 (snd se))))
      | Inr r \<Rightarrow>
          (let e1 = on_obs (RecordPrompt d (res_StopReason r) (tokensFromUsage (res_Usage r)) labels) (snd se)
           in case attach_payload capture r of
                (result, capture') \<Rightarrow>
                  (Inr result, capture',
                    (fst se, fireTurnComplete cfg (Some result) None (fst se) e1))))"

definition RunCommand_text :: "string \<Rightarrow> string list \<Rightarrow> goerr + string" where
  "RunCommand_text name args =
     (if name = [] then Inl (ENew ''opencodesdk: RunCommand requires a non-empty command name'')
      else let cmd = (if args = [] then name else name @ '' '' @ join_with '' '' args)
           in Inr (if has_prefix cmd [slash] then cmd else slash # cmd))"

section \<open>Configuration\<close>

definition setConfigOption :: "'w cfg \<Rightarrow> string \<Rightarrow> json \<Rightarrow> 'w session \<times> 'w henv \<Rightarrow>
    goerr option \<times> ('w session \<times> 'w henv)" where
  "setConfigOption cfg configID value se =
     (case on_world (cf_rpcSetConfig cfg (s_id (fst se)) configID value) (snd se) of
        (r, e') \<Rightarrow> (map_option wrapACPErr r, (fst se, e')))"

definition SetModel :: "'w cfg \<Rightarrow> string \<Rightarrow> 'w session \<times> 'w henv \<Rightarrow> goerr option \<times> ('w session \<times> 'w henv)" where
  "SetModel cfg modelID se =
     (case setConfigOption cfg ''model'' (JStr modelID) se of
        (Some err, se') \<Rightarrow> (Some err, se')
      | (None, (s, e)) \<Rightarrow> (None, (s\<lparr>s_currentModel := modelID\<rparr>, e)))"

definition SetMode :: "'w cfg \<Rightarrow> string \<Rightarrow> 'w session \<times> 'w henv \<Rightarrow> goerr option \<times> ('w session \<times> 'w henv)" where
  "SetMode cfg modeID se =
     (case setConfigOption cfg ''mode'' (JStr modeID) se of
        (Some err, se') \<Rightarrow> (Some err, se')
      | (None, (s, e)) \<Rightarrow> (None, (s\<lparr>s_currentMode := modeID\<rparr>, e)))"

definition SetConfigOption :: "'w cfg \<Rightarrow> string \<Rightarrow> string \<Rightarrow> 'w session \<times> 'w henv \<Rightarrow>
    goerr option \<times> ('w session \<times> 'w henv)" where
  "SetConfigOption cfg configID value se =
     (case setConfigOption cfg configID (JStr value) se of
        (Some err, se') \<Rightarrow> (Some err, se')
      | (None, (s, e)) \<Rightarrow>
          (None, (if configID = ''model'' then s\<lparr>s_currentModel := value\<rparr>
                  else if configID = ''mode'' then s\<lparr>s_currentMode := value\<rparr> else s, e)))"

definition SetConfigOptionBool :: "'w cfg \<Rightarrow> string \<Rightarrow> bool \<Rightarrow> 'w session \<times> 'w henv \<Rightarrow>
    goerr option \<times> ('w session \<times> 'w henv)" where
  "SetConfigOptionBool cfg configID value se = setConfigOption cfg configID (JBool value) se"

section \<open>What each operation leaves alone\<close>

text \<open>The part of the session that delivery, close and receive work on.\<close>

definition core :: "'w session \<Rightarrow> SessionNotification chan \<times> bool \<times> int" where
  "core s = (s_updates s, s_closed s, s_dropped s)"

named_theorems session_frame

lemma emit_core [session_frame]: "core (fst (emitToolCallTerminal t1 i n k st se)) = core (fst se)"
  by (simp add: emitToolCallTerminal_def core_def split: prod.splits option.splits)

lemma observe_core [session_frame]: "core (fst (observeInLock cfg t0 t1 u se)) = core (fst se)"
proof -
  have "core (s\<lparr>s_toolCallStart := x\<rparr>) = core s" "core (s\<lparr>s_commands := y\<rparr>) = core s" for s :: "'a session" and x y
    by (simp_all add: core_def)
  then show ?thesis
    by (simp add: observeInLock_def Let_def emit_core split: prod.splits option.splits)
qed

lemma Cancel_core [session_frame]: "core (fst (snd (Cancel cfg se))) = core (fst se)"
  by (simp add: Cancel_def core_def split: prod.splits)

lemma run_subscriber_core [session_frame]: "core (fst (run_subscriber cfg u h se)) = core (fst se)"
  using Cancel_core [of cfg] by (simp add: run_subscriber_def split: option.splits prod.splits)

lemma dispatchSubscribers_core [session_frame]:
  "core (fst (dispatchSubscribers cfg subs u se)) = core (fst se)"
  by (induction subs arbitrary: se) (simp_all add: dispatchSubscribers_def run_subscriber_core)

lemma Subscribe_core [session_frame]: "core (snd (Subscribe h s)) = core s"
  by (simp add: Subscribe_def core_def Let_def)

lemma unsubscribe_core [session_frame]: "core (unsubscribe i s) = core s"
  by (simp add: unsubscribe_def core_def)

lemma setResolvedVariant_core [session_frame]: "core (setResolvedVariant v s) = core s"
  by (simp add: setResolvedVariant_def core_def split: option.splits)

lemma setConfigOption_session: "fst (snd (setConfigOption cfg c v se)) = fst se"
  by (simp add: setConfigOption_def split: prod.splits)

lemma config_core [session_frame]:
  "core (fst (snd (SetModel cfg m se))) = core (fst se)"
  "core (fst (snd (SetMode cfg m se))) = core (fst se)"
  "core (fst (snd (SetConfigOption cfg c m se))) = core (fst se)"
  "core (fst (snd (SetConfigOptionBool cfg c b se))) = core (fst se)"
  using setConfigOption_session [of cfg _ _ se]
  by (auto simp: SetModel_def SetMode_def SetConfigOption_def SetConfigOptionBool_def core_def
      split: prod.splits option.splits) (metis fst_conv snd_conv)+

lemma prompt_core [session_frame]:
  "core (fst (snd (prompt_prepare cfg bs se))) = core (fst se)"
  "core (fst (snd (snd (prompt_finish cfg x d l r cap se)))) = core (fst se)"
  by (auto simp: prompt_prepare_def prompt_finish_def core_def Let_def
      split: prod.splits option.splits sum.splits)

section \<open>Concurrent delivery\<close>

text \<open>
  Several goroutines deliver to one session (the dispatcher, and the caller that flushes buffered
  notifications), while others close it, receive from its channel and call its methods. A thread
  between the two critical sections is a pair of its notification and the subscribers it has not
  called yet. Every rule is one critical section, one subscriber call, or any other operation on the
  session (\<open>other\<close>): such an operation keeps the core, which is what the lemmas above show of each
  of them. The fields \<open>y_started\<close> to \<open>y_lost\<close> record the history.
\<close>

record 'w sys =
  y_se :: "'w session \<times> 'w henv"
  y_threads :: "(SessionNotification \<times> 'w UpdateHandlers list) list"
  y_started :: "SessionNotification list"
  y_sent :: "SessionNotification list"
  y_received :: "SessionNotification list"
  y_dropped :: "SessionNotification list"
  y_lost :: "SessionNotification list"

datatype 'w sstate = Running "'w sys" | Crashed

definition send_result_of :: "'w sys \<Rightarrow> SessionNotification \<Rightarrow> ('w session \<times> 'w henv) option \<Rightarrow>
    (SessionNotification \<times> 'w UpdateHandlers list) list \<Rightarrow> 'w sstate" where
  "send_result_of y n r ts =
     (case r of
        None \<Rightarrow> Crashed
      | Some se' \<Rightarrow>
          (let y1 = y\<lparr>y_se := se', y_threads := ts\<rparr>
           in if s_closed (fst (y_se y)) then Running (y1\<lparr>y_lost := y_lost y @ [n]\<rparr>)
              else if s_dropped (fst se') = s_dropped (fst (y_se y))
              then Running (y1\<lparr>y_sent := y_sent y @ [n]\<rparr>)
              else Running (y1\<lparr>y_dropped := y_dropped y @ [n]\<rparr>)))"

inductive sess_step :: "'w cfg \<Rightarrow> 'w sstate \<Rightarrow> 'w sstate \<Rightarrow> bool" for cfg where
  start: "deliver_first cfg t0 t1 n (y_se y) = (Some subs, se') \<Longrightarrow>
    sess_step cfg (Running y) (Running (y\<lparr>y_se := se', y_threads := (n, subs) # y_threads y,
      y_started := y_started y @ [n]\<rparr>))"
| call: "y_threads y = ts @ (n, h # hs) # ts' \<Longrightarrow>
    sess_step cfg (Running y) (Running (y\<lparr>y_se := run_subscriber cfg (sn_Update n) h (y_se y),
      y_threads := ts @ (n, hs) # ts'\<rparr>))"
| send: "y_threads y = ts @ (n, []) # ts' \<Longrightarrow>
    sess_step cfg (Running y) (send_result_of y n (deliver_send cfg n (y_se y)) (ts @ ts'))"
| close: "close_session (fst (y_se y)) = Some s' \<Longrightarrow>
    sess_step cfg (Running y) (Running (y\<lparr>y_se := (s', snd (y_se y))\<rparr>))"
| close_panic: "close_session (fst (y_se y)) = None \<Longrightarrow> sess_step cfg (Running y) Crashed"
| recv: "chan_try_recv (s_updates (fst (y_se y))) = Some (Some n, ch) \<Longrightarrow>
    sess_step cfg (Running y) (Running (y\<lparr>y_se := ((fst (y_se y))\<lparr>s_updates := ch\<rparr>, snd (y_se y)),
      y_received := y_received y @ [n]\<rparr>))"
| other: "core (fst se') = core (fst (y_se y)) \<Longrightarrow>
    sess_step cfg (Running y) (Running (y\<lparr>y_se := se'\<rparr>))"

inductive_cases sess_step_cases [elim!]: "sess_step cfg (Running y) st"
inductive_simps sess_step_crashed [simp]: "sess_step cfg Crashed st"

definition sess_start :: "'w session \<times> 'w henv \<Rightarrow> 'w sstate" where
  "sess_start se = Running \<lparr>y_se = se, y_threads = [], y_started = [], y_sent = [], y_received = [],
     y_dropped = [], y_lost = []\<rparr>"

definition fresh_session :: "'w session \<Rightarrow> bool" where
  "fresh_session s \<longleftrightarrow> \<not> s_closed s \<and> \<not> ch_closed (s_updates s) \<and> ch_buf (s_updates s) = [] \<and> s_dropped s = 0"

fun sess_inv :: "nat \<Rightarrow> 'w sstate \<Rightarrow> bool" where
  "sess_inv cap Crashed = False"
| "sess_inv cap (Running y) =
     (ch_closed (s_updates (fst (y_se y))) = s_closed (fst (y_se y)) \<and>
      ch_cap (s_updates (fst (y_se y))) = cap \<and> chan_inv (s_updates (fst (y_se y))) \<and>
      y_received y @ ch_buf (s_updates (fst (y_se y))) = y_sent y \<and>
      s_dropped (fst (y_se y)) = int (length (y_dropped y)) \<and>
      mset (y_started y) = mset (map fst (y_threads y)) + mset (y_sent y) + mset (y_dropped y) + mset (y_lost y))"

lemma core_eq: "core s' = core s \<longleftrightarrow> s_updates s' = s_updates s \<and> s_closed s' = s_closed s \<and> s_dropped s' = s_dropped s"
  by (auto simp: core_def)

lemma deliver_first_core: "deliver_first cfg t0 t1 n se = (r, se') \<Longrightarrow> core (fst se') = core (fst se)"
  using observe_core [of cfg t0 t1 "sn_Update n" se]
  by (auto simp: deliver_first_def Let_def split: if_splits)

text \<open>The three outcomes of the second critical section, when the channel is closed iff the session is.\<close>

lemma deliver_send_cases:
  assumes "ch_closed (s_updates (fst se)) = s_closed (fst se)"
  obtains (closed) "s_closed (fst se)" "deliver_send cfg n se = Some se"
  | (sent) ch e where "\<not> s_closed (fst se)" "chan_try_send n (s_updates (fst se)) = Sent ch"
      "deliver_send cfg n se = Some ((fst se)\<lparr>s_updates := ch\<rparr>, e)"
  | (full) e where "\<not> s_closed (fst se)" "chan_try_send n (s_updates (fst se)) = Full"
      "deliver_send cfg n se = Some ((fst se)\<lparr>s_dropped := s_dropped (fst se) + 1\<rparr>, e)"
proof (cases se)
  case (Pair s e)
  show ?thesis
  proof (cases "s_closed s")
    case True
    with Pair show ?thesis by (intro closed) (simp_all add: deliver_send_def)
  next
    case False
    show ?thesis
    proof (cases "chan_try_send n (s_updates s)")
      case (Sent ch)
      with False Pair show ?thesis by (intro sent [of ch e]) (simp_all add: deliver_send_def)
    next
      case Full
      with False Pair show ?thesis by (intro full) (simp_all add: deliver_send_def Let_def)
    next
      case SendPanic
      with False Pair assms show ?thesis by (simp add: ch.panic_iff)
    qed
  qed
qed

lemma chan_sent:
  "chan_try_send n c = Sent c' \<Longrightarrow> ch_buf c' = ch_buf c @ [n] \<and> ch_cap c' = ch_cap c \<and>
     ch_closed c' = ch_closed c \<and> chan_inv c'"
  by (auto simp: chan_try_send_def chan_inv_def split: if_splits)

lemma chan_received:
  "chan_try_recv c = Some (Some n, c') \<Longrightarrow> ch_buf c = n # ch_buf c' \<and> ch_cap c' = ch_cap c \<and>
     ch_closed c' = ch_closed c \<and> (chan_inv c \<longrightarrow> chan_inv c')"
  by (auto simp: chan_try_recv_def chan_inv_def split: list.splits if_splits)

lemma close_session_open:
  "ch_closed (s_updates s) = s_closed s \<Longrightarrow> \<exists>s'. close_session s = Some s' \<and> s_closed s' \<and>
     s_updates s' = (s_updates s)\<lparr>ch_closed := True\<rparr> \<and> s_dropped s' = s_dropped s"
  by (cases "s_updates s") (auto simp: close_session_def chan_close_def)

lemma sess_inv_send:
  assumes "sess_inv cap (Running y)" "y_threads y = ts @ (n, []) # ts'"
  shows "sess_inv cap (send_result_of y n (deliver_send cfg n (y_se y)) (ts @ ts'))"
proof -
  have "ch_closed (s_updates (fst (y_se y))) = s_closed (fst (y_se y))" using assms(1) by simp
  then show ?thesis
  proof (cases rule: deliver_send_cases [where cfg = cfg and n = n])
    case closed
    with assms show ?thesis by (simp add: send_result_of_def)
  next
    case (sent ch e)
    with assms chan_sent [OF sent(2)] show ?thesis by (simp add: send_result_of_def)
  next
    case (full e)
    with assms show ?thesis by (simp add: send_result_of_def)
  qed
qed

lemma sess_inv_step: "sess_step cfg st st' \<Longrightarrow> sess_inv cap st \<Longrightarrow> sess_inv cap st'"
proof (induction rule: sess_step.induct)
  case (start t0 t1 n y subs se')
  then show ?case using deliver_first_core [of cfg t0 t1 n "y_se y"] by (simp add: core_eq)
next
  case (call y ts n h hs ts')
  then show ?case using run_subscriber_core [of cfg "sn_Update n" h "y_se y"] by (simp add: core_eq)
next
  case (send y ts n ts')
  then show ?case by (rule sess_inv_send [rotated])
next
  case (close y s')
  then show ?case using close_session_open [of "fst (y_se y)"] by (auto simp: chan_inv_def)
next
  case (close_panic y)
  then show ?case using close_session_open [of "fst (y_se y)"] by auto
next
  case (recv y n ch)
  then show ?case using chan_received [OF recv(1)] by auto
next
  case (other se' y)
  then show ?case by (simp add: core_eq)
qed

lemma sess_inv_reachable:
  assumes "(sess_step cfg)\<^sup>*\<^sup>* (sess_start se) st" "fresh_session (fst se)"
  shows "sess_inv (ch_cap (s_updates (fst se))) st"
  using assms(1)
proof (induction rule: rtranclp_induct)
  case base
  then show ?case using assms(2) by (simp add: sess_start_def fresh_session_def chan_inv_def)
next
  case (step st st')
  then show ?case using sess_inv_step by blast
qed

lemma fresh_new_session: "fresh_session (new_session sid models modes opts meta n)"
  by (simp add: fresh_session_def new_session_def chan_new_def Let_def)

text \<open>
  C14: No send on a closed channel, and no double close: whatever deliveries, subscriber calls,
  closes, receives and other operations interleave on a new session, no goroutine ever sends on
  the closed updates channel or closes it a second time (both panic in Go).
\<close>

theorem no_send_on_closed:
  "\<not> (sess_step cfg)\<^sup>*\<^sup>* (sess_start (new_session sid models modes opts meta n, e)) Crashed"
  using sess_inv_reachable [of cfg "(new_session sid models modes opts meta n, e)" Crashed]
    fresh_new_session [of sid models modes opts meta n]
  by auto

text \<open>
  C3: Delivery conserves notifications and keeps their order. In every reachable state of a
  session the notifications received so far followed by those queued are exactly the ones that were
  accepted, in the order of acceptance; the queue never exceeds the buffer size (128 when the
  option is not positive); and every notification whose delivery began is accepted, still in
  flight, dropped because the buffer was full (the drop counter counts exactly these), or arrived
  after the close.
\<close>

theorem delivery_conserves:
  assumes "(sess_step cfg)\<^sup>*\<^sup>* (sess_start (new_session sid models modes opts meta n, e)) (Running y)"
  shows "y_received y @ ch_buf (s_updates (fst (y_se y))) = y_sent y \<and>
    length (ch_buf (s_updates (fst (y_se y)))) \<le> (if n \<le> 0 then 128 else nat n) \<and>
    s_dropped (fst (y_se y)) = int (length (y_dropped y)) \<and>
    mset (y_started y) = mset (map fst (y_threads y)) + mset (y_sent y) + mset (y_dropped y) + mset (y_lost y)"
  using sess_inv_reachable [OF assms] fresh_new_session [of sid models modes opts meta n]
  by (auto simp: chan_inv_def new_session_def chan_new_def Let_def)

definition demo_cfg :: "nat cfg" where
  "demo_cfg = \<lparr>cf_hooks = None, cf_user = [],
     cf_caps = \<lparr>ac_Prompt = \<lparr>pc_Image = False, pc_Audio = False, pc_EmbeddedContext = False\<rparr>,
       ac_McpHttp = True, ac_McpSse = False, ac_AdditionalDirectories = False\<rparr>,
     cf_outputSchema = None, cf_marshal = (\<lambda>_. Inr []), cf_onUpdateDropped = None,
     cf_onTurnComplete = None, cf_rpcCancel = (\<lambda>_ w. (None, w + 100)),
     cf_rpcSetConfig = (\<lambda>_ _ _ w. (None, w))\<rparr>"

definition demo_session :: "nat session" where
  "demo_session = new_session ''s1'' None None JNull None 1"

definition demo_note :: SessionNotification where
  "demo_note = \<lparr>sn_SessionId = ''s1'', sn_Update = no_update, sn_Meta = None\<rparr>"

theorem delivery_conserves_witness:
  "\<exists>y. (sess_step demo_cfg)\<^sup>*\<^sup>* (sess_start (demo_session, demo_env)) (Running y) \<and>
     y_threads y \<noteq> [] \<and> mset (y_started y) = mset (map fst (y_threads y)) + mset (y_sent y) +
       mset (y_dropped y) + mset (y_lost y)"
proof -
  define y where "y = \<lparr>y_se = (demo_session, demo_env), y_threads = [], y_started = [], y_sent = [],
     y_received = [], y_dropped = [], y_lost = []\<rparr>"
  have "deliver_first demo_cfg 0 0 demo_note (y_se y) = (Some [], (demo_session, demo_env))"
    by (simp add: y_def deliver_first_def demo_session_def new_session_def observeInLock_def demo_note_def
        no_update_def Let_def)
  from sess_step.start [OF this]
  have r: "(sess_step demo_cfg)\<^sup>*\<^sup>* (sess_start (demo_session, demo_env))
      (Running (y\<lparr>y_se := (demo_session, demo_env), y_threads := (demo_note, []) # y_threads y,
        y_started := y_started y @ [demo_note]\<rparr>))"
    by (simp add: sess_start_def y_def)
  from delivery_conserves [OF r [unfolded demo_session_def]] r show ?thesis
    by (intro exI [of _ "y\<lparr>y_se := (demo_session, demo_env), y_threads := (demo_note, []) # y_threads y,
        y_started := y_started y @ [demo_note]\<rparr>"]) simp
qed

section \<open>Tool calls\<close>

text \<open>The terminal and the opening event a notification means for the tool-call table.\<close>

definition table_effect :: "SessionUpdate \<Rightarrow> (string \<times> bool) option" where
  "table_effect u =
     (if su_AvailableCommandsUpdate u \<noteq> None then None
      else case su_ToolCall u of
        Some tc \<Rightarrow> Some (tc_ToolCallId tc, isTerminalToolCallStatus (tc_Status tc))
      | None \<Rightarrow>
          (case su_ToolCallUpdate u of
             None \<Rightarrow> None
           | Some tcu \<Rightarrow>
               (case tcu_Status tcu of
                  Some st \<Rightarrow> if isTerminalToolCallStatus st then Some (tcu_ToolCallId tcu, True) else None
                | None \<Rightarrow> None)))"

fun live_calls :: "SessionUpdate list \<Rightarrow> string set \<Rightarrow> string set" where
  "live_calls [] L = L"
| "live_calls (u # us) L = live_calls us
     (case table_effect u of
        None \<Rightarrow> L | Some (i, True) \<Rightarrow> L - {i} | Some (i, False) \<Rightarrow> insert i L)"

definition terminal_count :: "SessionUpdate list \<Rightarrow> nat" where
  "terminal_count us = length (filter (\<lambda>u. \<exists>i. table_effect u = Some (i, True)) us)"

lemma notify_hook_snd [simp]:
  "he_obs (notify_hook d ev p inp e) = he_obs e" "he_os (notify_hook d ev p inp e) = he_os e"
  by (simp_all add: notify_hook_def)

lemma fire_tool_hooks_obs [simp]:
  "he_obs (fireHookPreToolUse cfg sid tc e) = he_obs e"
  "he_obs (fireHookPostToolUseFromToolCall cfg sid tc e) = he_obs e"
  "he_obs (fireHookPostToolUseFromUpdate cfg sid tcu e) = he_obs e"
  by (simp_all add: fireHookPreToolUse_def fireHookPostToolUseFromToolCall_def
      fireHookPostToolUseFromUpdate_def Let_def split: option.splits)

lemma emit_effect:
  "dom (map_of (s_toolCallStart (fst (emitToolCallTerminal t1 i n k st se)))) =
     dom (map_of (s_toolCallStart (fst se))) - {i}"
  "total toolCallCount (he_obs (snd (emitToolCallTerminal t1 i n k st se))) =
     total toolCallCount (he_obs (snd se)) + 1"
  by (auto simp: emitToolCallTerminal_def total_RecordToolCall_count am.get_del domIff
      split: prod.splits option.splits if_splits)

lemma observe_effect:
  "dom (map_of (s_toolCallStart (fst (observeInLock cfg t0 t1 u se)))) =
     (case table_effect u of
        None \<Rightarrow> dom (map_of (s_toolCallStart (fst se)))
      | Some (i, True) \<Rightarrow> dom (map_of (s_toolCallStart (fst se))) - {i}
      | Some (i, False) \<Rightarrow> insert i (dom (map_of (s_toolCallStart (fst se)))))"
  "total toolCallCount (he_obs (snd (observeInLock cfg t0 t1 u se))) =
     total toolCallCount (he_obs (snd se)) + (if \<exists>i. table_effect u = Some (i, True) then 1 else 0)"
  by (auto simp: observeInLock_def table_effect_def Let_def emit_effect total_RecordCost
      split: prod.splits option.splits if_splits bool.splits)

text \<open>
  C13: The tool-call table holds exactly the calls in flight, and every terminal notification is
  measured exactly once: after any sequence of notifications the ids in the table are those whose
  last tool-call event announced them without a terminal status, and the tool-call counter grew by
  the number of terminal notifications (a terminal update for an unknown call, and a call announced
  in a terminal state, included). So calls that finish leave nothing behind.
\<close>

theorem tool_call_lifecycle:
  "dom (map_of (s_toolCallStart (fst (fold (observeInLock cfg t0 t1) us se)))) =
     live_calls us (dom (map_of (s_toolCallStart (fst se)))) \<and>
   total toolCallCount (he_obs (snd (fold (observeInLock cfg t0 t1) us se))) =
     total toolCallCount (he_obs (snd se)) + of_nat (terminal_count us)"
proof (induction us arbitrary: se)
  case Nil
  then show ?case by (simp add: terminal_count_def)
next
  case (Cons u us)
  from Cons.IH [of "observeInLock cfg t0 t1 u se"] show ?case
    by (auto simp: observe_effect terminal_count_def)
qed

definition announce :: "ToolCall \<Rightarrow> SessionUpdate" where
  "announce tc = no_update\<lparr>su_ToolCall := Some tc\<rparr>"

definition finish :: "string \<Rightarrow> ToolCallStatus \<Rightarrow> SessionUpdate" where
  "finish i st = no_update\<lparr>su_ToolCallUpdate := Some \<lparr>tcu_ToolCallId = i, tcu_Title = None,
     tcu_Kind = None, tcu_Status = Some st, tcu_Payload = JNull\<rparr>\<rparr>"

text \<open>
  The duration of a tool call is measured from its announcement to its terminal update, and
  the measurement carries the announced title and kind when the update repeats neither; after it
  the table is as before the announcement (when the id was not already in it).
\<close>

theorem tool_call_duration:
  assumes "\<not> isTerminalToolCallStatus (tc_Status tc)" "isTerminalToolCallStatus st"
    and "map_of (s_toolCallStart s) (tc_ToolCallId tc) = None"
  shows "he_obs (snd (observeInLock cfg t2 t3 (finish (tc_ToolCallId tc) st)
      (observeInLock cfg t0 t1 (announce tc) (s, e)))) =
    RecordToolCall (tc_Title tc) (tc_Kind tc) (status_text st) (t3 - t0) (he_obs e) \<and>
   map_of (s_toolCallStart (fst (observeInLock cfg t2 t3 (finish (tc_ToolCallId tc) st)
      (observeInLock cfg t0 t1 (announce tc) (s, e))))) = map_of (s_toolCallStart s)"
  using assms
  by (simp add: observeInLock_def announce_def finish_def no_update_def emitToolCallTerminal_def
      am.get_put Let_def str_or_def fun_upd_idem)

definition usage_total :: "rat \<Rightarrow> SessionUpdate" where
  "usage_total c = no_update\<lparr>su_UsageUpdate := Some \<lparr>uu_Cost = Some (c, ''USD''), uu_Size = 0, uu_Used = 0\<rparr>\<rparr>"

text \<open>
  The cost counter adds up amounts that are already cumulative: two usage updates of one
  session that report a total of 1 and then of 3 dollars leave the counter at 4, although the
  session has cost 3 (the cost tracker, which takes the same updates as cumulative, says 3).
\<close>

theorem cost_counter_overcounts:
  "total costUSD (he_obs (snd (fold (observeInLock cfg t0 t1) [usage_total 1, usage_total 3] (s, e)))) =
     total costUSD (he_obs e) + 4"
  by (simp add: observeInLock_def usage_total_def no_update_def total_RecordCost)

section \<open>A turn limit\<close>

record turnCounter =
  tn_lastMsgID :: string
  tn_count :: int
  tn_cancelled :: bool
  tn_fallbackNoID :: bool

definition newTurnCounter :: turnCounter where
  "newTurnCounter = \<lparr>tn_lastMsgID = [], tn_count = 0, tn_cancelled = False, tn_fallbackNoID = False\<rparr>"

definition is_new_message :: "Chunk \<Rightarrow> turnCounter \<Rightarrow> bool \<times> turnCounter" where
  "is_new_message chunk t =
     (case ck_MessageId chunk of
        Some i \<Rightarrow>
          if i \<noteq> [] then (if i \<noteq> tn_lastMsgID t then (True, t\<lparr>tn_lastMsgID := i\<rparr>) else (False, t))
          else (True, t\<lparr>tn_fallbackNoID := True\<rparr>)
      | None \<Rightarrow> (True, t\<lparr>tn_fallbackNoID := True\<rparr>))"

text \<open>The \<open>AgentMessage\<close> handler: whether it cancels, and the counter afterwards.\<close>

definition maxTurns_handler :: "int \<Rightarrow> Chunk \<Rightarrow> turnCounter \<Rightarrow> bool \<times> turnCounter" where
  "maxTurns_handler limit chunk t =
     (case is_new_message chunk t of
        (False, t1) \<Rightarrow> (False, t1)
      | (True, t1) \<Rightarrow>
          (let n = tn_count t1 + 1; t2 = t1\<lparr>tn_count := n\<rparr>
           in if n < limit then (False, t2)
              else if tn_cancelled t2 then (False, t2)
              else (True, t2\<lparr>tn_cancelled := True\<rparr>)))"

definition attachMaxTurns :: "('w \<Rightarrow> turnCounter) \<Rightarrow> (turnCounter \<Rightarrow> 'w \<Rightarrow> 'w) \<Rightarrow> int \<Rightarrow> 'w session \<Rightarrow> 'w session" where
  "attachMaxTurns getc putc limit s =
     (if limit \<le> 0 then s
      else snd (Subscribe (no_handlers\<lparr>uh_AgentMessage :=
        Some (\<lambda>chunk w. case maxTurns_handler limit chunk (getc w) of (b, t) \<Rightarrow> (b, putc t w))\<rparr>) s))"

fun turn_run :: "int \<Rightarrow> Chunk list \<Rightarrow> turnCounter \<Rightarrow> bool list" where
  "turn_run limit [] t = []"
| "turn_run limit (c # cs) t =
     (case maxTurns_handler limit c t of (b, t') \<Rightarrow> b # turn_run limit cs t')"

text \<open>
  The specification: a chunk starts a message when it has no id, or an id other than that of the
  last chunk with one.
\<close>

fun starts :: "string \<Rightarrow> Chunk list \<Rightarrow> bool list" where
  "starts prev [] = []"
| "starts prev (c # cs) =
     (let i = str_or (ck_MessageId c)
      in if i = [] then True # starts prev cs else (i \<noteq> prev) # starts i cs)"

definition nth_start :: "int \<Rightarrow> bool list \<Rightarrow> bool list" where
  "nth_start limit bs = map (\<lambda>i. bs ! i \<and> int (count_list (take (Suc i) bs) True) = limit) [0..<length bs]"

lemma nth_start_Cons:
  "nth_start limit (b # bs) = (b \<and> limit = 1) # nth_start (if b then limit - 1 else limit) bs"
proof -
  have "[0..<length (b # bs)] = 0 # map Suc [0..<length bs]"
    by (simp add: upt_conv_Cons map_Suc_upt del: upt_Suc)
  then show ?thesis by (auto simp: nth_start_def simp del: upt_Suc)
qed

lemma nth_start_none: "limit \<le> 0 \<Longrightarrow> nth_start limit bs = replicate (length bs) False"
  by (induction bs arbitrary: limit) (auto simp: nth_start_Cons, simp add: nth_start_def)

lemma turn_run_spec:
  "turn_run limit cs t =
     (if tn_cancelled t then replicate (length cs) False
      else nth_start (max 1 (limit - tn_count t)) (starts (tn_lastMsgID t) cs))"
proof (induction cs arbitrary: t)
  case Nil
  then show ?case by (simp add: nth_start_def)
next
  case (Cons c cs)
  have len: "length (starts p xs) = length xs" for p xs
    by (induction p xs rule: starts.induct) (auto simp: Let_def)
  show ?case
    using Cons.IH
    by (auto simp: maxTurns_handler_def is_new_message_def Let_def str_or_def nth_start_Cons nth_start_none len
        max_def diff_diff_eq split: option.splits)
qed

text \<open>
  \<open>WithMaxTurns\<close> cancels exactly once, at the chunk that starts the \<open>limit\<close>-th message: for a
  positive limit the handler asks for the cancellation at the chunk that is the \<open>limit\<close>-th message
  start of the stream and at no other, so a stream with fewer messages is never cancelled and the
  chunks that continue a message do not count.
\<close>

theorem max_turns_cancels_once:
  assumes "limit > 0"
  shows "turn_run limit cs newTurnCounter = nth_start limit (starts [] cs)"
  using assms by (simp add: turn_run_spec newTurnCounter_def max_def)

definition msg_chunk :: "string \<Rightarrow> Chunk" where
  "msg_chunk i = \<lparr>ck_Content = no_block, ck_MessageId = Some i\<rparr>"

theorem max_turns_cancels_once_witness:
  "turn_run 2 [msg_chunk ''a'', msg_chunk ''a'', msg_chunk ''b'', msg_chunk ''c''] newTurnCounter =
     [False, False, True, False]"
proof -
  have "turn_run 2 [msg_chunk ''a'', msg_chunk ''a'', msg_chunk ''b'', msg_chunk ''c''] newTurnCounter =
    nth_start 2 (starts [] [msg_chunk ''a'', msg_chunk ''a'', msg_chunk ''b'', msg_chunk ''c''])"
    by (rule max_turns_cancels_once) simp
  also have "\<dots> = [False, False, True, False]" by code_simp
  finally show ?thesis .
qed

text \<open>
  What is counted are message starts, not distinct message ids, although the documentation
  says that each distinct id counts once: with a limit of 3, chunks of only two messages that
  interleave are cancelled; and a chunk without an id in the middle of a message is counted as
  well, although the code means not to mix the two countings.
\<close>

theorem max_turns_counts_interleaved_messages:
  "turn_run 3 [msg_chunk ''a'', msg_chunk ''b'', msg_chunk ''a''] newTurnCounter = [False, False, True] \<and>
   turn_run 2 [msg_chunk ''a'', msg_chunk []] newTurnCounter = [False, True]"
  by code_simp

section \<open>A prompt turn\<close>

text \<open>
  \<open>Prompt\<close> as a whole. The RPC is a parameter that takes the shared state through the time the turn
  runs: other goroutines deliver, call \<open>Cancel\<close> and store structured output meanwhile.
\<close>

type_synonym 'w prompt_rpc =
  "string \<Rightarrow> ContentBlock list \<Rightarrow> structuredOutputCapture option \<times> ('w session \<times> 'w henv) \<Rightarrow>
   (goerr + PromptResult) \<times> structuredOutputCapture option \<times> ('w session \<times> 'w henv)"

definition Prompt :: "'w cfg \<Rightarrow> 'w prompt_rpc \<Rightarrow> goerr option \<Rightarrow> rat \<Rightarrow> ContentBlock list \<Rightarrow>
    structuredOutputCapture option \<Rightarrow> 'w session \<times> 'w henv \<Rightarrow>
    (goerr + PromptResult) \<times> structuredOutputCapture option \<times> ('w session \<times> 'w henv)" where
  "Prompt cfg rpc ctxErr d blocks capture se =
     (case prompt_prepare cfg blocks se of
        (Inl err, se') \<Rightarrow> (Inl err, capture, se')
      | (Inr (blocks', labels), (s1, e1)) \<Rightarrow>
          (case on_spans (StartPromptSpan (s_id s1) labels) e1 of
             (i, e2) \<Rightarrow>
               (case rpc (s_id s1) blocks' (capture, (s1, e2)) of
                  (resp, capture', se'') \<Rightarrow>
                    (case prompt_finish cfg ctxErr d labels resp capture' se'' of
                       (r, capture'', (s3, e3)) \<Rightarrow> (r, capture'', (s3, finish_span i e3))))))"

definition prompt_labels :: "'w cfg \<Rightarrow> 'w session \<Rightarrow> PromptLabels" where
  "prompt_labels cfg s = \<lparr>pl_Model = s_currentModel s, pl_Mode = s_currentMode s, pl_User = cf_user cfg\<rparr>"

text \<open>The environment in which the RPC runs, with the turn's span open.\<close>

definition turn_env :: "'w cfg \<Rightarrow> 'w session \<Rightarrow> 'w henv \<Rightarrow> 'w henv" where
  "turn_env cfg s e = snd (on_spans (StartPromptSpan (s_id s) (prompt_labels cfg s)) e)"

definition RunCommand :: "'w cfg \<Rightarrow> 'w prompt_rpc \<Rightarrow> goerr option \<Rightarrow> rat \<Rightarrow> string \<Rightarrow> string list \<Rightarrow>
    structuredOutputCapture option \<Rightarrow> 'w session \<times> 'w henv \<Rightarrow>
    (goerr + PromptResult) \<times> structuredOutputCapture option \<times> ('w session \<times> 'w henv)" where
  "RunCommand cfg rpc ctxErr d name args capture se =
     (case RunCommand_text name args of
        Inl err \<Rightarrow> (Inl err, capture, se)
      | Inr cmd \<Rightarrow> Prompt cfg rpc ctxErr d [text_block cmd] capture se)"

text \<open>The gate of a prompt.\<close>

definition prompt_blocks :: "'w cfg \<Rightarrow> ContentBlock list \<Rightarrow> ContentBlock list" where
  "prompt_blocks cfg blocks =
     (case cf_outputSchema cfg of
        None \<Rightarrow> blocks
      | Some schema \<Rightarrow> text_block (structuredOutputInstructionText (cf_marshal cfg) schema) # blocks)"

definition prompt_gate :: "'w cfg \<Rightarrow> ContentBlock list \<Rightarrow> 'w session \<times> 'w henv \<Rightarrow>
    (HookOutput \<times> goerr option) \<times> 'w henv" where
  "prompt_gate cfg blocks se =
     run_hook (cf_hooks cfg) HookEventUserPromptSubmit (extractPromptText (prompt_blocks cfg blocks))
       ((hook_input HookEventUserPromptSubmit (s_id (fst se)))
          \<lparr>hi_PromptText := extractPromptText (prompt_blocks cfg blocks)\<rparr>) (snd se)"

lemma run_hook_None [simp]: "run_hook None ev p inp e = ((HookAllow, None), e)"
  by (simp add: run_hook_def)

lemma prompt_prepare_unfold:
  assumes "blocks \<noteq> []" "checkPromptCapabilities (cf_caps cfg) blocks = None"
    and "prompt_gate cfg blocks se = ((out, hr), e1)"
  shows "prompt_prepare cfg blocks se =
    (case hr of
       Some hookErr \<Rightarrow> (Inl (errorf_w_w (ESent ErrHookRejected) hookErr), (fst se, e1))
     | None \<Rightarrow>
         if ho_Continue out
         then (Inr (prompt_blocks cfg blocks, \<lparr>pl_Model = s_currentModel (fst se),
                 pl_Mode = s_currentMode (fst se), pl_User = cf_user cfg\<rparr>),
               ((fst se)\<lparr>s_cancelIntended := False\<rparr>, e1))
         else (Inl (errorf_w_s (ESent ErrHookRejected)
                 (if ho_Reason out = [] then ''hook rejected prompt'' else ho_Reason out)), (fst se, e1)))"
proof -
  have "(if cf_hooks cfg = None then ((HookAllow, None), snd se)
      else run_hook (cf_hooks cfg) HookEventUserPromptSubmit (extractPromptText (prompt_blocks cfg blocks))
        ((hook_input HookEventUserPromptSubmit (s_id (fst se)))
          \<lparr>hi_PromptText := extractPromptText (prompt_blocks cfg blocks)\<rparr>) (snd se)) = ((out, hr), e1)"
    using assms(3) by (cases "cf_hooks cfg") (simp_all add: prompt_gate_def)
  then show ?thesis
    using assms(1,2)
    by (simp add: prompt_prepare_def prompt_blocks_def [symmetric] Let_def split: option.split)
qed

lemma prompt_prepare_rejects:
  "prompt_prepare cfg blocks se = (Inl err, se') \<Longrightarrow> fst se' = fst se \<and> he_obs (snd se') = he_obs (snd se)"
  by (auto simp: prompt_prepare_def Let_def split: if_splits option.splits prod.splits
      dest: run_hook_frame)

lemma prompt_gate_continue:
  "prompt_gate cfg blocks se = ((out, hr), e1) \<Longrightarrow> ho_Continue out \<Longrightarrow> hr = None"
  using hd.continue_no_error by (fastforce simp: prompt_gate_def run_hook_def split: prod.splits)

text \<open>
  A prompt that a hook blocks never reaches opencode. When the user_prompt_submit hooks do not
  all continue, the result is an error that is ErrHookRejected, the same whatever the RPC would do,
  the session is untouched, nothing is measured and the capture slot is kept.
\<close>

theorem blocked_prompt_not_sent:
  assumes "blocks \<noteq> []" "checkPromptCapabilities (cf_caps cfg) blocks = None"
    and "prompt_gate cfg blocks se = ((out, hr), e1)" "\<not> ho_Continue out"
  shows "\<exists>err. errors_is err ErrHookRejected \<and>
    (\<forall>rpc. Prompt cfg rpc ctxErr d blocks capture se = (Inl err, capture, (fst se, e1))) \<and>
    he_obs e1 = he_obs (snd se)"
proof -
  have "he_obs e1 = he_obs (snd se)"
    using assms(3) by (auto simp: prompt_gate_def dest: run_hook_frame)
  then show ?thesis
    using prompt_prepare_unfold [OF assms(1-3)] assms(4)
    by (cases hr) (auto simp: Prompt_def errorf_w_w_def errorf_w_s_def)
qed

definition prompt_blocker :: "nat hook_table" where
  "prompt_blocker = [(HookEventUserPromptSubmit, [plain_matcher 1 [counting_hook (HookBlock ''no'')]])]"

theorem blocked_prompt_not_sent_witness:
  "\<exists>err. errors_is err ErrHookRejected \<and>
     (\<forall>rpc. fst (Prompt (demo_cfg\<lparr>cf_hooks := Some prompt_blocker\<rparr>) rpc None 0 [text_block ''hi''] None
        (demo_session, demo_env)) = Inl err)"
proof -
  let ?cfg = "demo_cfg\<lparr>cf_hooks := Some prompt_blocker\<rparr>"
  have g: "prompt_gate ?cfg [text_block ''hi''] (demo_session, demo_env) =
      ((HookBlock ''no'', None), demo_env\<lparr>he_hooks := \<lparr>hs_fired = {}, hs_world = 1\<rparr>\<rparr>)"
    by (simp add: prompt_gate_def prompt_blocks_def run_hook_def dispatch_def matchers_for_def
        prompt_blocker_def plain_matcher_def matches_def counting_hook_def merge_out_def hook_deadline_def
        demo_cfg_def)
      (simp add: demo_env_def HookAllow_def HookBlock_def)
  have c: "checkPromptCapabilities (cf_caps ?cfg) [text_block ''hi''] = None"
    by (simp add: checkPromptCapabilities_def text_block_def no_block_def)
  from blocked_prompt_not_sent [OF _ c g, of None 0 None] show ?thesis by auto
qed

text \<open>A prompt that passes the gate is the RPC, in the turn's environment, and what is done with its result.\<close>

lemma Prompt_gated:
  assumes "prompt_gate cfg blocks (s, e) = ((out, hr), e1)" "ho_Continue out"
    and "blocks \<noteq> []" "checkPromptCapabilities (cf_caps cfg) blocks = None"
    and "rpc (s_id s) (prompt_blocks cfg blocks) (capture, (s\<lparr>s_cancelIntended := False\<rparr>, turn_env cfg s e1)) =
      (resp, capture', se')"
    and "prompt_finish cfg ctxErr d (prompt_labels cfg s) resp capture' se' = (r, capture'', (s3, e3))"
  shows "\<exists>e4. Prompt cfg rpc ctxErr d blocks capture (s, e) = (r, capture'', (s3, e4))"
proof -
  have p: "prompt_prepare cfg blocks (s, e) = (Inr (prompt_blocks cfg blocks, prompt_labels cfg s),
      (s\<lparr>s_cancelIntended := False\<rparr>, e1))"
    using prompt_prepare_unfold [OF assms(3,4,1)] assms(2) prompt_gate_continue [OF assms(1,2)]
    by (simp add: prompt_labels_def)
  obtain i where "on_spans (StartPromptSpan (s_id s) (prompt_labels cfg s)) e1 = (i, turn_env cfg s e1)"
    unfolding turn_env_def by (metis prod.collapse)
  then show ?thesis using p assms(5,6) by (simp add: Prompt_def)
qed

text \<open>
  How a failed turn is reported. When the session was cancelled while the turn ran, or the RPC
  failed with the context's cancellation, the caller gets ErrCancelled with the RPC's error still
  in the chain; otherwise the wrapped ACP error. A cancellation from before the prompt does not
  leak into it, and the flag is clear afterwards (PromptRun tells what a late watcher may still do to it).
\<close>

theorem prompt_failure_classified:
  assumes gate: "prompt_gate cfg blocks (s, e) = ((out, hr), e1)" "ho_Continue out"
    and ok: "blocks \<noteq> []" "checkPromptCapabilities (cf_caps cfg) blocks = None"
    and rpc: "rpc (s_id s) (prompt_blocks cfg blocks) (capture, (s\<lparr>s_cancelIntended := False\<rparr>, turn_env cfg s e1)) =
      (Inl err, capture', (s', e'))"
  shows "\<exists>err' e''. Prompt cfg rpc ctxErr d blocks capture (s, e) =
      (Inl err', capture', (s'\<lparr>s_cancelIntended := False\<rparr>, e'')) \<and>
    (if s_cancelIntended s' \<or> errors_is err CtxCanceled
     then errors_is err' ErrCancelled \<and> (\<forall>x. errors_is err x \<longrightarrow> errors_is err' x)
     else err' = wrapACPErrCtx ctxErr err)"
proof -
  define err' where "err' = prompt_error ctxErr (s_cancelIntended s') err"
  obtain e3 where "prompt_finish cfg ctxErr d (prompt_labels cfg s) (Inl err) capture' (s', e') =
      (Inl err', capture', (s'\<lparr>s_cancelIntended := False\<rparr>, e3))"
    by (simp add: prompt_finish_def err'_def Let_def)
  from Prompt_gated [OF gate ok, of rpc, OF rpc this] show ?thesis
    by (auto simp: err'_def prompt_error_def errorf_w_w_def)
qed

theorem prompt_failure_classified_witness:
  "\<exists>err'. fst (Prompt demo_cfg (\<lambda>_ _ (c, s, e). (Inl (ENew ''EOF''), c, snd (Cancel demo_cfg (s, e)))) None 0
      [text_block ''hi''] None (demo_session, demo_env)) = Inl err' \<and> errors_is err' ErrCancelled"
proof -
  have g: "prompt_gate demo_cfg [text_block ''hi''] (demo_session, demo_env) = ((HookAllow, None), demo_env)"
    by (simp add: prompt_gate_def demo_cfg_def)
  have c: "checkPromptCapabilities (cf_caps demo_cfg) [text_block ''hi''] = None"
    by (simp add: checkPromptCapabilities_def text_block_def no_block_def)
  obtain s' e' where sc: "snd (Cancel demo_cfg (demo_session\<lparr>s_cancelIntended := False\<rparr>,
      turn_env demo_cfg demo_session demo_env)) = (s', e')"
    by (metis prod.exhaust)
  moreover have "s_cancelIntended s'"
    using sc by (auto simp: Cancel_def split: prod.splits)
  ultimately show ?thesis
    using prompt_failure_classified [OF g _ _ c, of "\<lambda>_ _ (c, s, e). (Inl (ENew ''EOF''), c, snd (Cancel demo_cfg (s, e)))"
        None "ENew ''EOF''" None s' e' None 0]
    by (auto simp: HookAllow_def)
qed

text \<open>
  The turn-complete callback does not fire after every call of Prompt, although it is
  documented to: a prompt that is refused before the RPC (no blocks, a missing capability, a hook)
  returns without calling it, so the caller's world only sees the hooks.
\<close>

theorem refused_prompt_skips_turn_complete:
  "\<exists>err. Prompt (demo_cfg\<lparr>cf_onTurnComplete := Some (\<lambda>_ _ _ w. w + 1)\<rparr>) rpc ctxErr d
      [no_block\<lparr>cb_Image := Some ([], [])\<rparr>] capture (demo_session, demo_env) =
    (Inl err, capture, (demo_session, demo_env)) \<and> errors_is err ErrCapabilityUnavailable"
  by (simp add: Prompt_def prompt_prepare_def checkPromptCapabilities_def demo_cfg_def errorf_w_s_def)

text \<open>
  Structured output reaches the caller. When the tool stored a payload during a successful
  turn, the result of Prompt carries it under the SDK's meta key next to the agent's own entries,
  and \<open>DecodePromptResult\<close> returns what the caller's decoder makes of that payload; the slot is empty
  for the next turn. A turn without a payload returns the agent's result unchanged.
\<close>

theorem structured_output_delivered:
  assumes "prompt_gate cfg blocks (s, e) = ((out, hr), e1)" "ho_Continue out"
    and "blocks \<noteq> []" "checkPromptCapabilities (cf_caps cfg) blocks = None"
    and "rpc (s_id s) (prompt_blocks cfg blocks) (capture, (s\<lparr>s_cancelIntended := False\<rparr>, turn_env cfg s e1)) =
      (Inr r, Some c, se')"
    and "Prompt cfg rpc ctxErr d blocks capture (s, e) = (res, capture', se'')"
  shows "case soc_payload c of
      None \<Rightarrow> res = Inr r
    | Some p \<Rightarrow> (\<exists>r'. res = Inr r' \<and>
        fst (DecodePromptResult marshal unmarshal (Some r') ob) = convertStructured marshal unmarshal (JObj p) \<and>
        (\<forall>k. k \<noteq> structuredOutputMetaKey \<longrightarrow> meta_get (res_Meta r') k = meta_get (res_Meta r) k)) \<and>
        capture' = Some newStructuredOutputCapture"
proof -
  obtain s2 e2 where se': "se' = (s2, e2)" by (cases se')
  obtain e3 where "prompt_finish cfg ctxErr d (prompt_labels cfg s) (Inr r) (Some c) se' =
      (Inr (fst (attach_payload (Some c) r)), snd (attach_payload (Some c) r), (s2, e3))"
    by (cases "attach_payload (Some c) r") (simp add: prompt_finish_def se' Let_def)
  from Prompt_gated [OF assms(1-4) _ this, of rpc capture] assms(5,6)
  have res: "res = Inr (fst (attach_payload (Some c) r))" "capture' = snd (attach_payload (Some c) r)" by auto
  show ?thesis
  proof (cases "soc_payload c")
    case None
    with res show ?thesis by (simp add: attach_payload_def capture_drain_def)
  next
    case (Some p)
    let ?r' = "fst (attach_payload (Some c) r)"
    have m: "meta_get (res_Meta ?r') k = (if k = structuredOutputMetaKey then Some (JObj p) else meta_get (res_Meta r) k)" for k
      using Some by (auto simp: attach_payload_def capture_drain_def meta_get_def jget_def am.get_put
          split: option.splits)
    have "fst (DecodePromptResult marshal unmarshal (Some ?r') ob) = convertStructured marshal unmarshal (JObj p)"
      using m [of structuredOutputMetaKey] by (simp add: DecodePromptResult_def Let_def)
    moreover have "capture' = Some newStructuredOutputCapture"
      using res Some by (simp add: attach_payload_def capture_drain_def newStructuredOutputCapture_def)
    ultimately show ?thesis using Some res m by auto
  qed
qed

theorem structured_output_delivered_witness:
  "\<exists>r'. fst (Prompt demo_cfg (\<lambda>_ _ (c, se). (Inr \<lparr>res_StopReason = ''end_turn'', res_Usage = None, res_Meta = None\<rparr>,
       Some \<lparr>soc_payload = Some [(''x'', JNull)], soc_calls = 1\<rparr>, se)) None 0 [text_block ''hi''] None
       (demo_session, demo_env)) = Inr r' \<and>
     fst (DecodePromptResult (\<lambda>j. Inr ''json'') Inr (Some r') []) = Inr ''json''"
proof -
  let ?rpc = "\<lambda>_ _ (c, se). (Inr \<lparr>res_StopReason = ''end_turn'', res_Usage = None, res_Meta = None\<rparr>,
       Some \<lparr>soc_payload = Some [(''x'', JNull)], soc_calls = 1\<rparr>, se) :: (goerr + PromptResult) \<times>
       structuredOutputCapture option \<times> (nat session \<times> nat henv)"
  have g: "prompt_gate demo_cfg [text_block ''hi''] (demo_session, demo_env) = ((HookAllow, None), demo_env)"
    by (simp add: prompt_gate_def demo_cfg_def)
  have c: "checkPromptCapabilities (cf_caps demo_cfg) [text_block ''hi''] = None"
    by (simp add: checkPromptCapabilities_def text_block_def no_block_def)
  obtain res c' se' where p: "Prompt demo_cfg ?rpc None 0 [text_block ''hi''] None (demo_session, demo_env) = (res, c', se')"
    by (metis prod.exhaust)
  from structured_output_delivered [OF g _ _ c _ p, of _ _ _ "\<lambda>j. Inr ''json''" Inr "[]"]
  show ?thesis by (auto simp: p convertStructured_def)
qed

definition demo_call :: ToolCall where
  "demo_call = \<lparr>tc_ToolCallId = ''c1'', tc_Title = ''bash'', tc_Kind = ''execute'',
     tc_Status = ToolCallStatusPending, tc_Payload = JNull\<rparr>"

theorem tool_call_duration_witness:
  "he_obs (snd (observeInLock demo_cfg 5 6 (finish ''c1'' ToolCallStatusFailed)
      (observeInLock demo_cfg 1 1 (announce demo_call) (demo_session, demo_env)))) =
    RecordToolCall ''bash'' ''execute'' ''failed'' 5 (he_obs demo_env)"
  using tool_call_duration [of demo_call ToolCallStatusFailed demo_session demo_cfg 5 6 1 1 demo_env]
  by (simp add: demo_call_def isTerminalToolCallStatus_def demo_session_def new_session_def Let_def)
end
