(* ===== verification/Cost.thy ===== *)
theory Cost
  imports OsModel Interfaces Acp
begin

text \<open>
  The cost tracker (\<open>cost_tracker.go\<close>): per-session cumulative usage, the aggregate and
  per-session snapshots and their persistence on disk. The sessions map is an association list
  with distinct keys whose order is the iteration order of the \<open>range\<close> loop; amounts in float64
  are exact rationals. The JSON encoder and decoder are parameters.
\<close>

section \<open>Data\<close>

record CostSnapshot =
  cs_TotalCostUSD :: rat
  cs_Currencies :: "string list"
  cs_Sessions :: int
  cs_InputTokens :: int
  cs_OutputTokens :: int
  cs_CachedReadTokens :: int
  cs_CachedWriteTokens :: int
  cs_ThoughtTokens :: int
  cs_TotalTokens :: int
  cs_ContextWindowSize :: int
  cs_ContextWindowUsed :: int

definition zero_snapshot :: CostSnapshot where
  "zero_snapshot = \<lparr>cs_TotalCostUSD = 0, cs_Currencies = [], cs_Sessions = 0, cs_InputTokens = 0,
     cs_OutputTokens = 0, cs_CachedReadTokens = 0, cs_CachedWriteTokens = 0, cs_ThoughtTokens = 0,
     cs_TotalTokens = 0, cs_ContextWindowSize = 0, cs_ContextWindowUsed = 0\<rparr>"

record sessionCost =
  sc_CostUSD :: rat
  sc_Currency :: string
  sc_InputTokens :: int
  sc_OutputTokens :: int
  sc_CachedReadTokens :: int
  sc_CachedWriteTokens :: int
  sc_ThoughtTokens :: int
  sc_TotalTokens :: int
  sc_ContextSize :: int
  sc_ContextUsed :: int

definition zero_cost :: sessionCost where
  "zero_cost = \<lparr>sc_CostUSD = 0, sc_Currency = [], sc_InputTokens = 0, sc_OutputTokens = 0,
     sc_CachedReadTokens = 0, sc_CachedWriteTokens = 0, sc_ThoughtTokens = 0, sc_TotalTokens = 0,
     sc_ContextSize = 0, sc_ContextUsed = 0\<rparr>"

type_synonym CostTracker = "(string \<times> sessionCost) list"

definition NewCostTracker :: CostTracker where
  "NewCostTracker = []"

section \<open>Observations\<close>

definition cur_cost :: "CostTracker \<Rightarrow> string \<Rightarrow> sessionCost" where
  "cur_cost t sid = (case map_of t sid of None \<Rightarrow> zero_cost | Some c \<Rightarrow> c)"

definition apply_usage_update :: "UsageUpdate \<Rightarrow> sessionCost \<Rightarrow> sessionCost" where
  "apply_usage_update upd cur =
     (let cur = (case uu_Cost upd of None \<Rightarrow> cur
                 | Some (amount, currency) \<Rightarrow> cur\<lparr>sc_CostUSD := amount, sc_Currency := currency\<rparr>)
      in cur\<lparr>sc_ContextSize := uu_Size upd, sc_ContextUsed := uu_Used upd\<rparr>)"

definition recordUsageUpdate :: "string \<Rightarrow> UsageUpdate option \<Rightarrow> CostTracker \<Rightarrow> CostTracker" where
  "recordUsageUpdate sid oupd t =
     (case oupd of None \<Rightarrow> t
      | Some upd \<Rightarrow> amap_put sid (apply_usage_update upd (cur_cost t sid)) t)"

text \<open>The two callbacks that feed it; a notification that is no usage update is ignored.\<close>

definition ObserveUsage :: "string \<Rightarrow> UsageUpdate option \<Rightarrow> CostTracker \<Rightarrow> CostTracker" where
  "ObserveUsage sid = (\<lambda>upd t. recordUsageUpdate sid upd t)"

definition ObserveNotification :: "string \<Rightarrow> SessionNotification \<Rightarrow> CostTracker \<Rightarrow> CostTracker" where
  "ObserveNotification sid n t =
     (case su_UsageUpdate (sn_Update n) of None \<Rightarrow> t | Some upd \<Rightarrow> recordUsageUpdate sid (Some upd) t)"

definition raise_to :: "int \<Rightarrow> int \<Rightarrow> int" where
  "raise_to new old = (if new > old then new else old)"

definition raise_opt :: "int option \<Rightarrow> int \<Rightarrow> int" where
  "raise_opt new old = (case new of None \<Rightarrow> old | Some n \<Rightarrow> raise_to n old)"

definition apply_prompt_usage :: "Usage \<Rightarrow> sessionCost \<Rightarrow> sessionCost" where
  "apply_prompt_usage u cur =
     cur\<lparr>sc_InputTokens := raise_to (u_InputTokens u) (sc_InputTokens cur),
         sc_OutputTokens := raise_to (u_OutputTokens u) (sc_OutputTokens cur),
         sc_CachedReadTokens := raise_opt (u_CachedReadTokens u) (sc_CachedReadTokens cur),
         sc_CachedWriteTokens := raise_opt (u_CachedWriteTokens u) (sc_CachedWriteTokens cur),
         sc_ThoughtTokens := raise_opt (u_ThoughtTokens u) (sc_ThoughtTokens cur),
         sc_TotalTokens := raise_to (u_TotalTokens u) (sc_TotalTokens cur)\<rparr>"

text \<open>\<open>ousage\<close> is \<open>result.Usage\<close>; \<open>None\<close> also stands for a nil result.\<close>

definition ObservePromptResult :: "string \<Rightarrow> Usage option \<Rightarrow> CostTracker \<Rightarrow> CostTracker" where
  "ObservePromptResult sid ousage t =
     (case ousage of None \<Rightarrow> t
      | Some u \<Rightarrow> amap_put sid (apply_prompt_usage u (cur_cost t sid)) t)"

datatype observation = ObsUpdate string UsageUpdate | ObsPrompt string Usage

fun observe :: "observation \<Rightarrow> CostTracker \<Rightarrow> CostTracker" where
  "observe (ObsUpdate sid upd) t = recordUsageUpdate sid (Some upd) t"
| "observe (ObsPrompt sid u) t = ObservePromptResult sid (Some u) t"

section \<open>Snapshots\<close>

definition snap_step :: "sessionCost \<Rightarrow> CostSnapshot \<Rightarrow> CostSnapshot" where
  "snap_step s snap =
     (let snap = (if sc_Currency s \<noteq> [] \<and> sc_Currency s \<notin> set (cs_Currencies snap)
                  then snap\<lparr>cs_Currencies := cs_Currencies snap @ [sc_Currency s]\<rparr> else snap);
          snap = (if sc_Currency s = [] \<or> sc_Currency s = ''USD''
                  then snap\<lparr>cs_TotalCostUSD := cs_TotalCostUSD snap + sc_CostUSD s\<rparr> else snap)
      in snap\<lparr>cs_InputTokens := cs_InputTokens snap + sc_InputTokens s,
              cs_OutputTokens := cs_OutputTokens snap + sc_OutputTokens s,
              cs_CachedReadTokens := cs_CachedReadTokens snap + sc_CachedReadTokens s,
              cs_CachedWriteTokens := cs_CachedWriteTokens snap + sc_CachedWriteTokens s,
              cs_ThoughtTokens := cs_ThoughtTokens snap + sc_ThoughtTokens s,
              cs_TotalTokens := cs_TotalTokens snap + sc_TotalTokens s,
              cs_ContextWindowSize := (if sc_ContextSize s > cs_ContextWindowSize snap
                                       then sc_ContextSize s else cs_ContextWindowSize snap),
              cs_ContextWindowUsed := cs_ContextWindowUsed snap + sc_ContextUsed s\<rparr>)"

definition Snapshot :: "CostTracker \<Rightarrow> CostSnapshot" where
  "Snapshot t = fold snap_step (map snd t) (zero_snapshot\<lparr>cs_Sessions := int (length t)\<rparr>)"

definition snapshot_of_cost :: "sessionCost \<Rightarrow> CostSnapshot" where
  "snapshot_of_cost s =
     \<lparr>cs_TotalCostUSD = sc_CostUSD s,
      cs_Currencies = (if sc_Currency s \<noteq> [] then [sc_Currency s] else []), cs_Sessions = 1,
      cs_InputTokens = sc_InputTokens s, cs_OutputTokens = sc_OutputTokens s,
      cs_CachedReadTokens = sc_CachedReadTokens s, cs_CachedWriteTokens = sc_CachedWriteTokens s,
      cs_ThoughtTokens = sc_ThoughtTokens s, cs_TotalTokens = sc_TotalTokens s,
      cs_ContextWindowSize = sc_ContextSize s, cs_ContextWindowUsed = sc_ContextUsed s\<rparr>"

definition SessionSnapshot :: "CostTracker \<Rightarrow> string \<Rightarrow> CostSnapshot option" where
  "SessionSnapshot t sid = map_option snapshot_of_cost (map_of t sid)"

definition cost_of_snapshot :: "CostSnapshot \<Rightarrow> sessionCost" where
  "cost_of_snapshot snap =
     \<lparr>sc_CostUSD = cs_TotalCostUSD snap,
      sc_Currency = (case cs_Currencies snap of [] \<Rightarrow> [] | c # _ \<Rightarrow> c),
      sc_InputTokens = cs_InputTokens snap, sc_OutputTokens = cs_OutputTokens snap,
      sc_CachedReadTokens = cs_CachedReadTokens snap, sc_CachedWriteTokens = cs_CachedWriteTokens snap,
      sc_ThoughtTokens = cs_ThoughtTokens snap, sc_TotalTokens = cs_TotalTokens snap,
      sc_ContextSize = cs_ContextWindowSize snap, sc_ContextUsed = cs_ContextWindowUsed snap\<rparr>"

section \<open>Persistence\<close>

text \<open>The pattern \<open>^[A-Za-z0-9_\-]{3,128}$\<close>.\<close>

definition id_char :: "char \<Rightarrow> bool" where
  "id_char c \<longleftrightarrow> (let n = char_code c in
     (65 \<le> n \<and> n \<le> 90) \<or> (97 \<le> n \<and> n \<le> 122) \<or> (48 \<le> n \<and> n \<le> 57) \<or> n = 95 \<or> n = 45)"

definition sessionIDPattern :: "string \<Rightarrow> bool" where
  "sessionIDPattern s \<longleftrightarrow> 3 \<le> length s \<and> length s \<le> 128 \<and> list_all id_char s"

definition invalid_id_err :: "string \<Rightarrow> goerr" where
  "invalid_id_err sid = ENew (''opencodesdk: invalid session ID '' @ go_quote sid)"

definition resolveOpencodeDataDir :: "os \<Rightarrow> string \<Rightarrow> string" where
  "resolveOpencodeDataDir s override =
     (if override \<noteq> [] then path_join [override, ''opencode'']
      else if os_getenv ''XDG_DATA_HOME'' s \<noteq> []
        then path_join [os_getenv ''XDG_DATA_HOME'' s, ''opencode'']
      else (case os_home s of
              None \<Rightarrow> path_join [''.'', ''.opencode'']
            | Some home \<Rightarrow> if home = [] then path_join [''.'', ''.opencode'']
                           else path_join [home, ''.local'', ''share'', ''opencode'']))"

definition sessionCostPath :: "os \<Rightarrow> string \<Rightarrow> string \<Rightarrow> goerr + string" where
  "sessionCostPath s sid home =
     (if \<not> sessionIDPattern sid then Inl (invalid_id_err sid)
      else Inr (path_join [resolveOpencodeDataDir s home, ''sdk'', ''session-costs'', sid @ ''.json'']))"

type_synonym cost_enc = "string \<times> CostSnapshot \<Rightarrow> goerr + string"
type_synonym cost_dec = "string \<Rightarrow> goerr + string \<times> CostSnapshot"

definition LoadSessionCost :: "cost_dec \<Rightarrow> string \<Rightarrow> string \<Rightarrow> os \<Rightarrow> goerr + CostSnapshot" where
  "LoadSessionCost dec sid home s =
     (case sessionCostPath s sid home of
        Inl e \<Rightarrow> Inl e
      | Inr path \<Rightarrow>
          (case os_read path s of
             Inl e \<Rightarrow> if errors_is e OsErrNotExist then Inl (ESent ErrSessionCostNotFound)
                      else Inl (errorf_s_w ''read session cost'' e)
           | Inr data \<Rightarrow> (case dec data of
                Inl e \<Rightarrow> Inl (errorf_s_w ''parse session cost'' e)
              | Inr (_, snap) \<Rightarrow> Inr snap)))"

definition SaveSessionCost ::
  "cost_enc \<Rightarrow> string \<Rightarrow> CostSnapshot \<Rightarrow> string \<Rightarrow> os \<Rightarrow> goerr option \<times> os" where
  "SaveSessionCost enc sid snap home s =
     (case sessionCostPath s sid home of
        Inl e \<Rightarrow> (Some e, s)
      | Inr path \<Rightarrow>
          (case os_mkdir_all (path_dir path) s of
             Some e \<Rightarrow> (Some (errorf_s_w ''create session cost dir'' e), s)
           | None \<Rightarrow>
               (case enc (sid, snap) of
                  Inl e \<Rightarrow> (Some (errorf_s_w ''marshal session cost'' e), s)
                | Inr data \<Rightarrow>
                    (let tmp = path @ ''.tmp'' in
                     (case os_write tmp (data @ [CHR 0x0A]) s of
                        (Some e, s1) \<Rightarrow> (Some (errorf_s_w ''write session cost'' e), s1)
                      | (None, s1) \<Rightarrow>
                          (case os_rename tmp path s1 of
                             (Some e, s2) \<Rightarrow> (Some (errorf_s_w ''commit session cost'' e), s2)
                           | (None, s2) \<Rightarrow> (None, s2)))))))"

definition tracker_SaveSessionCost ::
  "cost_enc \<Rightarrow> string \<Rightarrow> string \<Rightarrow> CostTracker \<Rightarrow> os \<Rightarrow> goerr option \<times> os" where
  "tracker_SaveSessionCost enc sid home t s =
     (case SessionSnapshot t sid of
        None \<Rightarrow> (Some (ENew (''opencodesdk: SaveSessionCost: unknown session '' @ go_quote sid)), s)
      | Some snap \<Rightarrow> SaveSessionCost enc sid snap home s)"

definition DeleteSessionCost :: "string \<Rightarrow> string \<Rightarrow> os \<Rightarrow> goerr option \<times> os" where
  "DeleteSessionCost sid home s =
     (case sessionCostPath s sid home of
        Inl e \<Rightarrow> (Some e, s)
      | Inr path \<Rightarrow>
          (case os_remove path s of
             (Some e, s1) \<Rightarrow> (Some (if errors_is e OsErrNotExist then ESent ErrSessionCostNotFound
                                     else errorf_s_w ''delete session cost'' e), s1)
           | (None, s1) \<Rightarrow> (None, s1)))"

definition tracker_LoadSessionCost ::
  "cost_dec \<Rightarrow> string \<Rightarrow> string \<Rightarrow> os \<Rightarrow> CostTracker \<Rightarrow> goerr option \<times> CostTracker" where
  "tracker_LoadSessionCost dec sid home s t =
     (case LoadSessionCost dec sid home s of
        Inl e \<Rightarrow> (Some e, t)
      | Inr snap \<Rightarrow> (None, amap_put sid (cost_of_snapshot snap) t))"

section \<open>Facts about observations\<close>

lemma cur_cost_put [simp]: "cur_cost (amap_put k c t) sid = (if sid = k then c else cur_cost t sid)"
  by (simp add: cur_cost_def)

lemma amap_ok_observe [intro]: "amap_ok t \<Longrightarrow> amap_ok (observe ob t)"
  by (cases ob) (auto simp: recordUsageUpdate_def ObservePromptResult_def)

lemma apply_commute:
  "apply_usage_update upd (apply_prompt_usage u c) = apply_prompt_usage u (apply_usage_update upd c)"
  by (simp add: apply_usage_update_def apply_prompt_usage_def split: option.splits)

lemma raise_to_max: "raise_to a b = max a b"
  by (simp add: raise_to_def)

lemma raise_opt_ge: "old \<le> raise_opt n old"
  by (simp add: raise_opt_def raise_to_max split: option.splits)

text \<open>
  usage notifications and prompt results reach the tracker on different goroutines; their
  order does not matter: recording one of each, for the same or different sessions, leaves every
  session with the same record in both orders.
\<close>

theorem observations_commute:
  "cur_cost (observe (ObsUpdate sid upd) (observe (ObsPrompt sid' u) t)) =
   cur_cost (observe (ObsPrompt sid' u) (observe (ObsUpdate sid upd) t))"
  by (rule ext) (simp add: recordUsageUpdate_def ObservePromptResult_def apply_commute)

definition token_le :: "sessionCost \<Rightarrow> sessionCost \<Rightarrow> bool" where
  "token_le a b \<longleftrightarrow> sc_InputTokens a \<le> sc_InputTokens b \<and> sc_OutputTokens a \<le> sc_OutputTokens b
     \<and> sc_CachedReadTokens a \<le> sc_CachedReadTokens b \<and> sc_CachedWriteTokens a \<le> sc_CachedWriteTokens b
     \<and> sc_ThoughtTokens a \<le> sc_ThoughtTokens b \<and> sc_TotalTokens a \<le> sc_TotalTokens b"

lemma token_le_observe: "token_le (cur_cost t sid) (cur_cost (observe ob t) sid)"
  by (cases ob)
     (auto simp: recordUsageUpdate_def ObservePromptResult_def token_le_def apply_usage_update_def
       apply_prompt_usage_def raise_to_max raise_opt_ge split: option.splits)

lemma token_le_trans: "token_le a b \<Longrightarrow> token_le b c \<Longrightarrow> token_le a c"
  by (auto simp: token_le_def)

text \<open>
  over any run of observations the token counters of every session never decrease, and the
  tracker keeps one record per session.
\<close>

theorem token_counters_monotone:
  assumes "amap_ok t"
  shows "token_le (cur_cost t sid) (cur_cost (fold observe obs t) sid)
         \<and> amap_ok (fold observe obs t)"
  using assms
proof (induction obs arbitrary: t)
  case (Cons ob obs)
  have "amap_ok (observe ob t)" using Cons.prems by blast
  from Cons.IH [OF this] token_le_trans [OF token_le_observe] show ?case by auto
qed (simp add: token_le_def)

theorem token_counters_monotone_witness:
  "token_le (cur_cost [(''s'', zero_cost)] ''s'') (cur_cost (fold observe
     [ObsPrompt ''s'' \<lparr>u_InputTokens = 5, u_OutputTokens = 2, u_CachedReadTokens = Some 1,
        u_CachedWriteTokens = None, u_ThoughtTokens = None, u_TotalTokens = 7\<rparr>]
     [(''s'', zero_cost)]) ''s'')"
  by (rule conjunct1 [OF token_counters_monotone]) (simp add: amap_ok_def)

section \<open>Facts about snapshots\<close>

definition usd_part :: "sessionCost \<Rightarrow> rat" where
  "usd_part s = (if sc_Currency s = [] \<or> sc_Currency s = ''USD'' then sc_CostUSD s else 0)"

lemma snap_step_fields [simp]:
  "cs_TotalCostUSD (snap_step s n) = cs_TotalCostUSD n + usd_part s"
  "cs_Sessions (snap_step s n) = cs_Sessions n"
  "cs_InputTokens (snap_step s n) = cs_InputTokens n + sc_InputTokens s"
  "cs_OutputTokens (snap_step s n) = cs_OutputTokens n + sc_OutputTokens s"
  "cs_TotalTokens (snap_step s n) = cs_TotalTokens n + sc_TotalTokens s"
  "cs_ContextWindowUsed (snap_step s n) = cs_ContextWindowUsed n + sc_ContextUsed s"
  "cs_ContextWindowSize (snap_step s n) = max (cs_ContextWindowSize n) (sc_ContextSize s)"
  "cs_Currencies (snap_step s n) =
     (if sc_Currency s \<noteq> [] \<and> sc_Currency s \<notin> set (cs_Currencies n)
      then cs_Currencies n @ [sc_Currency s] else cs_Currencies n)"
  by (simp_all add: snap_step_def usd_part_def Let_def max_def)

lemma snap_step_cached [simp]:
  "cs_CachedReadTokens (snap_step s n) = cs_CachedReadTokens n + sc_CachedReadTokens s"
  "cs_CachedWriteTokens (snap_step s n) = cs_CachedWriteTokens n + sc_CachedWriteTokens s"
  "cs_ThoughtTokens (snap_step s n) = cs_ThoughtTokens n + sc_ThoughtTokens s"
  by (simp_all add: snap_step_def Let_def)

lemma fold_snap_sums:
  "cs_TotalCostUSD (fold snap_step ss n) = cs_TotalCostUSD n + sum_list (map usd_part ss)"
  "cs_TotalTokens (fold snap_step ss n) = cs_TotalTokens n + sum_list (map sc_TotalTokens ss)"
  "cs_InputTokens (fold snap_step ss n) = cs_InputTokens n + sum_list (map sc_InputTokens ss)"
  "cs_OutputTokens (fold snap_step ss n) = cs_OutputTokens n + sum_list (map sc_OutputTokens ss)"
  "cs_ContextWindowUsed (fold snap_step ss n) =
     cs_ContextWindowUsed n + sum_list (map sc_ContextUsed ss)"
  "cs_Sessions (fold snap_step ss n) = cs_Sessions n"
  by (induction ss arbitrary: n) simp_all

lemma fold_snap_cached:
  "cs_CachedReadTokens (fold snap_step ss n) =
     cs_CachedReadTokens n + sum_list (map sc_CachedReadTokens ss)"
  "cs_CachedWriteTokens (fold snap_step ss n) =
     cs_CachedWriteTokens n + sum_list (map sc_CachedWriteTokens ss)"
  "cs_ThoughtTokens (fold snap_step ss n) =
     cs_ThoughtTokens n + sum_list (map sc_ThoughtTokens ss)"
  by (induction ss arbitrary: n) simp_all

lemma fold_snap_size:
  "cs_ContextWindowSize (fold snap_step ss n) =
     Max (insert (cs_ContextWindowSize n) (sc_ContextSize ` set ss))"
proof (induction ss arbitrary: n)
  case (Cons s ss)
  have "Max (insert (max a b) X) = Max (insert a (insert b X))" if "finite X" for a b :: int and X
    using that by (cases "X = {}") (simp_all add: max.assoc)
  then show ?case by (simp add: Cons)
qed simp

lemma fold_snap_currencies:
  "distinct (cs_Currencies n) \<Longrightarrow> distinct (cs_Currencies (fold snap_step ss n))
     \<and> set (cs_Currencies (fold snap_step ss n)) = set (cs_Currencies n) \<union> (sc_Currency ` set ss - {[]})"
  by (induction ss arbitrary: n) auto

lemma Snapshot_sums_usd: "cs_TotalCostUSD (Snapshot t) = (\<Sum>e \<leftarrow> t. usd_part (snd e))"
  by (simp add: Snapshot_def fold_snap_sums zero_snapshot_def comp_def)

text \<open>
  the aggregate snapshot is the sum over the sessions: USD amounts (and amounts without a
  currency) are summed, other currencies only listed, each once; the window size is the largest
  seen.
\<close>

theorem Snapshot_sums:
  "cs_TotalCostUSD (Snapshot t) = (\<Sum>s \<leftarrow> map snd t. usd_part s)
   \<and> cs_TotalTokens (Snapshot t) = (\<Sum>s \<leftarrow> map snd t. sc_TotalTokens s)
   \<and> cs_Sessions (Snapshot t) = int (length t)
   \<and> cs_ContextWindowSize (Snapshot t) = Max (insert 0 (sc_ContextSize ` set (map snd t)))
   \<and> distinct (cs_Currencies (Snapshot t))
   \<and> set (cs_Currencies (Snapshot t)) = sc_Currency ` set (map snd t) - {[]}"
  by (simp add: Snapshot_def fold_snap_sums fold_snap_size fold_snap_currencies zero_snapshot_def)

lemma sum_list_mset_eq: "mset xs = mset ys \<Longrightarrow> sum_list (map f xs) = (sum_list (map f ys) :: 'a :: comm_monoid_add)"
  by (metis mset_map sum_mset_sum_list)

text \<open>
  Go's map iteration order is unspecified; the snapshot does not depend on it, except for the
  order in which the (same) currencies are listed.
\<close>

theorem Snapshot_iteration_order:
  assumes "mset t = mset t'"
  shows "Snapshot t = Snapshot t' \<lparr>cs_Currencies := cs_Currencies (Snapshot t)\<rparr>
         \<and> mset (cs_Currencies (Snapshot t)) = mset (cs_Currencies (Snapshot t'))"
proof -
  have ms: "mset (map snd t) = mset (map snd t')" using assms by simp
  note sums = sum_list_mset_eq [OF ms]
  have sets: "set (map snd t) = set (map snd t')" by (rule mset_eq_setD [OF ms])
  have len: "length t = length t'" by (rule mset_eq_length [OF assms])
  note facts = fold_snap_sums fold_snap_cached fold_snap_size fold_snap_currencies
  have "Snapshot t = Snapshot t' \<lparr>cs_Currencies := cs_Currencies (Snapshot t)\<rparr>"
    unfolding Snapshot_def
    by (rule CostSnapshot.equality) (simp_all only: facts CostSnapshot.select_convs
        CostSnapshot.update_convs sums sets len, simp_all add: zero_snapshot_def facts sums sets len)
  moreover have "mset (cs_Currencies (Snapshot t)) = mset (cs_Currencies (Snapshot t'))"
    using Snapshot_sums [of t] Snapshot_sums [of t'] sets
    by (metis set_eq_iff_mset_eq_distinct)
  ultimately show ?thesis by blast
qed

text \<open>
  for the same session the two snapshots disagree on other currencies: \<open>Snapshot\<close> leaves a
  EUR amount out of \<open>TotalCostUSD\<close>, \<open>SessionSnapshot\<close> reports it there.
\<close>

theorem session_snapshot_not_usd:
  assumes "sc_Currency c = ''EUR''"
  shows "cs_TotalCostUSD (Snapshot [(sid, c)]) = 0
         \<and> map_option cs_TotalCostUSD (SessionSnapshot [(sid, c)] sid) = Some (sc_CostUSD c)"
  using assms
  by (simp add: Snapshot_def fold_snap_sums zero_snapshot_def usd_part_def SessionSnapshot_def
      snapshot_of_cost_def)

theorem session_snapshot_not_usd_witness:
  "cs_TotalCostUSD (Snapshot [(''s'', zero_cost\<lparr>sc_Currency := ''EUR'', sc_CostUSD := 3\<rparr>)]) = 0
   \<and> map_option cs_TotalCostUSD
       (SessionSnapshot [(''s'', zero_cost\<lparr>sc_Currency := ''EUR'', sc_CostUSD := 3\<rparr>)] ''s'') = Some 3"
  using session_snapshot_not_usd [of "zero_cost\<lparr>sc_Currency := ''EUR'', sc_CostUSD := 3\<rparr>" "''s''"]
  by simp

section \<open>Facts about persistence\<close>

lemma cost_of_snapshot_of_cost [simp]: "cost_of_snapshot (snapshot_of_cost c) = c"
  by (simp add: cost_of_snapshot_def snapshot_of_cost_def)

lemma id_char_no_slash: "id_char c \<Longrightarrow> c \<noteq> slash \<and> c \<noteq> CHR ''.''"
  by (auto simp: id_char_def char_code_def Let_def)

lemma sessionIDPattern_no_slash:
  "sessionIDPattern sid \<Longrightarrow> slash \<notin> set sid \<and> CHR ''.'' \<notin> set sid"
  using id_char_no_slash by (auto simp: sessionIDPattern_def list_all_iff)

lemma append_neq_self: "p \<noteq> p @ (c # cs)"
  by simp

lemma SaveSessionCost_cases:
  assumes "SaveSessionCost enc sid snap home s = (r, s')" "sessionCostPath s sid home = Inr path"
  shows "(s' = s \<and> r \<noteq> None)
     \<or> (\<exists>data s1 e. enc (sid, snap) = Inr data \<and> os_write (path @ ''.tmp'') (data @ [CHR 0x0A]) s = (Some e, s1)
          \<and> s' = s1 \<and> r \<noteq> None)
     \<or> (\<exists>data s1 o1. enc (sid, snap) = Inr data \<and> os_write (path @ ''.tmp'') (data @ [CHR 0x0A]) s = (None, s1)
          \<and> os_rename (path @ ''.tmp'') path s1 = (o1, s') \<and> (r = None \<longleftrightarrow> o1 = None))"
  using assms
  by (auto simp: SaveSessionCost_def Let_def split: option.splits sum.splits prod.splits)

text \<open>
  C28: saving is atomic: if \<open>SaveSessionCost\<close> reports an error at any step (directory, encoding,
  writing, renaming), the file of the session's cost still holds what it held before, and no other
  file than the temporary one is touched, also when a failed write left partial contents.
\<close>

theorem SaveSessionCost_atomic:
  assumes "SaveSessionCost enc sid snap home s = (Some e, s')"
    and "sessionCostPath s sid home = Inr path" and "q \<noteq> path @ ''.tmp''"
  shows "os_files s' q = os_files s q"
  using SaveSessionCost_cases [OF assms(1,2)]
proof (elim disjE exE conjE)
  fix data s1 e'
  assume "os_write (path @ ''.tmp'') (data @ [CHR 0x0A]) s = (Some e', s1)" "s' = s1"
  with os_write_frame [OF assms(3), of "data @ [CHR 0x0A]" s] show ?thesis by simp
next
  fix data s1 o1
  assume "os_write (path @ ''.tmp'') (data @ [CHR 0x0A]) s = (None, s1)"
    and "os_rename (path @ ''.tmp'') path s1 = (o1, s')" and "(Some e = None) = (o1 = None)"
  with os_write_frame [OF assms(3), of "data @ [CHR 0x0A]" s] os_rename_err [of "path @ ''.tmp''" path s1]
  show ?thesis by (cases o1) auto
qed simp

text \<open>A file system with one stored cost file, on which renames fail.\<close>

definition stuck_os :: os where
  "stuck_os = \<lparr>os_files = [''/d/opencode/sdk/session-costs/ses.json'' \<mapsto> ''old''],
     os_fail = (\<lambda>op p. if op = OpRename then Some (ENew ''read-only'') else None),
     os_partial = (\<lambda>p d. None), os_env = Map.empty, os_home = None, os_wd = ''/''\<rparr>"

lemma stuck_os_sel:
  "os_fail stuck_os op p = (if op = OpRename then Some (ENew ''read-only'') else None)"
  by (simp add: stuck_os_def)

lemma stuck_path: "sessionCostPath stuck_os ''ses'' ''/d'' = Inr ''/d/opencode/sdk/session-costs/ses.json''"
  by code_simp

theorem SaveSessionCost_atomic_witness:
  "os_files (snd (SaveSessionCost (\<lambda>_. Inr ''new'') ''ses'' zero_snapshot ''/d'' stuck_os))
     ''/d/opencode/sdk/session-costs/ses.json'' = Some ''old''"
proof -
  have "\<exists>e s'. SaveSessionCost (\<lambda>_. Inr ''new'') ''ses'' zero_snapshot ''/d'' stuck_os = (Some e, s')"
    unfolding SaveSessionCost_def stuck_path
    by (simp add: Let_def os_mkdir_all_def os_write_def os_rename_def stuck_os_sel)
  then obtain e s' where
    "SaveSessionCost (\<lambda>_. Inr ''new'') ''ses'' zero_snapshot ''/d'' stuck_os = (Some e, s')" by blast
  from SaveSessionCost_atomic [OF this stuck_path] show ?thesis
    using \<open>_ = (Some e, s')\<close> by (simp add: stuck_os_def)
qed

lemma resolve_params: "os_env s' = os_env s \<Longrightarrow> os_home s' = os_home s \<Longrightarrow>
    sessionCostPath s' sid home = sessionCostPath s sid home"
  by (simp add: sessionCostPath_def resolveOpencodeDataDir_def os_getenv_def)

definition codec_ok :: "cost_enc \<Rightarrow> cost_dec \<Rightarrow> bool" where
  "codec_ok enc dec \<longleftrightarrow> (\<forall>x d. enc x = Inr d \<longrightarrow> dec (d @ [CHR 0x0A]) = Inr x)"

lemma SaveSessionCost_stored:
  assumes "SaveSessionCost enc sid snap home s = (None, s')"
  shows "\<exists>path data. sessionCostPath s sid home = Inr path \<and> enc (sid, snap) = Inr data
           \<and> os_files s' path = Some (data @ [CHR 0x0A]) \<and> os_files s' (path @ ''.tmp'') = None
           \<and> os_fail s' = os_fail s \<and> os_env s' = os_env s \<and> os_home s' = os_home s"
proof -
  from assms obtain path where path: "sessionCostPath s sid home = Inr path"
    by (auto simp: SaveSessionCost_def split: sum.splits)
  from SaveSessionCost_cases [OF assms path] obtain data s1 where
    w: "enc (sid, snap) = Inr data" "os_write (path @ ''.tmp'') (data @ [CHR 0x0A]) s = (None, s1)"
    and r: "os_rename (path @ ''.tmp'') path s1 = (None, s')"
    by auto
  from os_write_ok [OF w(2)] os_rename_ok [OF r] have
    "os_files s' path = Some (data @ [CHR 0x0A]) \<and> os_files s' (path @ ''.tmp'') = None"
    by auto
  with path w(1) os_write_params [OF w(2)] os_rename_params [OF r] show ?thesis by auto
qed

text \<open>
  C27: round trip through the disk: after a successful \<open>SaveSessionCost\<close> of a tracked session,
  loading it into any tracker restores exactly the saved record for that session and changes no
  other session, when the JSON codec is faithful and the file can be read back.
\<close>

theorem session_cost_roundtrip:
  assumes "codec_ok enc dec" "map_of t sid = Some c"
    and "tracker_SaveSessionCost enc sid home t s = (None, s')" "\<And>p. os_fail s OpRead p = None"
  shows "\<exists>t2'. tracker_LoadSessionCost dec sid home s' t2 = (None, t2')
           \<and> map_of t2' = (map_of t2)(sid \<mapsto> c)"
proof -
  have save: "SaveSessionCost enc sid (snapshot_of_cost c) home s = (None, s')"
    using assms(2,3) by (simp add: tracker_SaveSessionCost_def SessionSnapshot_def)
  from SaveSessionCost_stored [OF save] obtain path data where
    st: "sessionCostPath s sid home = Inr path" "enc (sid, snapshot_of_cost c) = Inr data"
      "os_files s' path = Some (data @ [CHR 0x0A])" "os_fail s' = os_fail s"
    and same: "os_env s' = os_env s" "os_home s' = os_home s" by blast
  have "dec (data @ [CHR 0x0A]) = Inr (sid, snapshot_of_cost c)"
    using assms(1) st(2) by (simp add: codec_ok_def)
  then have "LoadSessionCost dec sid home s' = Inr (snapshot_of_cost c)"
    using st assms(4) resolve_params [OF same] by (simp add: LoadSessionCost_def os_read_def)
  then show ?thesis by (simp add: tracker_LoadSessionCost_def am.get_put)
qed

text \<open>A codec that handles one value, on an empty file system without failures.\<close>

definition demo_enc :: cost_enc where
  "demo_enc x = (if x = (''ses'', snapshot_of_cost zero_cost) then Inr ''{}'' else Inl (ENew ''no''))"

definition demo_dec :: cost_dec where
  "demo_dec d = (if d = ''{}'' @ [CHR 0x0A] then Inr (''ses'', snapshot_of_cost zero_cost)
                 else Inl (ENew ''no''))"

definition empty_os :: os where
  "empty_os = \<lparr>os_files = Map.empty, os_fail = (\<lambda>op p. None), os_partial = (\<lambda>p d. None),
     os_env = Map.empty, os_home = None, os_wd = ''/''\<rparr>"

theorem session_cost_roundtrip_witness:
  "\<exists>s' t2'. tracker_SaveSessionCost demo_enc ''ses'' ''/d'' [(''ses'', zero_cost)] empty_os = (None, s')
     \<and> tracker_LoadSessionCost demo_dec ''ses'' ''/d'' s' [] = (None, t2')
     \<and> map_of t2' = [''ses'' \<mapsto> zero_cost]"
proof -
  have p: "sessionCostPath empty_os ''ses'' ''/d'' = Inr ''/d/opencode/sdk/session-costs/ses.json''"
    by code_simp
  have codec: "codec_ok demo_enc demo_dec"
    by (auto simp: codec_ok_def demo_enc_def demo_dec_def split: if_splits)
  have "\<exists>s'. tracker_SaveSessionCost demo_enc ''ses'' ''/d'' [(''ses'', zero_cost)] empty_os = (None, s')"
    unfolding tracker_SaveSessionCost_def SessionSnapshot_def SaveSessionCost_def p
    by (simp add: demo_enc_def Let_def os_mkdir_all_def os_write_def os_rename_def empty_os_def)
  then obtain s' where
    sv: "tracker_SaveSessionCost demo_enc ''ses'' ''/d'' [(''ses'', zero_cost)] empty_os = (None, s')"
    by blast
  show ?thesis
    using session_cost_roundtrip [OF codec _ sv, of zero_cost "[]"] sv by (auto simp: empty_os_def)
qed

text \<open>
  no session id reaches outside the cost directory: whatever the id, a path is only produced
  for an id of 3 to 128 letters, digits, \<open>_\<close> or \<open>-\<close>, and then (for an absolute data directory)
  its segments are those of the directory followed by the single file name \<open>id.json\<close>.
\<close>

theorem sessionCostPath_confined:
  assumes "sessionCostPath s sid home = Inr path"
    and "path_is_abs (resolveOpencodeDataDir s home)"
  shows "sessionIDPattern sid
         \<and> path_segs path = path_segs (resolveOpencodeDataDir s home)
                            @ [''sdk'', ''session-costs'', sid @ ''.json'']"
proof -
  let ?base = "resolveOpencodeDataDir s home"
  have id: "sessionIDPattern sid" using assms(1) by (simp add: sessionCostPath_def split: if_splits)
  let ?tail = "[''sdk'', ''session-costs'', sid @ ''.json'']"
  have tail: "list_all proper_seg ?tail"
    using sessionIDPattern_no_slash [OF id] id by (auto simp: proper_seg_def sessionIDPattern_def)
  have path: "path = path_clean (join_with [slash] (?base # ?tail))"
    using assms id by (auto simp: sessionCostPath_def path_join_def path_is_abs_def Let_def)
  have splitb: "split_on slash (join_with [slash] (?base # ?tail)) = split_on slash ?base @ ?tail"
    by (rule split_on_join_append) (use tail in \<open>auto simp: proper_seg_def\<close>)
  have abs: "path_is_abs (join_with [slash] (?base # ?tail))"
    using assms(2) by (simp add: path_is_abs_def has_prefix_iff prefix_append)
  have "path_segs (join_with [slash] (?base # ?tail)) = path_segs ?base @ ?tail"
    unfolding path_segs_def splitb using abs assms(2) clean_segs_append [OF tail] by simp
  with path path_segs_clean [OF abs] id show ?thesis by simp
qed

theorem sessionCostPath_confined_witness:
  "path_segs ''/d/opencode/sdk/session-costs/ses.json''
     = path_segs (resolveOpencodeDataDir stuck_os ''/d'') @ [''sdk'', ''session-costs'', ''ses.json'']"
proof -
  have "path_is_abs (resolveOpencodeDataDir stuck_os ''/d'')" by code_simp
  from sessionCostPath_confined [OF stuck_path this] show ?thesis by simp
qed

end
