(* ===== verification/Budget.thy ===== *)
theory Budget
  imports Cost
begin

text \<open>
  The budget tracker (\<open>budget_tracker.go\<close>) layered over the cost tracker: construction,
  status, and the check that turns an exceeded budget into an error. The \<open>usage_source\<close> locale is
  what the budget relies on in the cost tracker: the two totals it compares, and that observing
  usage of one session leaves the others alone.
\<close>

section \<open>Data and operations\<close>

record BudgetTrackerOptions =
  bo_MaxCostUSD :: "rat option"
  bo_MaxTotalTokens :: "int option"
  bo_CompletionThreshold :: rat

datatype BudgetReason = budgetReasonWithinBudget | budgetReasonNearCompletion | budgetReasonExceeded

record BudgetStatus =
  bs_Cost :: CostSnapshot
  bs_CompletionRatio :: rat
  bs_NearCompletion :: bool
  bs_BudgetExceeded :: bool
  bs_Reason :: BudgetReason
  bs_MaxCostUSD :: "rat option"
  bs_MaxTotalTokens :: "int option"

record BudgetTracker =
  bt_cost :: CostTracker
  bt_maxCostUSD :: "rat option"
  bt_maxTotalTokens :: "int option"
  bt_completionThreshold :: rat

definition defaultBudgetCompletionThreshold :: rat where
  "defaultBudgetCompletionThreshold = 9 / 10"

definition NewBudgetTracker :: "BudgetTrackerOptions \<Rightarrow> goerr + BudgetTracker" where
  "NewBudgetTracker o1 =
     (let threshold = (if bo_CompletionThreshold o1 = 0 then defaultBudgetCompletionThreshold
                       else bo_CompletionThreshold o1) in
      if threshold \<le> 0 \<or> threshold > 1
      then Inl (ENew ''opencodesdk: CompletionThreshold must be in (0, 1]'')
      else Inr \<lparr>bt_cost = NewCostTracker, bt_maxCostUSD = bo_MaxCostUSD o1,
                bt_maxTotalTokens = bo_MaxTotalTokens o1, bt_completionThreshold = threshold\<rparr>)"

definition budget_observe :: "observation \<Rightarrow> BudgetTracker \<Rightarrow> BudgetTracker" where
  "budget_observe ob t = t\<lparr>bt_cost := observe ob (bt_cost t)\<rparr>"

definition exceededLocked :: "BudgetTracker \<Rightarrow> CostSnapshot \<Rightarrow> bool" where
  "exceededLocked t cost \<longleftrightarrow>
     (case bt_maxCostUSD t of None \<Rightarrow> False | Some m \<Rightarrow> m > 0 \<and> cs_TotalCostUSD cost \<ge> m)
     \<or> (case bt_maxTotalTokens t of None \<Rightarrow> False | Some m \<Rightarrow> m > 0 \<and> cs_TotalTokens cost \<ge> m)"

definition completion_ratio :: "BudgetTracker \<Rightarrow> CostSnapshot \<Rightarrow> rat" where
  "completion_ratio t cost =
     (let ratio = (case bt_maxCostUSD t of
                     None \<Rightarrow> 0 | Some m \<Rightarrow> if m > 0 then cs_TotalCostUSD cost / m else 0)
      in (case bt_maxTotalTokens t of
            None \<Rightarrow> ratio
          | Some m \<Rightarrow> if m > 0
                     then (let tr = rat_of_int (cs_TotalTokens cost) / rat_of_int m
                           in if tr > ratio then tr else ratio)
                     else ratio))"

definition statusLocked :: "BudgetTracker \<Rightarrow> BudgetStatus" where
  "statusLocked t =
     (let cost = Snapshot (bt_cost t); ratio = completion_ratio t cost;
          near = ratio \<ge> bt_completionThreshold t \<and> \<not> exceededLocked t cost;
          exceeded = exceededLocked t cost
      in \<lparr>bs_Cost = cost, bs_CompletionRatio = ratio, bs_NearCompletion = near,
          bs_BudgetExceeded = exceeded,
          bs_Reason = (if exceeded then budgetReasonExceeded
                       else if near then budgetReasonNearCompletion
                       else budgetReasonWithinBudget),
          bs_MaxCostUSD = bt_maxCostUSD t, bs_MaxTotalTokens = bt_maxTotalTokens t\<rparr>)"

text \<open>The nil receiver of \<open>Status\<close> and \<open>CheckBudget\<close> is \<open>None\<close>.\<close>

definition Status :: "BudgetTracker option \<Rightarrow> BudgetStatus" where
  "Status ot = (case ot of
     None \<Rightarrow> \<lparr>bs_Cost = zero_snapshot, bs_CompletionRatio = 0, bs_NearCompletion = False,
             bs_BudgetExceeded = False, bs_Reason = budgetReasonWithinBudget,
             bs_MaxCostUSD = None, bs_MaxTotalTokens = None\<rparr>
   | Some t \<Rightarrow> statusLocked t)"

definition CheckBudget :: "BudgetTracker option \<Rightarrow> goerr option" where
  "CheckBudget ot = (case ot of
     None \<Rightarrow> None
   | Some t \<Rightarrow> if bs_BudgetExceeded (Status (Some t)) then Some (ESent ErrBudgetExceeded) else None)"

section \<open>What the budget relies on\<close>

locale usage_source =
  fixes observe_op :: "'o \<Rightarrow> 't \<Rightarrow> 't"
    and owner :: "'o \<Rightarrow> string"
    and spent :: "'t \<Rightarrow> string \<Rightarrow> rat"
    and sessions :: "'t \<Rightarrow> string set"
    and total :: "'t \<Rightarrow> rat"
    and inv :: "'t \<Rightarrow> bool"
  assumes observe_other: "sid \<noteq> owner ob \<Longrightarrow> spent (observe_op ob t) sid = spent t sid"
    and observe_sessions: "sessions (observe_op ob t) = insert (owner ob) (sessions t)"
    and sessions_finite: "finite (sessions t)"
    and total_sum: "inv t \<Longrightarrow> total t = (\<Sum>sid \<in> sessions t. spent t sid)"
    and spent_unknown: "sid \<notin> sessions t \<Longrightarrow> spent t sid = 0"
    and observe_inv: "inv t \<Longrightarrow> inv (observe_op ob t)"
begin

text \<open>An observation changes the total by exactly what it changes for its own session.\<close>

lemma total_observe:
  assumes "inv t"
  shows "total (observe_op ob t) = total t - spent t (owner ob) + spent (observe_op ob t) (owner ob)"
proof -
  let ?S = "sessions t - {owner ob}"
  have rest: "(\<Sum>sid \<in> ?S. spent (observe_op ob t) sid) = (\<Sum>sid \<in> ?S. spent t sid)"
    by (rule sum.cong) (auto simp: observe_other)
  have fin: "finite ?S" by (simp add: sessions_finite)
  have new: "total (observe_op ob t) = spent (observe_op ob t) (owner ob) + (\<Sum>sid \<in> ?S. spent t sid)"
    using rest fin
    by (simp add: total_sum observe_inv assms observe_sessions sum.insert_remove sessions_finite)
  have old: "total t = spent t (owner ob) + (\<Sum>sid \<in> ?S. spent t sid)"
    by (cases "owner ob \<in> sessions t")
       (simp_all add: total_sum assms sum.remove sessions_finite spent_unknown)
  from new old show ?thesis by simp
qed

text \<open>If no session's own amount goes down, neither does the total, over any run.\<close>

fun growing :: "'o list \<Rightarrow> 't \<Rightarrow> bool" where
  "growing [] t = True"
| "growing (ob # obs) t =
     (spent t (owner ob) \<le> spent (observe_op ob t) (owner ob) \<and> growing obs (observe_op ob t))"

lemma total_growing: "inv t \<Longrightarrow> growing obs t \<Longrightarrow> total t \<le> total (fold observe_op obs t)"
proof (induction obs arbitrary: t)
  case (Cons ob obs)
  then have "total (observe_op ob t) \<le> total (fold observe_op obs (observe_op ob t))"
    using observe_inv by simp
  with Cons.prems total_observe [OF Cons.prems(1), of ob] show ?case by simp
qed simp

end

fun obs_owner :: "observation \<Rightarrow> string" where
  "obs_owner (ObsUpdate sid _) = sid"
| "obs_owner (ObsPrompt sid _) = sid"

definition spent_usd :: "CostTracker \<Rightarrow> string \<Rightarrow> rat" where
  "spent_usd t sid = usd_part (cur_cost t sid)"

definition total_usd :: "CostTracker \<Rightarrow> rat" where
  "total_usd t = cs_TotalCostUSD (Snapshot t)"

lemma observe_put:
  "observe ob t = amap_put (obs_owner ob) (cur_cost (observe ob t) (obs_owner ob)) t"
  by (cases ob) (simp_all add: recordUsageUpdate_def ObservePromptResult_def)

lemma total_usd_sum:
  "amap_ok t \<Longrightarrow> total_usd t = (\<Sum>sid \<in> fst ` set t. spent_usd t sid)"
proof -
  assume ok: "amap_ok t"
  have one: "usd_part (snd e) = spent_usd t (fst e)" if "e \<in> set t" for e
  proof -
    have m: "map_of t (fst e) = Some (snd e)"
      by (rule map_of_is_SomeI) (use that ok in \<open>simp_all add: amap_ok_def\<close>)
    show ?thesis unfolding spent_usd_def cur_cost_def m by simp
  qed
  have "total_usd t = (\<Sum>e \<leftarrow> t. spent_usd t (fst e))"
    using one Snapshot_sums_usd [of t] by (simp add: total_usd_def cong: map_cong)
  also have "\<dots> = (\<Sum>sid \<leftarrow> map fst t. spent_usd t sid)" by (simp add: comp_def)
  finally show ?thesis
    using ok sum_list_distinct_conv_sum_set [of "map fst t" "spent_usd t"] by (simp add: amap_ok_def)
qed

interpretation budget_src: usage_source observe obs_owner spent_usd "\<lambda>t. fst ` set t" total_usd amap_ok
proof unfold_locales
  fix sid ob t
  assume "sid \<noteq> obs_owner ob"
  then show "spent_usd (observe ob t) sid = spent_usd t sid"
    by (subst observe_put) (simp add: spent_usd_def)
next
  fix ob t
  show "fst ` set (observe ob t) = insert (obs_owner ob) (fst ` set t)"
    by (subst observe_put) (rule keys_amap_put)
next
  fix sid :: string and t :: CostTracker
  assume "sid \<notin> fst ` set t"
  then have "map_of t sid = None" by (simp add: map_of_eq_None_iff)
  then show "spent_usd t sid = 0"
    by (simp add: spent_usd_def cur_cost_def usd_part_def zero_cost_def)
qed (auto simp: total_usd_sum)

section \<open>Facts about the budget\<close>

lemma NewBudgetTracker_threshold:
  "NewBudgetTracker o1 = Inr t \<Longrightarrow> 0 < bt_completionThreshold t \<and> bt_completionThreshold t \<le> 1"
  by (auto simp: NewBudgetTracker_def Let_def split: if_splits)

lemma statusLocked_sel [simp]:
  "bs_Cost (statusLocked t) = Snapshot (bt_cost t)"
  "bs_CompletionRatio (statusLocked t) = completion_ratio t (Snapshot (bt_cost t))"
  "bs_BudgetExceeded (statusLocked t) = exceededLocked t (Snapshot (bt_cost t))"
  "bs_NearCompletion (statusLocked t) \<longleftrightarrow>
     completion_ratio t (Snapshot (bt_cost t)) \<ge> bt_completionThreshold t
     \<and> \<not> exceededLocked t (Snapshot (bt_cost t))"
  by (simp_all add: statusLocked_def Let_def)

lemma exceeded_iff_ratio: "exceededLocked t cost \<longleftrightarrow> completion_ratio t cost \<ge> 1"
proof -
  have tok: "(1 \<le> rat_of_int a / rat_of_int m) = (m \<le> a)" if "0 < m" for a m :: int
    using that by (simp add: le_divide_eq)
  have mx: "(if b > a then b else a) = max a b" for a b :: rat by (simp add: max_def)
  show ?thesis
    by (auto simp: exceededLocked_def completion_ratio_def Let_def mx le_max_iff_disj tok
        le_divide_eq split: option.splits)
qed

text \<open>
  the status is coherent: the budget is exceeded exactly when the completion ratio has reached
  1, and for a tracker built by \<open>NewBudgetTracker\<close> near-completion is exactly the range from the
  threshold up to 1, so the three reasons partition the ratios.
\<close>

theorem budget_status_partition:
  assumes "NewBudgetTracker o1 = Inr t0" "bt_completionThreshold t = bt_completionThreshold t0"
  shows "bs_Reason (statusLocked t) =
           (if 1 \<le> bs_CompletionRatio (statusLocked t) then budgetReasonExceeded
            else if bt_completionThreshold t \<le> bs_CompletionRatio (statusLocked t)
              then budgetReasonNearCompletion
            else budgetReasonWithinBudget)
         \<and> (bs_BudgetExceeded (statusLocked t) \<longleftrightarrow> 1 \<le> bs_CompletionRatio (statusLocked t))
         \<and> (CheckBudget (Some t) \<noteq> None \<longleftrightarrow> bs_Reason (statusLocked t) = budgetReasonExceeded)"
  using NewBudgetTracker_threshold [OF assms(1)] assms(2)
  by (auto simp: statusLocked_def Let_def exceeded_iff_ratio CheckBudget_def Status_def)

theorem budget_status_partition_witness:
  "\<exists>t. NewBudgetTracker \<lparr>bo_MaxCostUSD = Some 2, bo_MaxTotalTokens = None, bo_CompletionThreshold = 0\<rparr> = Inr t
     \<and> bs_Reason (statusLocked (budget_observe (ObsUpdate ''s''
          \<lparr>uu_Cost = Some (2, ''USD''), uu_Size = 0, uu_Used = 0\<rparr>) t)) = budgetReasonExceeded"
proof -
  obtain t where t: "NewBudgetTracker \<lparr>bo_MaxCostUSD = Some 2, bo_MaxTotalTokens = None,
      bo_CompletionThreshold = 0\<rparr> = Inr t"
    by (simp add: NewBudgetTracker_def defaultBudgetCompletionThreshold_def)
  then have t': "t = \<lparr>bt_cost = [], bt_maxCostUSD = Some 2, bt_maxTotalTokens = None,
      bt_completionThreshold = 9 / 10\<rparr>"
    by (simp add: NewBudgetTracker_def defaultBudgetCompletionThreshold_def NewCostTracker_def)
  let ?t = "budget_observe (ObsUpdate ''s'' \<lparr>uu_Cost = Some (2, ''USD''), uu_Size = 0, uu_Used = 0\<rparr>) t"
  have "bt_completionThreshold ?t = bt_completionThreshold t" by (simp add: budget_observe_def)
  from budget_status_partition [OF t this] have "bs_Reason (statusLocked ?t) = budgetReasonExceeded"
    by (simp add: t' budget_observe_def completion_ratio_def recordUsageUpdate_def cur_cost_def
        apply_usage_update_def zero_cost_def Snapshot_def zero_snapshot_def usd_part_def)
  with t show ?thesis by blast
qed

text \<open>
  Once a cost cap has been reached it stays reached: along any sequence of observations in
  which no session's own USD amount goes down (opencode's amounts are cumulative per session),
  \<open>CheckBudget\<close> keeps reporting \<open>ErrBudgetExceeded\<close>, whatever the other sessions do.
\<close>

theorem budget_exceeded_stable:
  assumes "amap_ok (bt_cost t)" "budget_src.growing obs (bt_cost t)"
    and "bt_maxCostUSD t = Some m" "0 < m" "m \<le> total_usd (bt_cost t)"
  shows "CheckBudget (Some (fold budget_observe obs t)) = Some (ESent ErrBudgetExceeded)"
proof -
  have frame: "bt_cost (fold budget_observe obs t) = fold observe obs (bt_cost t)
      \<and> bt_maxCostUSD (fold budget_observe obs t) = bt_maxCostUSD t"
    by (induction obs arbitrary: t) (simp_all add: budget_observe_def)
  have "m \<le> total_usd (fold observe obs (bt_cost t))"
    using budget_src.total_growing [OF assms(1,2)] assms(5) by linarith
  with frame assms(3,4) show ?thesis
    by (simp add: CheckBudget_def Status_def exceededLocked_def total_usd_def)
qed

definition spent_tracker :: BudgetTracker where
  "spent_tracker = \<lparr>bt_cost = [(''a'', zero_cost\<lparr>sc_CostUSD := 3\<rparr>)], bt_maxCostUSD = Some 2,
     bt_maxTotalTokens = None, bt_completionThreshold = 9 / 10\<rparr>"

theorem budget_exceeded_stable_witness:
  "CheckBudget (Some (fold budget_observe
     [ObsUpdate ''b'' \<lparr>uu_Cost = Some (1, ''USD''), uu_Size = 0, uu_Used = 0\<rparr>] spent_tracker))
     = Some (ESent ErrBudgetExceeded)"
  by (rule budget_exceeded_stable [of _ _ 2])
     (simp_all add: spent_tracker_def amap_ok_def spent_usd_def usd_part_def cur_cost_def zero_cost_def
       recordUsageUpdate_def apply_usage_update_def total_usd_def Snapshot_def zero_snapshot_def)

end
