(* ===== verification/Options.thy ===== *)
theory Options
  imports FsHandlers Session Budget
begin

text \<open>
  The client options (\<open>options.go\<close>, \<open>effort.go\<close>, the option constructors of \<open>permissions.go\<close>,
  \<open>tool_filters.go\<close>, \<open>hooks.go\<close>, \<open>mcp.go\<close>) and the per-call merge of \<open>client_impl.go\<close>.

  Three options are Go maps and so references: the environment, the extra arguments and the hook
  table. They live in a heap, because the merge copies only one of them and the aliasing of the
  others is visible. A budget tracker is a pointer too: it is given by how it is read from and
  written to the caller's world.
\<close>

section \<open>Options\<close>

datatype Effort =
    EffortUnset | EffortNone | EffortLow | EffortMedium | EffortHigh | EffortMax | OtherEffort string

fun effort_text :: "Effort \<Rightarrow> string" where
  "effort_text EffortUnset = []"
| "effort_text EffortNone = ''none''"
| "effort_text EffortLow = ''low''"
| "effort_text EffortMedium = ''medium''"
| "effort_text EffortHigh = ''high''"
| "effort_text EffortMax = ''max''"
| "effort_text (OtherEffort s) = s"

record ToolAnnotations =
  ta_Title :: string
  ta_ReadOnlyHint :: bool
  ta_DestructiveHint :: "bool option"
  ta_IdempotentHint :: bool
  ta_OpenWorldHint :: "bool option"

record 'w Tool =
  tl_Name :: string
  tl_Description :: string
  tl_Schema :: "payload option"
  tl_Annotations :: "ToolAnnotations option"
  tl_Execute :: "payload \<Rightarrow> 'w \<Rightarrow> (ToolOutput \<times> goerr option) \<times> 'w"

definition NewTool :: "string \<Rightarrow> string \<Rightarrow> payload option \<Rightarrow>
    (payload \<Rightarrow> 'w \<Rightarrow> (ToolOutput \<times> goerr option) \<times> 'w) \<Rightarrow> ToolAnnotations list \<Rightarrow> 'w Tool" where
  "NewTool name description schema fn annotations =
     \<lparr>tl_Name = name, tl_Description = description, tl_Schema = schema,
      tl_Annotations = (if annotations = [] then None else Some (last annotations)), tl_Execute = fn\<rparr>"

type_synonym ('s, 'w) cell = "('w \<Rightarrow> 's) \<times> ('s \<Rightarrow> 'w \<Rightarrow> 'w)"

type_synonym ref = nat

text \<open>
  A logger, a provider of meters or tracers and a Prometheus registerer are objects of their libraries,
  known by a number.
\<close>

datatype logger = NopLogger | CallerLogger nat

definition discardLogger :: logger where "discardLogger = NopLogger"

record 'w options =
  o_cliPath :: string
  o_cliFlags :: "string list"
  o_cliExtraArgs :: "ref option"
  o_env :: "ref option"
  o_cwd :: string
  o_opencodeHome :: string
  o_skipVersionCheck :: bool
  o_user :: string
  o_initializeTimeout :: int
  o_model :: string
  o_agent :: string
  o_effort :: Effort
  o_maxTurns :: int
  o_mcpServers :: "McpServer list"
  o_additionalDirectories :: "string list"
  o_updatesBuffer :: int
  o_allowedTools :: "string list"
  o_disallowedTools :: "string list"
  o_canUseTool :: "'w PermissionCallback option"
  o_onFsWrite :: "'w FsWriteCallback option"
  o_onTurnComplete :: "(string \<Rightarrow> PromptResult option \<Rightarrow> goerr option \<Rightarrow> 'w \<Rightarrow> 'w) option"
  o_onUpdateDropped :: "(string \<Rightarrow> int \<Rightarrow> 'w \<Rightarrow> 'w) option"
  o_onElicitation :: "'w ElicitationCallback option"
  o_onUserInput :: bool
  o_hooks :: "ref option"
  o_terminalAuthCapability :: bool
  o_autoLaunchLogin :: bool
  o_strictCwdBoundary :: bool
  o_sdkTools :: "'w Tool list"
  o_outputSchema :: "payload option"
  o_budgetTracker :: "(BudgetTracker, 'w) cell option"
  o_autoCancelOnBudget :: bool
  o_customTransport :: bool
  o_logger :: "logger option"
  o_stderr :: "(string \<Rightarrow> 'w \<Rightarrow> 'w) option"
  o_onElicitationComplete :: "(string \<Rightarrow> 'w \<Rightarrow> 'w) option"
  o_meterProvider :: "nat option"
  o_tracerProvider :: "nat option"
  o_promRegisterer :: "nat option"

definition defaultOptions :: "'w options" where
  "defaultOptions = \<lparr>o_cliPath = [], o_cliFlags = [], o_cliExtraArgs = None, o_env = None, o_cwd = [],
     o_opencodeHome = [], o_skipVersionCheck = False, o_user = [], o_initializeTimeout = 60 * 10 ^ 9,
     o_model = [], o_agent = [], o_effort = EffortUnset, o_maxTurns = 0, o_mcpServers = [],
     o_additionalDirectories = [], o_updatesBuffer = 0, o_allowedTools = [], o_disallowedTools = [],
     o_canUseTool = None, o_onFsWrite = None, o_onTurnComplete = None, o_onUpdateDropped = None,
     o_onElicitation = None, o_onUserInput = False, o_hooks = None, o_terminalAuthCapability = False,
     o_autoLaunchLogin = False, o_strictCwdBoundary = False, o_sdkTools = [], o_outputSchema = None,
     o_budgetTracker = None, o_autoCancelOnBudget = False, o_customTransport = False, o_logger = None,
     o_stderr = None, o_onElicitationComplete = None, o_meterProvider = None, o_tracerProvider = None,
     o_promRegisterer = None\<rparr>"

record 'w heap =
  hp_env :: "ref \<Rightarrow> (string \<times> string) list"
  hp_args :: "ref \<Rightarrow> (string \<times> string option) list"
  hp_hooks :: "ref \<Rightarrow> 'w hook_table"
  hp_next :: ref

type_synonym 'w oh = "'w options \<times> 'w heap"

text \<open>\<open>maps.Copy\<close>.\<close>

definition maps_copy :: "('k \<times> 'v) list \<Rightarrow> ('k \<times> 'v) list \<Rightarrow> ('k \<times> 'v) list" where
  "maps_copy dst src = fold (\<lambda>(k, v). amap_put k v) src dst"

section \<open>Constructors\<close>

definition WithCLIFlags :: "string list \<Rightarrow> 'w oh \<Rightarrow> 'w oh" where
  "WithCLIFlags flags oh = (case oh of (o1, h) \<Rightarrow> (o1\<lparr>o_cliFlags := o_cliFlags o1 @ flags\<rparr>, h))"

definition WithPure :: "'w oh \<Rightarrow> 'w oh" where
  "WithPure = WithCLIFlags [''--pure'']"

definition WithEnv :: "(string \<times> string) list \<Rightarrow> 'w oh \<Rightarrow> 'w oh" where
  "WithEnv env oh =
     (case oh of (o1, h) \<Rightarrow>
       (case o_env o1 of
          Some r \<Rightarrow> (o1, h\<lparr>hp_env := (hp_env h)(r := maps_copy (hp_env h r) env)\<rparr>)
        | None \<Rightarrow> (o1\<lparr>o_env := Some (hp_next h)\<rparr>,
            h\<lparr>hp_env := (hp_env h)(hp_next h := maps_copy [] env), hp_next := hp_next h + 1\<rparr>)))"

definition WithExtraArgs :: "(string \<times> string option) list \<Rightarrow> 'w oh \<Rightarrow> 'w oh" where
  "WithExtraArgs args oh =
     (case oh of (o1, h) \<Rightarrow>
       (case o_cliExtraArgs o1 of
          Some r \<Rightarrow> (o1, h\<lparr>hp_args := (hp_args h)(r := maps_copy (hp_args h r) args)\<rparr>)
        | None \<Rightarrow> (o1\<lparr>o_cliExtraArgs := Some (hp_next h)\<rparr>,
            h\<lparr>hp_args := (hp_args h)(hp_next h := maps_copy [] args), hp_next := hp_next h + 1\<rparr>)))"

definition WithHooks_option :: "'w hook_table \<Rightarrow> 'w oh \<Rightarrow> 'w oh" where
  "WithHooks_option hooks oh =
     (case oh of (o1, h) \<Rightarrow>
       (case o_hooks o1 of
          Some r \<Rightarrow> (o1, h\<lparr>hp_hooks := (hp_hooks h)(r := WithHooks hooks (hp_hooks h r))\<rparr>)
        | None \<Rightarrow> (o1\<lparr>o_hooks := Some (hp_next h)\<rparr>,
            h\<lparr>hp_hooks := (hp_hooks h)(hp_next h := WithHooks hooks []), hp_next := hp_next h + 1\<rparr>)))"

definition WithMCPServers :: "McpServer list \<Rightarrow> 'w oh \<Rightarrow> 'w oh" where
  "WithMCPServers servers oh =
     (case oh of (o1, h) \<Rightarrow> (o1\<lparr>o_mcpServers := o_mcpServers o1 @ servers\<rparr>, h))"

definition WithSDKTools :: "'w Tool list \<Rightarrow> 'w oh \<Rightarrow> 'w oh" where
  "WithSDKTools tools oh = (case oh of (o1, h) \<Rightarrow> (o1\<lparr>o_sdkTools := o_sdkTools o1 @ tools\<rparr>, h))"

definition WithAddDirs :: "string list \<Rightarrow> 'w oh \<Rightarrow> 'w oh" where
  "WithAddDirs dirs oh =
     (case oh of (o1, h) \<Rightarrow> (o1\<lparr>o_additionalDirectories := o_additionalDirectories o1 @ dirs\<rparr>, h))"

definition WithAutoLaunchLogin :: "bool \<Rightarrow> 'w oh \<Rightarrow> 'w oh" where
  "WithAutoLaunchLogin enabled oh =
     (case oh of (o1, h) \<Rightarrow>
       (let o2 = o1\<lparr>o_autoLaunchLogin := enabled\<rparr>
        in (if enabled then o2\<lparr>o_terminalAuthCapability := True\<rparr> else o2, h)))"

definition WithBudgetTracker :: "(BudgetTracker, 'w) cell option \<Rightarrow> 'w oh \<Rightarrow> 'w oh" where
  "WithBudgetTracker t oh =
     (case oh of (o1, h) \<Rightarrow> (o1\<lparr>o_budgetTracker := t, o_autoCancelOnBudget := False\<rparr>, h))"

text \<open>
  \<open>WithMaxBudgetUSD\<close> allocates a tracker: \<open>fresh\<close> is the pointer it gets, whose contents the caller
  of \<open>NewClient\<close> initialises with the value \<open>NewBudgetTracker\<close> returns.
\<close>

definition WithMaxBudgetUSD :: "rat \<Rightarrow> (BudgetTracker, 'w) cell \<Rightarrow> 'w oh \<Rightarrow> 'w oh" where
  "WithMaxBudgetUSD budgetUSD fresh oh =
     (case NewBudgetTracker \<lparr>bo_MaxCostUSD = Some budgetUSD, bo_MaxTotalTokens = None, bo_CompletionThreshold = 0\<rparr> of
        Inl _ \<Rightarrow> oh
      | Inr _ \<Rightarrow> (case oh of (o1, h) \<Rightarrow> (o1\<lparr>o_budgetTracker := Some fresh, o_autoCancelOnBudget := True\<rparr>, h)))"

definition WithOutputSchema :: "payload \<Rightarrow> 'w oh \<Rightarrow> 'w oh" where
  "WithOutputSchema schema oh =
     (case oh of (o1, h) \<Rightarrow> (o1\<lparr>o_outputSchema := unwrapOutputSchemaEnvelope schema\<rparr>, h))"

definition WithAllowedTools_option :: "string list \<Rightarrow> 'w oh \<Rightarrow> 'w oh" where
  "WithAllowedTools_option names oh =
     (case oh of (o1, h) \<Rightarrow> (o1\<lparr>o_allowedTools := WithAllowedTools names (o_allowedTools o1)\<rparr>, h))"

definition WithDisallowedTools :: "string list \<Rightarrow> 'w oh \<Rightarrow> 'w oh" where
  "WithDisallowedTools names oh =
     (case oh of (o1, h) \<Rightarrow> (o1\<lparr>o_disallowedTools := o_disallowedTools o1 @ names\<rparr>, h))"

definition WithAgent :: "string \<Rightarrow> 'w oh \<Rightarrow> 'w oh" where
  "WithAgent agent oh = (case oh of (o1, h) \<Rightarrow> (o1\<lparr>o_agent := agent\<rparr>, h))"

definition WithInitialMode :: "string \<Rightarrow> 'w oh \<Rightarrow> 'w oh" where
  "WithInitialMode mode = WithAgent mode"

text \<open>The constructors that store one value.\<close>

definition WithCLIPath :: "string \<Rightarrow> 'w oh \<Rightarrow> 'w oh" where
  "WithCLIPath x oh = (case oh of (o1, h) \<Rightarrow> (o1\<lparr>o_cliPath := x\<rparr>, h))"

definition WithUser :: "string \<Rightarrow> 'w oh \<Rightarrow> 'w oh" where
  "WithUser x oh = (case oh of (o1, h) \<Rightarrow> (o1\<lparr>o_user := x\<rparr>, h))"

definition WithCwd :: "string \<Rightarrow> 'w oh \<Rightarrow> 'w oh" where
  "WithCwd x oh = (case oh of (o1, h) \<Rightarrow> (o1\<lparr>o_cwd := x\<rparr>, h))"

definition WithOpencodeHome :: "string \<Rightarrow> 'w oh \<Rightarrow> 'w oh" where
  "WithOpencodeHome x oh = (case oh of (o1, h) \<Rightarrow> (o1\<lparr>o_opencodeHome := x\<rparr>, h))"

definition WithInitializeTimeout :: "int \<Rightarrow> 'w oh \<Rightarrow> 'w oh" where
  "WithInitializeTimeout x oh = (case oh of (o1, h) \<Rightarrow> (o1\<lparr>o_initializeTimeout := x\<rparr>, h))"

definition WithSkipVersionCheck :: "bool \<Rightarrow> 'w oh \<Rightarrow> 'w oh" where
  "WithSkipVersionCheck x oh = (case oh of (o1, h) \<Rightarrow> (o1\<lparr>o_skipVersionCheck := x\<rparr>, h))"

definition WithModel :: "string \<Rightarrow> 'w oh \<Rightarrow> 'w oh" where
  "WithModel x oh = (case oh of (o1, h) \<Rightarrow> (o1\<lparr>o_model := x\<rparr>, h))"

definition WithUpdatesBuffer :: "int \<Rightarrow> 'w oh \<Rightarrow> 'w oh" where
  "WithUpdatesBuffer x oh = (case oh of (o1, h) \<Rightarrow> (o1\<lparr>o_updatesBuffer := x\<rparr>, h))"

definition WithTerminalAuthCapability :: "bool \<Rightarrow> 'w oh \<Rightarrow> 'w oh" where
  "WithTerminalAuthCapability x oh = (case oh of (o1, h) \<Rightarrow> (o1\<lparr>o_terminalAuthCapability := x\<rparr>, h))"

definition WithStrictCwdBoundary :: "bool \<Rightarrow> 'w oh \<Rightarrow> 'w oh" where
  "WithStrictCwdBoundary x oh = (case oh of (o1, h) \<Rightarrow> (o1\<lparr>o_strictCwdBoundary := x\<rparr>, h))"

definition WithMaxTurns :: "int \<Rightarrow> 'w oh \<Rightarrow> 'w oh" where
  "WithMaxTurns x oh = (case oh of (o1, h) \<Rightarrow> (o1\<lparr>o_maxTurns := x\<rparr>, h))"

definition WithEffort :: "Effort \<Rightarrow> 'w oh \<Rightarrow> 'w oh" where
  "WithEffort x oh = (case oh of (o1, h) \<Rightarrow> (o1\<lparr>o_effort := x\<rparr>, h))"

definition WithLogger :: "logger option \<Rightarrow> 'w oh \<Rightarrow> 'w oh" where
  "WithLogger x oh = (case oh of (o1, h) \<Rightarrow> (o1\<lparr>o_logger := x\<rparr>, h))"

definition WithMeterProvider :: "nat option \<Rightarrow> 'w oh \<Rightarrow> 'w oh" where
  "WithMeterProvider x oh = (case oh of (o1, h) \<Rightarrow> (o1\<lparr>o_meterProvider := x\<rparr>, h))"

definition WithTracerProvider :: "nat option \<Rightarrow> 'w oh \<Rightarrow> 'w oh" where
  "WithTracerProvider x oh = (case oh of (o1, h) \<Rightarrow> (o1\<lparr>o_tracerProvider := x\<rparr>, h))"

definition WithPrometheusRegisterer :: "nat option \<Rightarrow> 'w oh \<Rightarrow> 'w oh" where
  "WithPrometheusRegisterer x oh = (case oh of (o1, h) \<Rightarrow> (o1\<lparr>o_promRegisterer := x\<rparr>, h))"

text \<open>
  Of a transport factory and of the user-input callback the options record whether there is one: what
  they do is a parameter of \<open>Start\<close>.
\<close>

definition WithTransport :: "bool \<Rightarrow> 'w oh \<Rightarrow> 'w oh" where
  "WithTransport x oh = (case oh of (o1, h) \<Rightarrow> (o1\<lparr>o_customTransport := x\<rparr>, h))"

definition WithOnUserInput :: "bool \<Rightarrow> 'w oh \<Rightarrow> 'w oh" where
  "WithOnUserInput x oh = (case oh of (o1, h) \<Rightarrow> (o1\<lparr>o_onUserInput := x\<rparr>, h))"

datatype setting =
    SetLogger "logger option" | SetMeterProvider "nat option" | SetTracerProvider "nat option"
  | SetPrometheusRegisterer "nat option" | SetTransport bool | SetOnUserInput bool
  | SetCLIPath string | SetUser string | SetCwd string | SetOpencodeHome string
  | SetInitializeTimeout int | SetSkipVersionCheck bool | SetModelOption string
  | SetUpdatesBuffer int | SetTerminalAuthCapability bool | SetStrictCwdBoundary bool
  | SetMaxTurns int | SetEffort Effort

fun WithSetting :: "setting \<Rightarrow> 'w oh \<Rightarrow> 'w oh" where
  "WithSetting (SetCLIPath x) = WithCLIPath x"
| "WithSetting (SetUser x) = WithUser x"
| "WithSetting (SetCwd x) = WithCwd x"
| "WithSetting (SetOpencodeHome x) = WithOpencodeHome x"
| "WithSetting (SetInitializeTimeout x) = WithInitializeTimeout x"
| "WithSetting (SetSkipVersionCheck x) = WithSkipVersionCheck x"
| "WithSetting (SetModelOption x) = WithModel x"
| "WithSetting (SetUpdatesBuffer x) = WithUpdatesBuffer x"
| "WithSetting (SetTerminalAuthCapability x) = WithTerminalAuthCapability x"
| "WithSetting (SetStrictCwdBoundary x) = WithStrictCwdBoundary x"
| "WithSetting (SetMaxTurns x) = WithMaxTurns x"
| "WithSetting (SetEffort x) = WithEffort x"
| "WithSetting (SetLogger x) = WithLogger x"
| "WithSetting (SetMeterProvider x) = WithMeterProvider x"
| "WithSetting (SetTracerProvider x) = WithTracerProvider x"
| "WithSetting (SetPrometheusRegisterer x) = WithPrometheusRegisterer x"
| "WithSetting (SetTransport x) = WithTransport x"
| "WithSetting (SetOnUserInput x) = WithOnUserInput x"

text \<open>The constructors that store a callback.\<close>

definition WithCanUseTool :: "'w PermissionCallback option \<Rightarrow> 'w oh \<Rightarrow> 'w oh" where
  "WithCanUseTool x oh = (case oh of (o1, h) \<Rightarrow> (o1\<lparr>o_canUseTool := x\<rparr>, h))"

definition WithOnFsWrite :: "'w FsWriteCallback option \<Rightarrow> 'w oh \<Rightarrow> 'w oh" where
  "WithOnFsWrite x oh = (case oh of (o1, h) \<Rightarrow> (o1\<lparr>o_onFsWrite := x\<rparr>, h))"

definition WithOnTurnComplete :: "(string \<Rightarrow> PromptResult option \<Rightarrow> goerr option \<Rightarrow> 'w \<Rightarrow> 'w) option \<Rightarrow> 'w oh \<Rightarrow> 'w oh" where
  "WithOnTurnComplete x oh = (case oh of (o1, h) \<Rightarrow> (o1\<lparr>o_onTurnComplete := x\<rparr>, h))"

definition WithOnUpdateDropped :: "(string \<Rightarrow> int \<Rightarrow> 'w \<Rightarrow> 'w) option \<Rightarrow> 'w oh \<Rightarrow> 'w oh" where
  "WithOnUpdateDropped x oh = (case oh of (o1, h) \<Rightarrow> (o1\<lparr>o_onUpdateDropped := x\<rparr>, h))"

definition WithOnElicitation :: "'w ElicitationCallback option \<Rightarrow> 'w oh \<Rightarrow> 'w oh" where
  "WithOnElicitation x oh = (case oh of (o1, h) \<Rightarrow> (o1\<lparr>o_onElicitation := x\<rparr>, h))"

definition WithStderr :: "(string \<Rightarrow> 'w \<Rightarrow> 'w) option \<Rightarrow> 'w oh \<Rightarrow> 'w oh" where
  "WithStderr x oh = (case oh of (o1, h) \<Rightarrow> (o1\<lparr>o_stderr := x\<rparr>, h))"

definition WithOnElicitationComplete :: "(string \<Rightarrow> 'w \<Rightarrow> 'w) option \<Rightarrow> 'w oh \<Rightarrow> 'w oh" where
  "WithOnElicitationComplete x oh = (case oh of (o1, h) \<Rightarrow> (o1\<lparr>o_onElicitationComplete := x\<rparr>, h))"

datatype 'w callback_setting =
    SetStderr "(string \<Rightarrow> 'w \<Rightarrow> 'w) option" | SetOnElicitationComplete "(string \<Rightarrow> 'w \<Rightarrow> 'w) option"
  | SetCanUseTool "'w PermissionCallback option"
  | SetOnFsWrite "'w FsWriteCallback option"
  | SetOnTurnComplete "(string \<Rightarrow> PromptResult option \<Rightarrow> goerr option \<Rightarrow> 'w \<Rightarrow> 'w) option"
  | SetOnUpdateDropped "(string \<Rightarrow> int \<Rightarrow> 'w \<Rightarrow> 'w) option"
  | SetOnElicitation "'w ElicitationCallback option"

fun WithCallback :: "'w callback_setting \<Rightarrow> 'w oh \<Rightarrow> 'w oh" where
  "WithCallback (SetCanUseTool x) = WithCanUseTool x"
| "WithCallback (SetOnFsWrite x) = WithOnFsWrite x"
| "WithCallback (SetOnTurnComplete x) = WithOnTurnComplete x"
| "WithCallback (SetOnUpdateDropped x) = WithOnUpdateDropped x"
| "WithCallback (SetOnElicitation x) = WithOnElicitation x"
| "WithCallback (SetStderr x) = WithStderr x"
| "WithCallback (SetOnElicitationComplete x) = WithOnElicitationComplete x"

lemmas setting_defs = WithCLIPath_def WithUser_def WithCwd_def WithOpencodeHome_def WithInitializeTimeout_def WithSkipVersionCheck_def WithModel_def WithUpdatesBuffer_def WithTerminalAuthCapability_def WithStrictCwdBoundary_def WithMaxTurns_def WithEffort_def WithCanUseTool_def WithOnFsWrite_def WithOnTurnComplete_def WithOnUpdateDropped_def WithOnElicitation_def
  WithLogger_def WithMeterProvider_def WithTracerProvider_def WithPrometheusRegisterer_def WithTransport_def
  WithOnUserInput_def WithStderr_def WithOnElicitationComplete_def

text \<open>An option as a value, and a list of options applied in order.\<close>

datatype 'w opt =
    OSetting setting | OCallback "'w callback_setting" | OCLIFlags "string list" | OPure
  | OEnv "(string \<times> string) list" | OExtraArgs "(string \<times> string option) list"
  | OHooks "'w hook_table" | OMCPServers "McpServer list" | OSDKTools "'w Tool list"
  | OAddDirs "string list" | OAutoLaunchLogin bool
  | OBudgetTracker "(BudgetTracker, 'w) cell option" | OMaxBudgetUSD rat "(BudgetTracker, 'w) cell"
  | OOutputSchema payload | OAllowedTools "string list" | ODisallowedTools "string list"
  | OAgent string

fun apply_opt :: "'w opt \<Rightarrow> 'w oh \<Rightarrow> 'w oh" where
  "apply_opt (OSetting x) = WithSetting x"
| "apply_opt (OCallback x) = WithCallback x"
| "apply_opt (OCLIFlags x) = WithCLIFlags x"
| "apply_opt OPure = WithPure"
| "apply_opt (OEnv x) = WithEnv x"
| "apply_opt (OExtraArgs x) = WithExtraArgs x"
| "apply_opt (OHooks x) = WithHooks_option x"
| "apply_opt (OMCPServers x) = WithMCPServers x"
| "apply_opt (OSDKTools x) = WithSDKTools x"
| "apply_opt (OAddDirs x) = WithAddDirs x"
| "apply_opt (OAutoLaunchLogin x) = WithAutoLaunchLogin x"
| "apply_opt (OBudgetTracker x) = WithBudgetTracker x"
| "apply_opt (OMaxBudgetUSD x c) = WithMaxBudgetUSD x c"
| "apply_opt (OOutputSchema x) = WithOutputSchema x"
| "apply_opt (OAllowedTools x) = WithAllowedTools_option x"
| "apply_opt (ODisallowedTools x) = WithDisallowedTools x"
| "apply_opt (OAgent x) = WithAgent x"

definition apply_options :: "'w opt list \<Rightarrow> 'w heap \<Rightarrow> 'w oh" where
  "apply_options opts h =
     (case fold apply_opt opts (defaultOptions, h) of
        (o1, h') \<Rightarrow> (if o_logger o1 = None then o1\<lparr>o_logger := Some discardLogger\<rparr> else o1, h'))"

text \<open>A client always has a logger, and the SDK is silent unless the caller hands one in.\<close>

lemma apply_options_logger: "o_logger (fst (apply_options opts h)) \<noteq> None"
  by (simp add: apply_options_def split: prod.split)

section \<open>The per-call merge\<close>

fun normalizeMcpServer :: "McpServer \<Rightarrow> McpServer" where
  "normalizeMcpServer s =
     (case mcp_Stdio s of
        Some st \<Rightarrow> s\<lparr>mcp_Stdio := Some (st\<lparr>
          ms_Args := Some (case ms_Args st of None \<Rightarrow> [] | Some a \<Rightarrow> a),
          ms_Env := Some (case ms_Env st of None \<Rightarrow> [] | Some a \<Rightarrow> a)\<rparr>)\<rparr>
      | None \<Rightarrow>
          (case mcp_Http s of
             Some ht \<Rightarrow> s\<lparr>mcp_Http := Some (ht\<lparr>
               mh_Headers := Some (case mh_Headers ht of None \<Rightarrow> [] | Some a \<Rightarrow> a)\<rparr>)\<rparr>
           | None \<Rightarrow>
               (case mcp_Sse s of
                  Some ht \<Rightarrow> s\<lparr>mcp_Sse := Some (ht\<lparr>
                    mh_Headers := Some (case mh_Headers ht of None \<Rightarrow> [] | Some a \<Rightarrow> a)\<rparr>)\<rparr>
                | None \<Rightarrow> s)))"

definition normalizeMcpServerSlices :: "McpServer list \<Rightarrow> McpServer list" where
  "normalizeMcpServerSlices servers = map normalizeMcpServer servers"

definition bridgeMcpName :: string where "bridgeMcpName = ''opencodesdk''"

definition bridgeMcpServerEntry :: "string \<Rightarrow> string \<Rightarrow> McpServer" where
  "bridgeMcpServerEntry url token = \<lparr>mcp_Stdio = None,
     mcp_Http = Some \<lparr>mh_Name = bridgeMcpName, mh_Url = url,
       mh_Headers = Some [(''Authorization'', ''Bearer '' @ token)]\<rparr>, mcp_Sse = None\<rparr>"

text \<open>
  \<open>mergeOptions\<close>: \<open>bridge\<close> is the running bridge's URL and token, \<open>tui\<close> what \<open>tuimodel.Resolve\<close> gives.
\<close>

definition copy_env :: "'w oh \<Rightarrow> 'w oh" where
  "copy_env oh =
     (case oh of (o1, h) \<Rightarrow>
       (case o_env o1 of
          None \<Rightarrow> (o1, h)
        | Some r \<Rightarrow> (o1\<lparr>o_env := Some (hp_next h)\<rparr>,
            h\<lparr>hp_env := (hp_env h)(hp_next h := maps_copy [] (hp_env h r)), hp_next := hp_next h + 1\<rparr>)))"

definition mergeOptions :: "(string \<times> string) option \<Rightarrow> string \<Rightarrow> 'w opt list \<Rightarrow> 'w oh \<Rightarrow> 'w oh" where
  "mergeOptions bridge tui overrides oh =
     (case fold apply_opt overrides (copy_env oh) of
        (o1, h) \<Rightarrow>
          (let servers = (case bridge of
                 None \<Rightarrow> o_mcpServers o1
               | Some (url, token) \<Rightarrow> bridgeMcpServerEntry url token # o_mcpServers o1);
               o2 = o1\<lparr>o_mcpServers := normalizeMcpServerSlices servers\<rparr>
           in (if o_model o2 = [] \<and> tui \<noteq> [] then o2\<lparr>o_model := tui\<rparr> else o2, h)))"

section \<open>What a merge guarantees\<close>

definition env_fresh :: "nat \<Rightarrow> ('w heap \<Rightarrow> ref \<Rightarrow> (string \<times> string) list) \<Rightarrow> 'w oh \<Rightarrow> 'w heap \<Rightarrow> bool" where
  "env_fresh n sel oh h0 \<longleftrightarrow> hp_next (snd oh) \<ge> n \<and>
     (case o_env (fst oh) of None \<Rightarrow> True | Some r \<Rightarrow> r \<ge> n) \<and>
     (\<forall>r < n. sel (snd oh) r = sel h0 r)"

lemma WithSetting_env: "o_env (fst (WithSetting x oh)) = o_env (fst oh) \<and> snd (WithSetting x oh) = snd oh"
  by (cases x; cases oh) (simp_all add: setting_defs)

lemma WithCallback_env: "o_env (fst (WithCallback x oh)) = o_env (fst oh) \<and> snd (WithCallback x oh) = snd oh"
  by (cases x; cases oh) (simp_all add: setting_defs)

lemma apply_opt_env_fresh: "env_fresh n hp_env oh h0 \<Longrightarrow> env_fresh n hp_env (apply_opt x oh) h0"
  using WithSetting_env [of _ oh] WithCallback_env [of _ oh]
  by (cases x; cases oh)
    (auto simp: env_fresh_def WithCLIFlags_def WithPure_def WithEnv_def WithExtraArgs_def WithHooks_option_def
      WithMCPServers_def WithSDKTools_def WithAddDirs_def WithAutoLaunchLogin_def WithBudgetTracker_def
      WithMaxBudgetUSD_def WithOutputSchema_def WithAllowedTools_option_def WithDisallowedTools_def WithAgent_def
      Let_def split: option.splits sum.splits)

lemma apply_opts_env_fresh:
  "env_fresh n hp_env oh h0 \<Longrightarrow> env_fresh n hp_env (fold apply_opt xs oh) h0"
  by (induction xs arbitrary: oh) (simp_all add: apply_opt_env_fresh)

lemma mergeOptions_snd:
  "snd (mergeOptions b t xs oh) = snd (fold apply_opt xs (copy_env oh))"
  by (simp add: mergeOptions_def Let_def split: prod.splits)

text \<open>
  Per-call overrides never corrupt the client's environment: whatever options a session call is
  given, every environment map that existed before the merge, the client's own included, has the
  same contents afterwards.
\<close>

theorem merge_keeps_client_env:
  assumes "r < hp_next h"
  shows "hp_env (snd (mergeOptions b t xs (o1, h))) r = hp_env h r"
proof -
  have "env_fresh (hp_next h) hp_env (copy_env (o1, h)) h"
    by (auto simp: env_fresh_def copy_env_def split: option.splits)
  from apply_opts_env_fresh [OF this, of xs] assms show ?thesis
    by (simp add: mergeOptions_snd env_fresh_def)
qed

definition demo_heap :: "nat heap" where
  "demo_heap = \<lparr>hp_env = (\<lambda>_. [(''A'', ''1'')]), hp_args = (\<lambda>_. []), hp_hooks = (\<lambda>_. []), hp_next = 3\<rparr>"

definition demo_options :: "nat options" where
  "demo_options = defaultOptions\<lparr>o_env := Some 0, o_cliExtraArgs := Some 1, o_hooks := Some 2\<rparr>"

theorem merge_keeps_client_env_witness:
  "hp_env (snd (mergeOptions None [] [OEnv [(''A'', ''2'')]] (demo_options, demo_heap))) 0 = [(''A'', ''1'')]"
  using merge_keeps_client_env [of 0 demo_heap None "[]" "[OEnv [(''A'', ''2'')]]" demo_options]
  by (simp add: demo_heap_def)

text \<open>
  The isolation does not extend to the other two maps, although the merge is documented to
  allocate every mutable collection afresh: a per-call \<open>WithHooks\<close> or \<open>WithExtraArgs\<close> on a client
  that has a hook table or extra arguments writes into the client's own map, so the hooks of one
  session call are from then on dispatched for every session.
\<close>

theorem merge_leaks_hooks_and_args:
  "o_hooks o1 = Some r \<and> o_cliExtraArgs o1 = Some a \<longrightarrow>
     hp_hooks (snd (mergeOptions b t [OHooks hooks, OExtraArgs args] (o1, h))) r = WithHooks hooks (hp_hooks h r) \<and>
     hp_args (snd (mergeOptions b t [OHooks hooks, OExtraArgs args] (o1, h))) a = maps_copy (hp_args h a) args"
  by (auto simp: mergeOptions_snd copy_env_def WithHooks_option_def WithExtraArgs_def split: option.splits)

theorem merge_leaks_hooks_and_args_witness:
  "hp_hooks (snd (mergeOptions None [] [OHooks [(HookEventStop, [once_demo])], OExtraArgs []]
     (demo_options, demo_heap))) 2 = [(HookEventStop, [once_demo])]"
  using merge_leaks_hooks_and_args [of demo_options 2 1 None "[]" "[(HookEventStop, [once_demo])]" "[]" demo_heap]
  by (simp add: demo_options_def defaultOptions_def demo_heap_def WithHooks_def matchers_for_def)

text \<open>
  A server entry is a union: at most one variant is set. It is clean for opencode's schema when no
  list of its variant is nil.
\<close>

definition union_ok :: "McpServer \<Rightarrow> bool" where
  "union_ok s \<longleftrightarrow> (mcp_Stdio s \<noteq> None \<longrightarrow> mcp_Http s = None \<and> mcp_Sse s = None) \<and>
     (mcp_Http s \<noteq> None \<longrightarrow> mcp_Sse s = None)"

definition no_nil_slices :: "McpServer \<Rightarrow> bool" where
  "no_nil_slices s \<longleftrightarrow>
     (case mcp_Stdio s of None \<Rightarrow> True | Some st \<Rightarrow> ms_Args st \<noteq> None \<and> ms_Env st \<noteq> None) \<and>
     (case mcp_Http s of None \<Rightarrow> True | Some ht \<Rightarrow> mh_Headers ht \<noteq> None) \<and>
     (case mcp_Sse s of None \<Rightarrow> True | Some ht \<Rightarrow> mh_Headers ht \<noteq> None)"

lemma normalize_clean: "union_ok s \<Longrightarrow> no_nil_slices (normalizeMcpServer s)"
  by (auto simp: union_ok_def no_nil_slices_def split: option.splits)

definition server_name :: "McpServer \<Rightarrow> string option" where
  "server_name s = first_some [map_option ms_Name (mcp_Stdio s), map_option mh_Name (mcp_Http s),
     map_option mh_Name (mcp_Sse s)]"

lemma normalize_name: "server_name (normalizeMcpServer s) = server_name s"
  by (auto simp: server_name_def split: option.splits)

definition opts_servers :: "'w opt list \<Rightarrow> McpServer list" where
  "opts_servers xs = concat (map (\<lambda>x. case x of OMCPServers ss \<Rightarrow> ss | _ \<Rightarrow> []) xs)"

lemma WithSetting_servers: "o_mcpServers (fst (WithSetting x oh)) = o_mcpServers (fst oh)"
  by (cases x; cases oh) (simp_all add: setting_defs)

lemma WithCallback_servers: "o_mcpServers (fst (WithCallback x oh)) = o_mcpServers (fst oh)"
  by (cases x; cases oh) (simp_all add: setting_defs)

lemma apply_opts_servers:
  "o_mcpServers (fst (fold apply_opt xs oh)) = o_mcpServers (fst oh) @ opts_servers xs"
proof (induction xs arbitrary: oh)
  case (Cons x xs)
  have "o_mcpServers (fst (apply_opt x oh)) = o_mcpServers (fst oh) @ (case x of OMCPServers ss \<Rightarrow> ss | _ \<Rightarrow> [])"
    using WithSetting_servers [of _ oh] WithCallback_servers [of _ oh]
    by (cases x; cases oh)
      (auto simp: WithCLIFlags_def WithPure_def WithEnv_def WithExtraArgs_def WithHooks_option_def
        WithMCPServers_def WithSDKTools_def WithAddDirs_def WithAutoLaunchLogin_def WithBudgetTracker_def
        WithMaxBudgetUSD_def WithOutputSchema_def WithAllowedTools_option_def WithDisallowedTools_def
        WithAgent_def Let_def split: option.splits sum.splits)
  then show ?case by (simp add: Cons.IH opts_servers_def)
qed (simp add: opts_servers_def)

text \<open>
  The servers a session request carries are the in-process bridge's entry first (when there is
  one), then the client's servers, then those of the overrides in order; and, whatever nil lists the
  caller left in them, none of the lists in the payload is nil, which opencode's schema rejects.
\<close>

theorem merged_servers_clean:
  assumes "\<forall>s \<in> set (o_mcpServers o1 @ opts_servers xs). union_ok s"
  shows "(\<forall>s \<in> set (o_mcpServers (fst (mergeOptions b t xs (o1, h)))). no_nil_slices s) \<and>
    map server_name (o_mcpServers (fst (mergeOptions b t xs (o1, h)))) =
      (case b of None \<Rightarrow> [] | Some _ \<Rightarrow> [Some bridgeMcpName]) @
      map server_name (o_mcpServers o1 @ opts_servers xs)"
proof -
  have c: "o_mcpServers (fst (copy_env (o1, h))) = o_mcpServers o1"
    by (simp add: copy_env_def split: option.splits)
  have e: "o_mcpServers (fst (mergeOptions b t xs (o1, h))) = map normalizeMcpServer
      ((case b of None \<Rightarrow> [] | Some (url, token) \<Rightarrow> [bridgeMcpServerEntry url token]) @ o_mcpServers o1 @ opts_servers xs)"
    using apply_opts_servers [of xs "copy_env (o1, h)"] c
    by (auto simp: mergeOptions_def normalizeMcpServerSlices_def Let_def split: prod.splits option.splits)
  have "union_ok (bridgeMcpServerEntry u k)" "server_name (bridgeMcpServerEntry u k) = Some bridgeMcpName" for u k
    by (simp_all add: union_ok_def bridgeMcpServerEntry_def server_name_def)
  with assms show ?thesis unfolding e
    by (auto simp: normalize_clean normalize_name comp_def simp del: normalizeMcpServer.simps split: option.splits)
qed

theorem merged_servers_clean_witness:
  "no_nil_slices (hd (o_mcpServers (fst (mergeOptions None [] [OMCPServers
     [\<lparr>mcp_Stdio = Some \<lparr>ms_Name = ''db'', ms_Command = ''x'', ms_Args = None, ms_Env = None\<rparr>,
       mcp_Http = None, mcp_Sse = None\<rparr>]] (demo_options, demo_heap)))))"
proof -
  let ?xs = "[OMCPServers [\<lparr>mcp_Stdio = Some \<lparr>ms_Name = ''db'', ms_Command = ''x'', ms_Args = None, ms_Env = None\<rparr>,
       mcp_Http = None, mcp_Sse = None\<rparr>]]"
  have "\<forall>s \<in> set (o_mcpServers demo_options @ opts_servers ?xs). union_ok s"
    by (simp add: demo_options_def defaultOptions_def opts_servers_def union_ok_def)
  from merged_servers_clean [OF this, of None "[]" demo_heap]
  have "\<forall>s \<in> set (o_mcpServers (fst (mergeOptions None [] ?xs (demo_options, demo_heap)))). no_nil_slices s"
    and "map server_name (o_mcpServers (fst (mergeOptions None [] ?xs (demo_options, demo_heap)))) = [Some ''db'']"
    by (auto simp: demo_options_def defaultOptions_def opts_servers_def server_name_def)
  then show ?thesis
    by (cases "o_mcpServers (fst (mergeOptions None [] ?xs (demo_options, demo_heap)))") simp_all
qed
end
