(* ===== verification/Registry.thy ===== *)
theory Registry
  imports Options
begin

text \<open>
  The session registry of a client (\<open>client_impl.go\<close>): the sessions it routes to, the notifications
  it buffers for sessions that are not registered yet, registration, routing, teardown and the
  cancellation of all sessions.

  Sessions are pointers: \<open>c_store\<close> is the heap of session objects and \<open>c_sessions\<close> maps an id to a
  pointer, because loading a session whose id is already registered replaces the entry while the
  old object stays in use. \<open>conn\<close> is the connection to opencode, a parameter: its calls take the
  whole client through the time they run, since notifications arrive meanwhile.
\<close>

section \<open>State\<close>

record AuthMethod =
  am_Agent :: "Meta option"
  am_Terminal :: "Meta option"
  am_EnvVar :: "Meta option"

record TransportHealth =
  th_Degraded :: bool
  th_ConsecutiveFailures :: int
  th_SendFailures :: int
  th_ReadFailures :: int
  th_LastError :: "string option"
  th_LastFailureAt :: "rat option"

definition healthy :: TransportHealth where
  "healthy = \<lparr>th_Degraded = False, th_ConsecutiveFailures = 0, th_SendFailures = 0,
     th_ReadFailures = 0, th_LastError = None, th_LastFailureAt = None\<rparr>"

record 'w client =
  c_opts :: "'w options"
  c_heap :: "'w heap"
  c_hookRef :: "ref option"
  c_started :: bool
  c_closed :: bool
  c_transport :: bool
  c_transportErr :: "goerr option"
  c_caps :: AgentCapabilities
  c_authMethods :: "AuthMethod list"
  c_capture :: "structuredOutputCapture option"
  c_bridge :: "(string \<times> string) option"
  c_listening :: "(string \<times> string) list"
  c_health :: TransportHealth
  c_store :: "nat \<Rightarrow> 'w session"
  c_nextPtr :: nat
  c_sessions :: "(string \<times> nat) list"
  c_pending :: "(string \<times> SessionNotification list) list"
  c_subprocessSpan :: "nat option"
  c_observer :: "nat option \<times> nat option"
  c_protocolVer :: int
  c_agentInfo :: "string \<times> string"

type_synonym 'w ce = "'w client \<times> 'w henv"

record SessionRequest =
  rq_SessionId :: string
  rq_Cwd :: string
  rq_McpServers :: "McpServer list"
  rq_AdditionalDirectories :: "string list"
  rq_Meta :: Meta

record SessionResponse =
  rs_SessionId :: string
  rs_Models :: "ModelState option"
  rs_Modes :: "ModeState option"
  rs_ConfigOptions :: json
  rs_Meta :: Meta

record ClientCapabilities =
  clc_ReadTextFile :: bool
  clc_WriteTextFile :: bool
  clc_Terminal :: bool
  clc_TerminalAuth :: bool

record InitResponse =
  ir_Caps :: AgentCapabilities
  ir_AuthMethods :: "AuthMethod list"
  ir_ProtocolVersion :: int
  ir_AgentInfo :: "(string \<times> string) option"

record TerminalAuthLaunch =
  tal_Command :: string
  tal_Args :: "string list"
  tal_Env :: "(string \<times> string) list"
  tal_Label :: string

record 'w conn =
  cn_initialize :: "ClientCapabilities \<Rightarrow> 'w ce \<Rightarrow> (goerr + InitResponse) \<times> 'w ce"
  cn_newSession :: "SessionRequest \<Rightarrow> 'w ce \<Rightarrow> (goerr + SessionResponse) \<times> 'w ce"
  cn_loadSession :: "SessionRequest \<Rightarrow> 'w ce \<Rightarrow> (goerr + SessionResponse) \<times> 'w ce"
  cn_forkSession :: "SessionRequest \<Rightarrow> 'w ce \<Rightarrow> (goerr + SessionResponse) \<times> 'w ce"
  cn_resumeSession :: "SessionRequest \<Rightarrow> 'w ce \<Rightarrow> (goerr + SessionResponse) \<times> 'w ce"
  cn_setModel :: "string \<Rightarrow> string \<Rightarrow> 'w ce \<Rightarrow> (goerr + Meta) \<times> 'w ce"
  cn_cancel :: "string \<Rightarrow> 'w \<Rightarrow> goerr option \<times> 'w"
  cn_setConfig :: "string \<Rightarrow> string \<Rightarrow> json \<Rightarrow> 'w \<Rightarrow> goerr option \<times> 'w"
  cn_factory :: "'w ce \<Rightarrow> (goerr + bool) \<times> 'w ce"
  cn_discover :: "'w ce \<Rightarrow> (goerr + string \<times> string) \<times> 'w ce"
  cn_spawn :: "string \<Rightarrow> string list \<Rightarrow> (string \<times> string) list \<Rightarrow> 'w ce \<Rightarrow> goerr option \<times> 'w ce"
  cn_closeTransport :: "'w ce \<Rightarrow> goerr option \<times> 'w ce"
  cn_newBridge :: "string list \<Rightarrow> 'w ce \<Rightarrow> goerr option \<times> 'w ce"
  cn_startBridge :: "'w ce \<Rightarrow> (goerr + (string \<times> string)) \<times> 'w ce"
  cn_closeBridge :: "string \<times> string \<Rightarrow> 'w ce \<Rightarrow> goerr option \<times> 'w ce"
  cn_runLogin :: "TerminalAuthLaunch \<Rightarrow> 'w ce \<Rightarrow> goerr option \<times> 'w ce"
  cn_marshal :: "payload \<Rightarrow> goerr + string"
  cn_turnCell :: "nat \<Rightarrow> (turnCounter, 'w) cell"
  cn_tui :: string
  cn_prometheus :: "nat \<Rightarrow> goerr + nat"

definition hooks_of :: "'w client \<Rightarrow> 'w hookDispatcher" where
  "hooks_of c = map_option (hp_hooks (c_heap c)) (c_hookRef c)"

definition cfg_of :: "'w conn \<Rightarrow> 'w client \<Rightarrow> 'w cfg" where
  "cfg_of cn c = \<lparr>cf_hooks = hooks_of c, cf_user = o_user (c_opts c), cf_caps = c_caps c,
     cf_outputSchema = o_outputSchema (c_opts c), cf_marshal = cn_marshal cn,
     cf_onUpdateDropped = o_onUpdateDropped (c_opts c), cf_onTurnComplete = o_onTurnComplete (c_opts c),
     cf_rpcCancel = cn_cancel cn, cf_rpcSetConfig = cn_setConfig cn\<rparr>"

text \<open>\<open>newClient\<close>: a hook dispatcher exists when the hook table is not empty.\<close>

definition newClient :: "'w oh \<Rightarrow> 'w client" where
  "newClient oh =
     (case oh of (o1, h) \<Rightarrow>
       \<lparr>c_opts = o1, c_heap = h,
        c_hookRef = (case o_hooks o1 of None \<Rightarrow> None | Some r \<Rightarrow>
          (case newHookDispatcher (hp_hooks h r) of None \<Rightarrow> None | Some _ \<Rightarrow> Some r)),
        c_started = False, c_closed = False, c_transport = False, c_transportErr = None,
        c_caps = \<lparr>ac_Prompt = \<lparr>pc_Image = False, pc_Audio = False, pc_EmbeddedContext = False\<rparr>,
          ac_McpHttp = False, ac_McpSse = False, ac_AdditionalDirectories = False\<rparr>,
        c_authMethods = [], c_capture = None, c_bridge = None, c_listening = [], c_health = healthy,
        c_store = (\<lambda>_. new_session [] None None JNull None 0), c_nextPtr = 0, c_sessions = [], c_pending = [],
        c_subprocessSpan = None, c_observer = (None, o_tracerProvider o1),
        c_protocolVer = 0, c_agentInfo = ([], [])\<rparr>)"

text \<open>
  The providers the observer reports to: the caller's meter provider, or else one that the connection's
  library builds on the caller's Prometheus registerer, or else \<open>None\<close>, the global one. \<open>NewClient\<close>
  fails only when that library refuses the registerer.
\<close>

definition NewPrometheusMeterProvider :: "'w conn \<Rightarrow> nat option \<Rightarrow> goerr + nat" where
  "NewPrometheusMeterProvider cn reg =
     (case reg of
        None \<Rightarrow> Inl (ENew ''opencodesdk/observability: nil prometheus registerer'')
      | Some r \<Rightarrow>
          (case cn_prometheus cn r of
             Inl err \<Rightarrow> Inl (errorf_s_w ''opencodesdk/observability: create prometheus exporter'' err)
           | Inr mp \<Rightarrow> Inr mp))"

definition resolveMeterProvider :: "'w conn \<Rightarrow> 'w options \<Rightarrow> goerr + nat option" where
  "resolveMeterProvider cn o1 =
     (if o_meterProvider o1 \<noteq> None then Inr (o_meterProvider o1)
      else if o_promRegisterer o1 \<noteq> None
      then (case NewPrometheusMeterProvider cn (o_promRegisterer o1) of
              Inl err \<Rightarrow> Inl (errorf_s_w ''opencodesdk: configure prometheus meter provider'' err)
            | Inr mp \<Rightarrow> Inr (Some mp))
      else Inr None)"

definition NewClient :: "'w conn \<Rightarrow> 'w opt list \<Rightarrow> 'w heap \<Rightarrow> goerr + 'w client" where
  "NewClient cn opts h =
     (let oh = apply_options opts h
      in case resolveMeterProvider cn (fst oh) of
           Inl err \<Rightarrow> Inl err
         | Inr mp \<Rightarrow> Inr ((newClient oh)\<lparr>c_observer := (mp, o_tracerProvider (fst oh))\<rparr>))"

text \<open>What a client tells about itself; a snapshot of the health is a copy.\<close>

definition Capabilities :: "'w client \<Rightarrow> AgentCapabilities" where
  "Capabilities c = c_caps c"

definition AgentInfo :: "'w client \<Rightarrow> string \<times> string" where
  "AgentInfo c = c_agentInfo c"

definition GetTransportHealth :: "'w client \<Rightarrow> TransportHealth" where
  "GetTransportHealth c = c_health c"

definition client_BudgetTracker :: "'w client \<Rightarrow> (BudgetTracker, 'w) cell option" where
  "client_BudgetTracker c = o_budgetTracker (c_opts c)"

text \<open>A connection for the examples: it refuses every session and cannot cancel the one called bad.\<close>

definition demo_conn :: "nat conn" where
  "demo_conn = \<lparr>cn_initialize = (\<lambda>_ ce. (Inl (ENew ''x''), ce)), cn_newSession = (\<lambda>_ ce. (Inl (ENew ''x''), ce)),
     cn_loadSession = (\<lambda>_ ce. (Inl (ENew ''x''), ce)), cn_forkSession = (\<lambda>_ ce. (Inl (ENew ''x''), ce)),
     cn_resumeSession = (\<lambda>_ ce. (Inl (ENew ''x''), ce)), cn_setModel = (\<lambda>_ _ ce. (Inl (ENew ''x''), ce)),
     cn_cancel = (\<lambda>i w. (if i = ''bad'' then Some (ENew ''gone'') else None, w + 1)),
     cn_setConfig = (\<lambda>_ _ _ w. (None, w)), cn_factory = (\<lambda>ce. (Inr True, ce)),
     cn_discover = (\<lambda>ce. (Inl (ESent CliErrNotFound), ce)), cn_spawn = (\<lambda>_ _ _ ce. (None, ce)),
     cn_closeTransport = (\<lambda>ce. (None, ce)), cn_newBridge = (\<lambda>_ ce. (None, ce)),
     cn_startBridge = (\<lambda>ce. (Inr (''url'', ''tok''), ce)),
     cn_closeBridge = (\<lambda>_ ce. (None, ce)), cn_runLogin = (\<lambda>_ ce. (None, ce)), cn_marshal = (\<lambda>_. Inr []),
     cn_turnCell = (\<lambda>_. (\<lambda>_. newTurnCounter, \<lambda>_ w. w)), cn_tui = [], cn_prometheus = (\<lambda>r. Inr r)\<rparr>"

section \<open>Sessions in the store\<close>

definition with_session :: "nat \<Rightarrow> ('w session \<times> 'w henv \<Rightarrow> 'r \<times> ('w session \<times> 'w henv)) \<Rightarrow> 'w ce \<Rightarrow> 'r \<times> 'w ce" where
  "with_session p f ce =
     (case ce of (c, e) \<Rightarrow>
       (case f (c_store c p, e) of
          (r, (s', e')) \<Rightarrow> (r, (c\<lparr>c_store := (c_store c)(p := s')\<rparr>, e'))))"

definition deliver_to :: "'w conn \<Rightarrow> rat \<Rightarrow> rat \<Rightarrow> nat \<Rightarrow> SessionNotification \<Rightarrow> 'w ce \<Rightarrow> 'w ce option" where
  "deliver_to cn t0 t1 p n ce =
     (case ce of (c, e) \<Rightarrow>
       map_option (\<lambda>(s', e'). (c\<lparr>c_store := (c_store c)(p := s')\<rparr>, e'))
         (deliver (cfg_of cn c) t0 t1 n (c_store c p, e)))"

fun deliver_all :: "'w conn \<Rightarrow> rat \<Rightarrow> rat \<Rightarrow> nat \<Rightarrow> SessionNotification list \<Rightarrow> 'w ce \<Rightarrow> 'w ce option" where
  "deliver_all cn t0 t1 p [] ce = Some ce"
| "deliver_all cn t0 t1 p (n # ns) ce =
     Option.bind (deliver_to cn t0 t1 p n ce) (deliver_all cn t0 t1 p ns)"

definition close_ptr :: "nat \<Rightarrow> 'w client \<Rightarrow> 'w client option" where
  "close_ptr p c = map_option (\<lambda>s. c\<lparr>c_store := (c_store c)(p := s)\<rparr>) (close_session (c_store c p))"

section \<open>Registration and routing\<close>

text \<open>\<open>registerSession\<close>: the critical section, and then the flush outside of the lock.\<close>

definition register_attach :: "nat \<Rightarrow> 'w client \<Rightarrow> SessionNotification list \<times> 'w client" where
  "register_attach p c =
     (let sid = s_id (c_store c p)
      in (case map_of (c_pending c) sid of None \<Rightarrow> [] | Some ns \<Rightarrow> ns,
          c\<lparr>c_sessions := amap_put sid p (c_sessions c), c_pending := amap_del sid (c_pending c)\<rparr>))"

definition registerSession :: "'w conn \<Rightarrow> rat \<Rightarrow> rat \<Rightarrow> nat \<Rightarrow> 'w ce \<Rightarrow> 'w ce option" where
  "registerSession cn t0 t1 p ce =
     (case ce of (c, e) \<Rightarrow>
       (case register_attach p c of
          (pending, c') \<Rightarrow> deliver_all cn t0 t1 p pending (c', e)))"

definition deregisterSession :: "string \<Rightarrow> 'w client \<Rightarrow> 'w client" where
  "deregisterSession i c = c\<lparr>c_sessions := amap_del i (c_sessions c), c_pending := amap_del i (c_pending c)\<rparr>"

definition lookupSession :: "string \<Rightarrow> 'w client \<Rightarrow> nat option" where
  "lookupSession i c = map_of (c_sessions c) i"

text \<open>\<open>newSession\<close>: allocates the object and registers it.\<close>

definition newSession :: "'w conn \<Rightarrow> rat \<Rightarrow> rat \<Rightarrow> string \<Rightarrow> ModelState option \<Rightarrow> ModeState option \<Rightarrow> json \<Rightarrow>
    Meta \<Rightarrow> int \<Rightarrow> 'w ce \<Rightarrow> (nat \<times> 'w ce) option" where
  "newSession cn t0 t1 sid models modes opts meta bufferSize ce =
     (case ce of (c, e) \<Rightarrow>
       (let p = c_nextPtr c;
            c1 = c\<lparr>c_store := (c_store c)(p := new_session sid models modes opts meta bufferSize),
                   c_nextPtr := p + 1\<rparr>
        in map_option (Pair p) (registerSession cn t0 t1 p (c1, e))))"

definition pendingUpdatesCap :: nat where "pendingUpdatesCap = 64"

definition sessionUpdateVariant :: "SessionUpdate \<Rightarrow> string" where
  "sessionUpdateVariant u =
     (if su_UserMessageChunk u \<noteq> None then ''user_message_chunk''
      else if su_AgentMessageChunk u \<noteq> None then ''agent_message_chunk''
      else if su_AgentThoughtChunk u \<noteq> None then ''agent_thought_chunk''
      else if su_ToolCall u \<noteq> None then ''tool_call''
      else if su_ToolCallUpdate u \<noteq> None then ''tool_call_update''
      else if su_Plan u \<noteq> None then ''plan''
      else if su_AvailableCommandsUpdate u \<noteq> None then ''available_commands_update''
      else if su_CurrentModeUpdate u \<noteq> None then ''current_mode_update''
      else if su_ConfigOptionUpdate u \<noteq> None then ''config_option_update''
      else if su_SessionInfoUpdate u \<noteq> None then ''session_info_update''
      else if su_UsageUpdate u \<noteq> None then ''usage_update''
      else ''unknown'')"

text \<open>The critical section of \<open>routeSessionUpdate\<close>: the session to deliver to, or the buffer.\<close>

definition route_lookup :: "SessionNotification \<Rightarrow> 'w client \<Rightarrow> nat option \<times> 'w client" where
  "route_lookup n c =
     (case map_of (c_sessions c) (sn_SessionId n) of
        Some p \<Rightarrow> (Some p, c)
      | None \<Rightarrow>
          (let buf = (case map_of (c_pending c) (sn_SessionId n) of None \<Rightarrow> [] | Some ns \<Rightarrow> ns)
           in if length buf \<ge> pendingUpdatesCap then (None, c)
              else (None, c\<lparr>c_pending := amap_put (sn_SessionId n) (buf @ [n]) (c_pending c)\<rparr>)))"

definition routeSessionUpdate :: "'w conn \<Rightarrow> rat \<Rightarrow> rat \<Rightarrow> SessionNotification \<Rightarrow> 'w ce \<Rightarrow> 'w ce option" where
  "routeSessionUpdate cn t0 t1 n ce =
     (case ce of (c, e) \<Rightarrow>
       (let e1 = on_obs (RecordSessionUpdate (sessionUpdateVariant (sn_Update n))) e
        in case route_lookup n c of
             (Some p, c') \<Rightarrow> deliver_to cn t0 t1 p n (c', e1)
           | (None, c') \<Rightarrow> Some (c', e1)))"

definition fireHookSession :: "HookEvent \<Rightarrow> string \<Rightarrow> 'w ce \<Rightarrow> 'w ce" where
  "fireHookSession ev sid ce =
     (case ce of (c, e) \<Rightarrow> (c, notify_hook (hooks_of c) ev sid (hook_input ev sid) e))"

definition fireHookSessionStart :: "string \<Rightarrow> 'w ce \<Rightarrow> 'w ce" where
  "fireHookSessionStart = fireHookSession HookEventSessionStart"

definition fireHookSessionEnd :: "string \<Rightarrow> 'w ce \<Rightarrow> 'w ce" where
  "fireHookSessionEnd = fireHookSession HookEventSessionEnd"

definition teardownSession :: "nat \<Rightarrow> 'w ce \<Rightarrow> 'w ce option" where
  "teardownSession p ce =
     (case ce of (c, e) \<Rightarrow>
       (let sid = s_id (c_store c p); c1 = deregisterSession sid c
        in map_option (\<lambda>c2. fireHookSessionEnd sid (c2, e)) (close_ptr p c1)))"

section \<open>Cancelling every session\<close>

fun cancel_each :: "'w conn \<Rightarrow> nat list \<Rightarrow> 'w ce \<Rightarrow> goerr list \<times> 'w ce" where
  "cancel_each cn [] ce = ([], ce)"
| "cancel_each cn (p # ps) ce =
     (case with_session p (Cancel (cfg_of cn (fst ce))) ce of
        (r, ce') \<Rightarrow>
          (case cancel_each cn ps ce' of
             (errs, ce'') \<Rightarrow>
               ((case r of None \<Rightarrow> errs
                 | Some err \<Rightarrow> errorf_s_w (''session '' @ s_id (c_store (fst ce') p)) err # errs), ce'')))"

definition CancelAll :: "'w conn \<Rightarrow> 'w ce \<Rightarrow> goerr option \<times> 'w ce" where
  "CancelAll cn ce =
     (let targets = map snd (c_sessions (fst ce))
      in if targets = [] then (None, ce)
         else case cancel_each cn targets ce of
                (errs, ce') \<Rightarrow> (if errs = [] then None else Some (EJoin errs), ce'))"

section \<open>Frames of a delivery\<close>

definition ident :: "'w session \<Rightarrow> string \<times> (64 word \<times> 'w UpdateHandlers) list" where
  "ident s = (s_id s, s_subscribers s)"

lemma emit_ident: "ident (fst (emitToolCallTerminal t1 i n k st se)) = ident (fst se)"
  by (simp add: emitToolCallTerminal_def ident_def split: prod.splits option.splits)

lemma observe_ident: "ident (fst (observeInLock cfg t0 t1 u se)) = ident (fst se)"
proof -
  have "ident (s\<lparr>s_toolCallStart := x\<rparr>) = ident s" "ident (s\<lparr>s_commands := y\<rparr>) = ident s"
    for s :: "'a session" and x y by (simp_all add: ident_def)
  then show ?thesis
    by (simp add: observeInLock_def Let_def emit_ident split: prod.splits option.splits)
qed

lemma dispatch_ident: "ident (fst (dispatchSubscribers cfg subs u se)) = ident (fst se)"
proof (induction subs arbitrary: se)
  case (Cons h hs)
  have "ident (fst (run_subscriber cfg u h se)) = ident (fst se)"
    by (simp add: run_subscriber_def Cancel_def ident_def split: option.splits prod.splits)
  then show ?case using Cons by (simp add: dispatchSubscribers_def)
qed (simp add: dispatchSubscribers_def)

definition sess_ok :: "'w session \<Rightarrow> bool" where
  "sess_ok s \<longleftrightarrow> ch_closed (s_updates s) = s_closed s \<and> chan_inv (s_updates s)"

lemma sess_ok_new: "sess_ok (new_session sid models modes opts meta b)"
  by (simp add: sess_ok_def new_session_def chan_new_def chan_inv_def Let_def)

lemma s_id_new: "s_id (new_session sid models modes opts meta b) = sid"
  by (simp add: new_session_def Let_def)

lemma sess_ok_core: "core s' = core s \<Longrightarrow> sess_ok s' = sess_ok s"
  by (simp add: sess_ok_def core_eq)

text \<open>A delivery to a sound session never panics, keeps it sound, and touches neither id nor subscribers.\<close>

lemma deliver_ok:
  assumes "sess_ok s"
  obtains s' e' where "deliver cfg t0 t1 n (s, e) = Some (s', e')" "sess_ok s'" "ident s' = ident s"
    "s_closed s' = s_closed s"
proof (cases "s_closed s")
  case True
  with assms that show ?thesis by (simp add: deliver_def deliver_first_def)
next
  case False
  define se1 where "se1 = observeInLock cfg t0 t1 (sn_Update n) (s, e)"
  define se2 where "se2 = dispatchSubscribers cfg (map snd (s_subscribers (fst se1))) (sn_Update n) se1"
  have c: "core (fst se2) = core s" and i: "ident (fst se2) = ident s"
    by (simp_all add: se2_def se1_def dispatchSubscribers_core observe_core dispatch_ident observe_ident)
  have d: "deliver cfg t0 t1 n (s, e) = deliver_send cfg n se2"
    using False by (simp add: deliver_def deliver_first_def se2_def se1_def Let_def)
  have cl: "ch_closed (s_updates (fst se2)) = s_closed (fst se2)"
    using c assms by (simp add: core_eq sess_ok_def)
  from cl show ?thesis
  proof (cases rule: deliver_send_cases [where cfg = cfg and n = n])
    case closed
    then show ?thesis using d c i assms that by (cases se2) (simp add: core_eq sess_ok_def)
  next
    case (sent ch e')
    show ?thesis
    proof (rule that)
      show "deliver cfg t0 t1 n (s, e) = Some ((fst se2)\<lparr>s_updates := ch\<rparr>, e')" using d sent by simp
      show "sess_ok ((fst se2)\<lparr>s_updates := ch\<rparr>)"
        using chan_sent [OF sent(2)] c assms by (simp add: sess_ok_def core_eq)
    qed (use c i in \<open>simp_all add: ident_def core_eq\<close>)
  next
    case (full e')
    show ?thesis
    proof (rule that)
      show "deliver cfg t0 t1 n (s, e) = Some ((fst se2)\<lparr>s_dropped := s_dropped (fst se2) + 1\<rparr>, e')"
        using d full by simp
      show "sess_ok ((fst se2)\<lparr>s_dropped := s_dropped (fst se2) + 1\<rparr>)"
        using c assms by (simp add: sess_ok_def core_eq)
    qed (use c i in \<open>simp_all add: ident_def core_eq\<close>)
  qed
qed

lemma deliver_queues:
  assumes "sess_ok s" "\<not> s_closed s" "s_subscribers s = []"
    and room: "length (ch_buf (s_updates s)) < ch_cap (s_updates s)"
  shows "\<exists>s' e'. deliver cfg t0 t1 n (s, e) = Some (s', e') \<and> sess_ok s' \<and> \<not> s_closed s' \<and>
    s_subscribers s' = [] \<and> ch_buf (s_updates s') = ch_buf (s_updates s) @ [n] \<and>
    ch_cap (s_updates s') = ch_cap (s_updates s)"
proof -
  define se1 where "se1 = observeInLock cfg t0 t1 (sn_Update n) (s, e)"
  have c: "core (fst se1) = core s" and i: "ident (fst se1) = ident s"
    by (simp_all add: se1_def observe_core observe_ident)
  have d: "deliver cfg t0 t1 n (s, e) = deliver_send cfg n se1"
    using assms(2,3) i by (simp add: deliver_def deliver_first_def se1_def [symmetric] dispatchSubscribers_def
        ident_def Let_def)
  have cl: "ch_closed (s_updates (fst se1)) = s_closed (fst se1)"
    using c assms by (simp add: core_eq sess_ok_def)
  from cl show ?thesis
  proof (cases rule: deliver_send_cases [where cfg = cfg and n = n])
    case closed
    then show ?thesis using c assms by (simp add: core_eq)
  next
    case (sent ch e')
    with d c i assms chan_sent [OF sent(2)] show ?thesis
      by (simp add: sess_ok_def core_eq ident_def)
  next
    case (full e')
    then show ?thesis using c room by (simp add: chan_try_send_Full core_eq)
  qed
qed

section \<open>The registry invariant\<close>

definition reg_inv :: "'w client \<Rightarrow> bool" where
  "reg_inv c \<longleftrightarrow>
     (\<forall>p. sess_ok (c_store c p)) \<and>
     amap_ok (c_sessions c) \<and> amap_ok (c_pending c) \<and>
     (\<forall>i p. map_of (c_sessions c) i = Some p \<longrightarrow> p < c_nextPtr c \<and> s_id (c_store c p) = i) \<and>
     (\<forall>i ns. map_of (c_pending c) i = Some ns \<longrightarrow> map_of (c_sessions c) i = None \<and>
        length ns \<le> pendingUpdatesCap \<and> (\<forall>n \<in> set ns. sn_SessionId n = i))"

lemma reg_inv_new: "reg_inv (newClient oh)"
  by (simp add: reg_inv_def newClient_def sess_ok_new amap_ok_def split: prod.splits)

lemma deliver_to_ok:
  assumes "reg_inv c"
  obtains c' e' where "deliver_to cn t0 t1 p n (c, e) = Some (c', e')" "reg_inv c'"
    "c_sessions c' = c_sessions c" "c_pending c' = c_pending c" "c_nextPtr c' = c_nextPtr c"
    "\<forall>q. q \<noteq> p \<longrightarrow> c_store c' q = c_store c q" "s_id (c_store c' p) = s_id (c_store c p)"
    "s_closed (c_store c' p) = s_closed (c_store c p)"
proof -
  have "sess_ok (c_store c p)" using assms by (simp add: reg_inv_def)
  from deliver_ok [OF this, of "cfg_of cn c" t0 t1 n e] obtain s' e'
    where d: "deliver (cfg_of cn c) t0 t1 n (c_store c p, e) = Some (s', e')" "sess_ok s'"
      "ident s' = ident (c_store c p)" "s_closed s' = s_closed (c_store c p)" by blast
  show ?thesis
  proof (rule that)
    show "deliver_to cn t0 t1 p n (c, e) = Some (c\<lparr>c_store := (c_store c)(p := s')\<rparr>, e')"
      using d by (simp add: deliver_to_def)
    show "reg_inv (c\<lparr>c_store := (c_store c)(p := s')\<rparr>)"
      using assms d by (auto simp: reg_inv_def ident_def)
  qed (use d in \<open>auto simp: ident_def\<close>)
qed

lemma deliver_all_ok:
  "reg_inv c \<Longrightarrow> \<exists>c' e'. deliver_all cn t0 t1 p ns (c, e) = Some (c', e') \<and> reg_inv c' \<and>
     c_sessions c' = c_sessions c \<and> c_pending c' = c_pending c \<and> c_nextPtr c' = c_nextPtr c \<and>
     (\<forall>q. q \<noteq> p \<longrightarrow> c_store c' q = c_store c q) \<and> s_closed (c_store c' p) = s_closed (c_store c p)"
proof (induction ns arbitrary: c e)
  case (Cons n ns)
  from deliver_to_ok [OF Cons.prems, of cn t0 t1 p n e] obtain c1 e1
    where d: "deliver_to cn t0 t1 p n (c, e) = Some (c1, e1)" "reg_inv c1"
      "c_sessions c1 = c_sessions c" "c_pending c1 = c_pending c" "c_nextPtr c1 = c_nextPtr c"
      "\<forall>q. q \<noteq> p \<longrightarrow> c_store c1 q = c_store c q" "s_closed (c_store c1 p) = s_closed (c_store c p)" by metis
  with Cons.IH [OF d(2), of e1] show ?case by auto
qed simp

lemma register_attach_inv:
  assumes "reg_inv c" "p < c_nextPtr c"
  shows "reg_inv (snd (register_attach p c))"
  using assms unfolding reg_inv_def register_attach_def Let_def
  by (auto simp: am.get_put am.get_del amap_ok_put amap_ok_del split: if_splits)

lemma registerSession_ok:
  assumes "reg_inv c" "p < c_nextPtr c"
  shows "\<exists>c' e'. registerSession cn t0 t1 p (c, e) = Some (c', e') \<and> reg_inv c' \<and> c_nextPtr c' = c_nextPtr c \<and>
    c_sessions c' = amap_put (s_id (c_store c p)) p (c_sessions c) \<and>
    c_pending c' = amap_del (s_id (c_store c p)) (c_pending c) \<and>
    (\<forall>q. q \<noteq> p \<longrightarrow> c_store c' q = c_store c q) \<and> s_closed (c_store c' p) = s_closed (c_store c p)"
proof -
  obtain pend c1 where a: "register_attach p c = (pend, c1)" by (metis prod.exhaust)
  then have "reg_inv c1" using register_attach_inv [OF assms] by simp
  from deliver_all_ok [OF this, of cn t0 t1 p pend e] a show ?thesis
    by (auto simp: registerSession_def register_attach_def Let_def)
qed

lemma newSession_ok:
  assumes "reg_inv c"
  shows "\<exists>c' e'. newSession cn t0 t1 sid mo md op me b (c, e) = Some (c_nextPtr c, (c', e')) \<and> reg_inv c' \<and>
    map_of (c_sessions c') = (map_of (c_sessions c))(sid \<mapsto> c_nextPtr c) \<and>
    map_of (c_pending c') = (map_of (c_pending c))(sid := None) \<and> c_nextPtr c' = c_nextPtr c + 1 \<and>
    (\<forall>q. q \<noteq> c_nextPtr c \<longrightarrow> c_store c' q = c_store c q) \<and> \<not> s_closed (c_store c' (c_nextPtr c))"
proof -
  define c1 where "c1 = c\<lparr>c_store := (c_store c)(c_nextPtr c := new_session sid mo md op me b), c_nextPtr := c_nextPtr c + 1\<rparr>"
  have i: "reg_inv c1"
    using assms by (auto simp: c1_def reg_inv_def sess_ok_new less_Suc_eq)
  have s: "s_id (c_store c1 (c_nextPtr c)) = sid" "\<not> s_closed (c_store c1 (c_nextPtr c))"
    by (simp_all add: c1_def new_session_def Let_def)
  have "c_nextPtr c < c_nextPtr c1" by (simp add: c1_def)
  from registerSession_ok [OF i this, of cn t0 t1 e] show ?thesis
    by (auto simp: newSession_def c1_def [symmetric] Let_def s am.get_put am.get_del)
      (auto simp: c1_def)
qed

lemma route_lookup_inv: "reg_inv c \<Longrightarrow> reg_inv (snd (route_lookup n c))"
  unfolding reg_inv_def route_lookup_def Let_def
  by (auto simp: am.get_put amap_ok_put split: option.splits if_splits)

lemma route_ok:
  assumes "reg_inv c"
  shows "\<exists>c' e'. routeSessionUpdate cn t0 t1 n (c, e) = Some (c', e') \<and> reg_inv c' \<and>
    c_sessions c' = c_sessions c \<and> c_nextPtr c' = c_nextPtr c \<and>
    (\<forall>q. map_of (c_sessions c) (sn_SessionId n) \<noteq> Some q \<longrightarrow> c_store c' q = c_store c q)"
proof -
  obtain r c1 where l: "route_lookup n c = (r, c1)" by (metis prod.exhaust)
  then have i: "reg_inv c1" using route_lookup_inv [OF assms, of n] by simp
  have f: "c_sessions c1 = c_sessions c" "c_nextPtr c1 = c_nextPtr c" "c_store c1 = c_store c"
    "r = map_of (c_sessions c) (sn_SessionId n)"
    using l by (auto simp: route_lookup_def Let_def split: option.splits if_splits)
  show ?thesis
  proof (cases r)
    case None
    with l i f show ?thesis by (auto simp: routeSessionUpdate_def Let_def)
  next
    case (Some p)
    from deliver_to_ok [OF i, of cn t0 t1 p n] l f Some show ?thesis
      unfolding routeSessionUpdate_def Let_def prod.case l by (metis option.case(2) prod.case)
  qed
qed

lemma close_ptr_ok:
  assumes "reg_inv c"
  shows "\<exists>c'. close_ptr p c = Some c' \<and> reg_inv c' \<and> c_sessions c' = c_sessions c \<and>
    c_pending c' = c_pending c \<and> c_nextPtr c' = c_nextPtr c \<and> s_closed (c_store c' p) \<and>
    (\<forall>q. q \<noteq> p \<longrightarrow> c_store c' q = c_store c q)"
proof -
  have ok: "sess_ok (c_store c p)" using assms by (simp add: reg_inv_def)
  obtain s' where s: "close_session (c_store c p) = Some s'" "s_closed s'" "sess_ok s'"
    and i: "s_id s' = s_id (c_store c p)"
  proof (cases "s_closed (c_store c p)")
    case True
    with ok that show ?thesis by (simp add: close_session_def)
  next
    case False
    with ok that [of "(c_store c p)\<lparr>s_closed := True, s_updates := (s_updates (c_store c p))\<lparr>ch_closed := True\<rparr>\<rparr>"]
    show ?thesis by (simp add: close_session_def chan_close_def sess_ok_def chan_inv_def)
  qed
  have "close_ptr p c = Some (c\<lparr>c_store := (c_store c)(p := s')\<rparr>)" using s by (simp add: close_ptr_def)
  moreover have "reg_inv (c\<lparr>c_store := (c_store c)(p := s')\<rparr>)"
    using assms s i by (auto simp: reg_inv_def)
  ultimately show ?thesis using s by auto
qed

lemma deregister_inv: "reg_inv c \<Longrightarrow> reg_inv (deregisterSession i c)"
  unfolding reg_inv_def deregisterSession_def
  by (auto simp: am.get_del amap_ok_del split: if_splits)

lemma teardown_ok:
  assumes "reg_inv c"
  shows "\<exists>c' e'. teardownSession p (c, e) = Some (c', e') \<and> reg_inv c' \<and> s_closed (c_store c' p) \<and>
    c_sessions c' = amap_del (s_id (c_store c p)) (c_sessions c) \<and> (\<forall>q. q \<noteq> p \<longrightarrow> c_store c' q = c_store c q)"
proof -
  from close_ptr_ok [OF deregister_inv [OF assms], of p "s_id (c_store c p)"] show ?thesis
    by (auto simp: teardownSession_def Let_def fireHookSessionEnd_def fireHookSession_def deregisterSession_def)
qed

text \<open>Any sequence of registry operations.\<close>

datatype reg_op =
    RegNew string "ModelState option" "ModeState option" json Meta int
  | RegRoute SessionNotification
  | RegTeardown nat
  | RegClose nat

fun run_reg_op :: "'w conn \<Rightarrow> rat \<Rightarrow> rat \<Rightarrow> reg_op \<Rightarrow> 'w ce \<Rightarrow> 'w ce option" where
  "run_reg_op cn t0 t1 (RegNew sid mo md op me b) ce = map_option snd (newSession cn t0 t1 sid mo md op me b ce)"
| "run_reg_op cn t0 t1 (RegRoute n) ce = routeSessionUpdate cn t0 t1 n ce"
| "run_reg_op cn t0 t1 (RegTeardown p) ce = teardownSession p ce"
| "run_reg_op cn t0 t1 (RegClose p) ce = map_option (\<lambda>c. (c, snd ce)) (close_ptr p (fst ce))"

fun run_reg_ops :: "'w conn \<Rightarrow> rat \<Rightarrow> rat \<Rightarrow> reg_op list \<Rightarrow> 'w ce \<Rightarrow> 'w ce option" where
  "run_reg_ops cn t0 t1 [] ce = Some ce"
| "run_reg_ops cn t0 t1 (x # xs) ce = Option.bind (run_reg_op cn t0 t1 x ce) (run_reg_ops cn t0 t1 xs)"

lemma run_reg_op_ok:
  assumes "reg_inv c"
  shows "\<exists>c' e'. run_reg_op cn t0 t1 x (c, e) = Some (c', e') \<and> reg_inv c'"
proof (cases x)
  case (RegNew sid mo md op me b)
  then show ?thesis using newSession_ok [OF assms, of cn t0 t1 sid mo md op me b e] by auto
next
  case (RegRoute n)
  then show ?thesis using route_ok [OF assms, of cn t0 t1 n e] by auto
next
  case (RegTeardown p)
  then show ?thesis using teardown_ok [OF assms, of p e] by auto
next
  case (RegClose p)
  then show ?thesis using close_ptr_ok [OF assms, of p] by auto
qed

lemma run_reg_ops_ok: "reg_inv c \<Longrightarrow> \<exists>c' e'. run_reg_ops cn t0 t1 xs (c, e) = Some (c', e') \<and> reg_inv c'"
proof (induction xs arbitrary: c e)
  case (Cons x xs)
  from run_reg_op_ok [OF Cons.prems, of cn t0 t1 x e] obtain c' e'
    where "run_reg_op cn t0 t1 x (c, e) = Some (c', e')" "reg_inv c'" by blast
  with Cons.IH [of c' e'] show ?case by simp
qed simp

text \<open>
  The registry of a new client stays sound under any sequence of session creations, arriving
  notifications, teardowns and closes, and none of them panics: every id maps to an allocated
  session that carries this id, an id never has a routing entry and a pending buffer at once, a
  buffer holds only its own session's notifications and at most 64 of them, and every channel is
  closed exactly when its session is.
\<close>

theorem registry_sound:
  "\<exists>c' e'. run_reg_ops cn t0 t1 xs (newClient oh, e) = Some (c', e') \<and>
    (\<forall>i. (case map_of (c_sessions c') i of
            Some p \<Rightarrow> p < c_nextPtr c' \<and> s_id (c_store c' p) = i \<and> map_of (c_pending c') i = None
          | None \<Rightarrow> True) \<and>
         (case map_of (c_pending c') i of
            Some ns \<Rightarrow> length ns \<le> 64 \<and> (\<forall>n \<in> set ns. sn_SessionId n = i)
          | None \<Rightarrow> True)) \<and>
    (\<forall>p. ch_closed (s_updates (c_store c' p)) = s_closed (c_store c' p))"
proof -
  from run_reg_ops_ok [OF reg_inv_new, of cn t0 t1 xs oh e] obtain c' e'
    where r: "run_reg_ops cn t0 t1 xs (newClient oh, e) = Some (c', e')" and i: "reg_inv c'" by blast
  have n: "map_of (c_pending c') j = None" if "map_of (c_sessions c') j = Some p" for j p
    using i that by (cases "map_of (c_pending c') j") (auto simp: reg_inv_def)
  show ?thesis
    by (intro exI conjI allI, rule r)
      (use i n in \<open>auto simp: reg_inv_def sess_ok_def pendingUpdatesCap_def split: option.splits\<close>)
qed

theorem registry_sound_witness:
  "\<exists>c' e'. run_reg_ops demo_conn 0 0 [RegRoute demo_note, RegNew ''s1'' None None JNull None 4]
     (newClient (demo_options, demo_heap), demo_env) = Some (c', e') \<and>
     (\<forall>p. ch_closed (s_updates (c_store c' p)) = s_closed (c_store c' p))"
  using registry_sound [of demo_conn 0 0 "[RegRoute demo_note, RegNew ''s1'' None None JNull None 4]"
      "(demo_options, demo_heap)" demo_env] by blast

section \<open>Notifications that arrive before their session\<close>

lemma route_buffers:
  assumes "map_of (c_sessions c) (sn_SessionId n) = None"
    and "length (case map_of (c_pending c) (sn_SessionId n) of None \<Rightarrow> [] | Some b \<Rightarrow> b) < pendingUpdatesCap"
  shows "\<exists>e'. routeSessionUpdate cn t0 t1 n (c, e) =
    Some (c\<lparr>c_pending := amap_put (sn_SessionId n)
      ((case map_of (c_pending c) (sn_SessionId n) of None \<Rightarrow> [] | Some b \<Rightarrow> b) @ [n]) (c_pending c)\<rparr>, e')"
  using assms by (simp add: routeSessionUpdate_def route_lookup_def Let_def)

fun route_all :: "'w conn \<Rightarrow> rat \<Rightarrow> rat \<Rightarrow> SessionNotification list \<Rightarrow> 'w ce \<Rightarrow> 'w ce option" where
  "route_all cn t0 t1 [] ce = Some ce"
| "route_all cn t0 t1 (n # ns) ce = Option.bind (routeSessionUpdate cn t0 t1 n ce) (route_all cn t0 t1 ns)"

lemma route_all_buffers:
  assumes "\<forall>n \<in> set ns. sn_SessionId n = i" "map_of (c_sessions c) i = None" "reg_inv c"
    and "length (case map_of (c_pending c) i of None \<Rightarrow> [] | Some b \<Rightarrow> b) + length ns \<le> pendingUpdatesCap"
  shows "\<exists>c' e'. route_all cn t0 t1 ns (c, e) = Some (c', e') \<and> reg_inv c' \<and> c_nextPtr c' = c_nextPtr c \<and>
    (case map_of (c_pending c') i of None \<Rightarrow> [] | Some b \<Rightarrow> b) =
      (case map_of (c_pending c) i of None \<Rightarrow> [] | Some b \<Rightarrow> b) @ ns"
  using assms
proof (induction ns arbitrary: c e)
  case (Cons n ns)
  define buf where "buf = (case map_of (c_pending c) i of None \<Rightarrow> [] | Some b \<Rightarrow> b)"
  define c1 where "c1 = c\<lparr>c_pending := amap_put i (buf @ [n]) (c_pending c)\<rparr>"
  have "sn_SessionId n = i" using Cons.prems(1) by simp
  then obtain e1 where r: "routeSessionUpdate cn t0 t1 n (c, e) = Some (c1, e1)"
    using route_buffers [of c n cn t0 t1 e] Cons.prems by (auto simp: c1_def buf_def)
  moreover have "reg_inv c1" using route_ok [OF Cons.prems(3), of cn t0 t1 n e] r by auto
  moreover have "map_of (c_pending c1) i = Some (buf @ [n])" "c_sessions c1 = c_sessions c" "c_nextPtr c1 = c_nextPtr c"
    by (simp_all add: c1_def am.get_put)
  ultimately show ?case
    using Cons.IH [of c1 e1] Cons.prems by (auto simp flip: buf_def)
qed auto

lemma deliver_all_queues:
  assumes "sess_ok (c_store c p)" "\<not> s_closed (c_store c p)" "s_subscribers (c_store c p) = []"
    and "length (ch_buf (s_updates (c_store c p))) + length ns \<le> ch_cap (s_updates (c_store c p))"
  shows "\<exists>c' e'. deliver_all cn t0 t1 p ns (c, e) = Some (c', e') \<and>
    ch_buf (s_updates (c_store c' p)) = ch_buf (s_updates (c_store c p)) @ ns"
  using assms
proof (induction ns arbitrary: c e)
  case (Cons n ns)
  have "length (ch_buf (s_updates (c_store c p))) < ch_cap (s_updates (c_store c p))" using Cons.prems by simp
  from deliver_queues [OF Cons.prems(1-3) this, of "cfg_of cn c" t0 t1 n e] obtain s' e'
    where d: "deliver (cfg_of cn c) t0 t1 n (c_store c p, e) = Some (s', e')" and s: "sess_ok s'" "\<not> s_closed s'"
      "s_subscribers s' = []" "ch_buf (s_updates s') = ch_buf (s_updates (c_store c p)) @ [n]"
      "ch_cap (s_updates s') = ch_cap (s_updates (c_store c p))" by blast
  then show ?case
    using Cons.IH [of "c\<lparr>c_store := (c_store c)(p := s')\<rparr>" e'] Cons.prems
    by (auto simp: deliver_to_def)
qed auto

lemma newClient_sel:
  "c_sessions (newClient oh) = []" "c_pending (newClient oh) = []" "c_opts (newClient oh) = fst oh"
  by (simp_all add: newClient_def split: prod.splits)

text \<open>
  C20: A burst of notifications that arrives before its session is registered is neither lost nor
  reordered: up to 64 notifications for an unknown session, followed by the creation of the session
  with a buffer that holds them, are exactly what its channel contains, in order of arrival.
\<close>

theorem early_notifications_preserved:
  assumes "reg_inv c" "map_of (c_sessions c) i = None" "map_of (c_pending c) i = None"
    and "\<forall>n \<in> set ns. sn_SessionId n = i" "length ns \<le> 64"
    and "int (length ns) \<le> (if b \<le> 0 then 128 else b)"
  shows "\<exists>p c' e'. Option.bind (route_all cn t0 t1 ns (c, e)) (newSession cn t0 t1 i mo md op me b) =
      Some (p, (c', e')) \<and> ch_buf (s_updates (c_store c' p)) = ns"
proof -
  from route_all_buffers [OF assms(4,2,1), of cn t0 t1 e] assms(3,5) obtain c1 e1
    where r: "route_all cn t0 t1 ns (c, e) = Some (c1, e1)"
      and pend: "(case map_of (c_pending c1) i of None \<Rightarrow> [] | Some b \<Rightarrow> b) = ns"
    by (auto simp: pendingUpdatesCap_def)
  define p where "p = c_nextPtr c1"
  define c2 where "c2 = c1\<lparr>c_store := (c_store c1)(p := new_session i mo md op me b), c_nextPtr := Suc p\<rparr>"
  have st: "c_store c2 p = new_session i mo md op me b" "c_pending c2 = c_pending c1"
    by (simp_all add: c2_def)
  define c3 where "c3 = snd (register_attach p c2)"
  have at: "register_attach p c2 = (ns, c3)"
    using pend by (simp add: c3_def register_attach_def Let_def st new_session_def)
  have s3: "c_store c3 p = new_session i mo md op me b"
    by (simp add: c3_def register_attach_def Let_def st)
  have "sess_ok (c_store c3 p)" by (simp add: s3 sess_ok_new)
  moreover have "\<not> s_closed (c_store c3 p)" "s_subscribers (c_store c3 p) = []"
    "ch_buf (s_updates (c_store c3 p)) = []" "length ns \<le> ch_cap (s_updates (c_store c3 p))"
    using assms(6) by (auto simp: s3 new_session_def chan_new_def Let_def)
  ultimately obtain c' e' where "deliver_all cn t0 t1 p ns (c3, e1) = Some (c', e')"
    "ch_buf (s_updates (c_store c' p)) = ns"
    using deliver_all_queues [of c3 p ns cn t0 t1 e1] by auto
  then have "newSession cn t0 t1 i mo md op me b (c1, e1) = Some (p, (c', e'))"
    by (simp add: newSession_def registerSession_def Let_def at flip: p_def c2_def)
  with r \<open>ch_buf (s_updates (c_store c' p)) = ns\<close> show ?thesis by auto
qed

definition note_for :: "string \<Rightarrow> string \<Rightarrow> SessionNotification" where
  "note_for i m = \<lparr>sn_SessionId = i, sn_Update = no_update\<lparr>su_CurrentModeUpdate := Some m\<rparr>, sn_Meta = None\<rparr>"

theorem early_notifications_preserved_witness:
  "\<exists>p c' e'. Option.bind (route_all demo_conn 0 0 [note_for ''s1'' ''a'', note_for ''s1'' ''b'']
        (newClient (demo_options, demo_heap), demo_env)) (newSession demo_conn 0 0 ''s1'' None None JNull None 2) =
      Some (p, (c', e')) \<and> ch_buf (s_updates (c_store c' p)) = [note_for ''s1'' ''a'', note_for ''s1'' ''b'']"
  by (rule early_notifications_preserved)
    (simp_all add: reg_inv_new newClient_sel note_for_def)

text \<open>
  Registration does not keep the order under concurrency, although it is documented to: the
  buffered notifications are flushed after the lock is released, so a notification the dispatcher
  routes in between overtakes them. In the run below n1 arrives first and is buffered, the session
  registers, n2 arrives and is delivered, and only then the flush delivers n1.
\<close>

theorem registration_can_reorder:
  "\<exists>c1 c2 c3 c4 e3 e4.
     route_lookup (note_for ''s1'' ''n1'') ((newClient (demo_options, demo_heap))
       \<lparr>c_store := (\<lambda>_. new_session ''s1'' None None JNull None 4)\<rparr>) = (None, c1) \<and>
     register_attach 0 c1 = ([note_for ''s1'' ''n1''], c2) \<and>
     route_lookup (note_for ''s1'' ''n2'') c2 = (Some 0, c2) \<and>
     deliver_to cn 0 0 0 (note_for ''s1'' ''n2'') (c2, demo_env) = Some (c3, e3) \<and>
     deliver_all cn 0 0 0 [note_for ''s1'' ''n1''] (c3, e3) = Some (c4, e4) \<and>
     ch_buf (s_updates (c_store c4 0)) = [note_for ''s1'' ''n2'', note_for ''s1'' ''n1'']"
proof -
  define c0 where "c0 = (newClient (demo_options, demo_heap))\<lparr>c_store := (\<lambda>_. new_session ''s1'' None None JNull None 4)\<rparr>"
  define c1 where "c1 = c0\<lparr>c_pending := [(''s1'', [note_for ''s1'' ''n1''])]\<rparr>"
  define c2 where "c2 = c1\<lparr>c_sessions := [(''s1'', 0)], c_pending := []\<rparr>"
  have s0: "c_store c0 p = new_session ''s1'' None None JNull None 4" "c_sessions c0 = []" "c_pending c0 = []" for p
    by (simp_all add: c0_def newClient_sel)
  have a: "route_lookup (note_for ''s1'' ''n1'') c0 = (None, c1)"
    by (simp add: route_lookup_def s0 note_for_def pendingUpdatesCap_def c1_def Let_def)
  have b: "register_attach 0 c1 = ([note_for ''s1'' ''n1''], c2)"
    by (simp add: register_attach_def c1_def c2_def s0 new_session_def amap_del_def Let_def)
  have c: "route_lookup (note_for ''s1'' ''n2'') c2 = (Some 0, c2)"
    by (simp add: route_lookup_def c2_def note_for_def)
  have s2: "c_store c2 0 = new_session ''s1'' None None JNull None 4" by (simp add: c2_def c1_def s0)
  have "sess_ok (c_store c2 0)" by (simp add: s2 sess_ok_new)
  from deliver_queues [OF this, of "cfg_of cn c2" 0 0 "note_for ''s1'' ''n2''" demo_env] obtain s' e3
    where d: "deliver (cfg_of cn c2) 0 0 (note_for ''s1'' ''n2'') (c_store c2 0, demo_env) = Some (s', e3)"
      and s': "sess_ok s'" "\<not> s_closed s'" "s_subscribers s' = []" "ch_buf (s_updates s') = [note_for ''s1'' ''n2'']"
        "ch_cap (s_updates s') = 4"
    by (auto simp: s2 new_session_def chan_new_def Let_def)
  define c3 where "c3 = c2\<lparr>c_store := (c_store c2)(0 := s')\<rparr>"
  have d': "deliver_to cn 0 0 0 (note_for ''s1'' ''n2'') (c2, demo_env) = Some (c3, e3)"
    by (simp add: deliver_to_def d c3_def)
  obtain c4 e4 where "deliver_all cn 0 0 0 [note_for ''s1'' ''n1''] (c3, e3) = Some (c4, e4)"
    "ch_buf (s_updates (c_store c4 0)) = [note_for ''s1'' ''n2'', note_for ''s1'' ''n1'']"
    using deliver_all_queues [of c3 0 "[note_for ''s1'' ''n1'']" cn 0 0 e3] s' by (auto simp: c3_def)
  with a b c d' show ?thesis unfolding c0_def by blast
qed

text \<open>
  Notifications are isolated by session: routing one changes no session but the one registered
  under its id, and leaves the routing table as it is.
\<close>

theorem routing_isolated:
  assumes "reg_inv c" "map_of (c_sessions c) (sn_SessionId n) \<noteq> Some q"
  shows "\<exists>c' e'. routeSessionUpdate cn t0 t1 n (c, e) = Some (c', e') \<and> c_store c' q = c_store c q \<and>
    c_sessions c' = c_sessions c"
  using route_ok [OF assms(1), of cn t0 t1 n e] assms(2) by auto

theorem routing_isolated_witness:
  "\<exists>c' e'. routeSessionUpdate demo_conn 0 0 (note_for ''s1'' ''m'') (newClient (demo_options, demo_heap), demo_env) =
     Some (c', e') \<and> c_store c' 3 = c_store (newClient (demo_options, demo_heap)) 3"
  using routing_isolated [OF reg_inv_new, of "(demo_options, demo_heap)" "note_for ''s1'' ''m''" 3 demo_conn 0 0 demo_env]
  by (auto simp: newClient_sel)

section \<open>Cancelling every session, continued\<close>

text \<open>The cancellations \<open>CancelAll\<close> sends: one per session, in table order, whatever the others return.\<close>

fun cancel_calls :: "'w conn \<Rightarrow> string list \<Rightarrow> 'w \<Rightarrow> goerr option list \<times> 'w" where
  "cancel_calls cn [] w = ([], w)"
| "cancel_calls cn (i # is) w =
     (case cn_cancel cn i w of (r, w') \<Rightarrow> (case cancel_calls cn is w' of (rs, w'') \<Rightarrow> (r # rs, w'')))"

lemma with_session_Cancel:
  "with_session p (Cancel (cfg_of cn c)) (c, e) =
     (case cn_cancel cn (s_id (c_store c p)) (he_world e) of
        (r, w) \<Rightarrow> (r, (c\<lparr>c_store := (c_store c)(p := (c_store c p)\<lparr>s_cancelIntended := True\<rparr>)\<rparr>,
           e\<lparr>he_hooks := (he_hooks e)\<lparr>hs_world := w\<rparr>\<rparr>)))"
  by (simp add: with_session_def Cancel_def on_world_def cfg_of_def split: prod.splits)

lemma cancel_each_spec:
  "cancel_each cn ps (c, e) = (errs, (c', e')) \<Longrightarrow>
     cancel_calls cn (map (\<lambda>p. s_id (c_store c p)) ps) (he_world e) = (rs, w) \<Longrightarrow>
     he_world e' = w \<and> (errs = [] \<longleftrightarrow> (\<forall>r \<in> set rs. r = None)) \<and>
     (\<forall>q. s_id (c_store c' q) = s_id (c_store c q) \<and>
        s_cancelIntended (c_store c' q) = (s_cancelIntended (c_store c q) \<or> q \<in> set ps))"
proof (induction ps arbitrary: c e errs rs)
  case (Cons p ps)
  obtain r w1 where r: "cn_cancel cn (s_id (c_store c p)) (he_world e) = (r, w1)" by (metis prod.exhaust)
  define c1 where "c1 = c\<lparr>c_store := (c_store c)(p := (c_store c p)\<lparr>s_cancelIntended := True\<rparr>)\<rparr>"
  define e1 where "e1 = e\<lparr>he_hooks := (he_hooks e)\<lparr>hs_world := w1\<rparr>\<rparr>"
  have s: "with_session p (Cancel (cfg_of cn c)) (c, e) = (r, (c1, e1))"
    by (simp add: with_session_Cancel r c1_def e1_def)
  have ids: "s_id (c_store c1 q) = s_id (c_store c q)"
    "s_cancelIntended (c_store c1 q) = (s_cancelIntended (c_store c q) \<or> q = p)" for q
    by (simp_all add: c1_def)
  have w1: "he_world e1 = w1" by (simp add: e1_def he_world_def)
  obtain errs' ce' where e'': "cancel_each cn ps (c1, e1) = (errs', ce')" by (metis prod.exhaust)
  with Cons.prems(1) s have e': "cancel_each cn ps (c1, e1) = (errs', (c', e'))"
    and errs: "errs = (case r of None \<Rightarrow> errs' | Some err \<Rightarrow> errorf_s_w (''session '' @ s_id (c_store c1 p)) err # errs')"
    by (auto split: option.splits)
  obtain rs' where rs': "cancel_calls cn (map (\<lambda>p. s_id (c_store c1 p)) ps) (he_world e1) = (rs', w)" "rs = r # rs'"
    using Cons.prems(2) r by (auto simp: ids w1 split: prod.splits)
  from Cons.IH [OF e' rs'(1)] show ?case
    by (auto simp: errs rs'(2) ids split: option.splits)
qed simp

text \<open>
  C21: \<open>CancelAll\<close> reaches every registered session even when some cancellations fail: it sends one
  session/cancel per session, marks each of them as cancelled on purpose, and returns an error
  exactly when at least one of the calls failed.
\<close>

theorem CancelAll_reaches_every_session:
  assumes "CancelAll cn (c, e) = (r, (c', e'))"
    and "cancel_calls cn (map (\<lambda>p. s_id (c_store c p)) (map snd (c_sessions c))) (he_world e) = (rs, w)"
  shows "he_world e' = w \<and> (r = None \<longleftrightarrow> (\<forall>x \<in> set rs. x = None)) \<and>
    (\<forall>p \<in> set (map snd (c_sessions c)). s_cancelIntended (c_store c' p))"
proof (cases "c_sessions c")
  case Nil
  with assms show ?thesis by (simp add: CancelAll_def Let_def)
next
  case (Cons x xs)
  then obtain errs where "cancel_each cn (map snd (c_sessions c)) (c, e) = (errs, (c', e'))"
    and "r = (if errs = [] then None else Some (EJoin errs))"
    using assms(1) by (auto simp: CancelAll_def Let_def split: prod.splits)
  from cancel_each_spec [OF this(1) assms(2)] this(2) show ?thesis by auto
qed

definition two_sessions :: "nat client" where
  "two_sessions = (newClient (demo_options, demo_heap))\<lparr>
     c_store := (\<lambda>p. new_session (if p = 0 then ''bad'' else ''ok'') None None JNull None 4),
     c_nextPtr := 2, c_sessions := [(''bad'', 0), (''ok'', 1)]\<rparr>"

theorem CancelAll_reaches_every_session_witness:
  "fst (CancelAll demo_conn (two_sessions, demo_env)) \<noteq> None \<and>
   s_cancelIntended (c_store (fst (snd (CancelAll demo_conn (two_sessions, demo_env)))) 1)"
proof -
  obtain r c' e' where r: "CancelAll demo_conn (two_sessions, demo_env) = (r, (c', e'))" by (metis prod.exhaust)
  have w: "he_world demo_env = 0" by (simp add: he_world_def demo_env_def)
  have "cancel_calls demo_conn (map (\<lambda>p. s_id (c_store two_sessions p)) (map snd (c_sessions two_sessions)))
      (he_world demo_env) = ([Some (ENew ''gone''), None], 2)"
    by (simp add: w two_sessions_def demo_conn_def new_session_def Let_def)
  from CancelAll_reaches_every_session [OF r this]
  have "r \<noteq> None" "s_cancelIntended (c_store c' 1)" by (simp_all add: two_sessions_def)
  then show ?thesis by (simp add: r)
qed
end
