(* ===== verification/Lifecycle.thy ===== *)
theory Lifecycle
  imports Registry
begin

text \<open>
  The life of a client (\<open>client_impl.go\<close>, \<open>health.go\<close>): \<open>Start\<close> with the tool bridge, the transport
  and the initialize handshake, \<open>Close\<close>, the reaction to a crash of the subprocess, the check every
  call begins with, and the command line and environment of the subprocess.
\<close>

section \<open>Transport health\<close>

definition recordFailure :: "rat \<Rightarrow> string \<Rightarrow> string \<Rightarrow> TransportHealth \<Rightarrow> TransportHealth" where
  "recordFailure now kind message h =
     (let h1 = (if kind = ''send'' then h\<lparr>th_SendFailures := th_SendFailures h + 1\<rparr>
                else if kind = ''read'' then h\<lparr>th_ReadFailures := th_ReadFailures h + 1\<rparr> else h);
          h2 = h1\<lparr>th_ConsecutiveFailures := th_ConsecutiveFailures h1 + 1, th_LastFailureAt := Some now\<rparr>
      in if message = [] then h2 else h2\<lparr>th_LastError := Some message\<rparr>)"

definition markDegraded :: "TransportHealth \<Rightarrow> TransportHealth" where
  "markDegraded h = h\<lparr>th_Degraded := True\<rparr>"

section \<open>The check of every call\<close>

definition ensureStarted :: "'w client \<Rightarrow> goerr option" where
  "ensureStarted c =
     (if c_closed c
      then (case c_transportErr c of Some e \<Rightarrow> Some e | None \<Rightarrow> Some (ESent ErrClientClosed))
      else if \<not> c_started c then Some (ESent ErrClientNotStarted)
      else None)"

section \<open>Tools for the bridge\<close>

record 'w ToolDef =
  td_Name :: string
  td_Description :: string
  td_Schema :: "payload option"
  td_Annotations :: "ToolAnnotations option"
  td_Handler :: "payload \<Rightarrow> 'w ce \<Rightarrow> (ToolOutput option + goerr) \<times> 'w ce"

definition on_world_ce :: "('w \<Rightarrow> 'r \<times> 'w) \<Rightarrow> 'w ce \<Rightarrow> 'r \<times> 'w ce" where
  "on_world_ce f ce = (case on_world f (snd ce) of (r, e') \<Rightarrow> (r, (fst ce, e')))"

text \<open>The copy into the protocol library's record of the same fields.\<close>

definition toolAnnotationsFor :: "'w Tool \<Rightarrow> ToolAnnotations option" where
  "toolAnnotationsFor t =
     (case tl_Annotations t of
        None \<Rightarrow> None
      | Some ann \<Rightarrow> Some \<lparr>ta_Title = ta_Title ann, ta_ReadOnlyHint = ta_ReadOnlyHint ann,
            ta_DestructiveHint = ta_DestructiveHint ann, ta_IdempotentHint = ta_IdempotentHint ann,
            ta_OpenWorldHint = ta_OpenWorldHint ann\<rparr>)"

definition toolsToBridgeDefs :: "'w Tool list \<Rightarrow> 'w ToolDef list" where
  "toolsToBridgeDefs tools = map (\<lambda>t.
     \<lparr>td_Name = tl_Name t, td_Description = tl_Description t, td_Schema = tl_Schema t,
      td_Annotations = toolAnnotationsFor t,
      td_Handler = (\<lambda>inp ce. case on_world_ce (tl_Execute t inp) ce of
        ((res, Some err), ce') \<Rightarrow> (Inr err, ce')
      | ((res, None), ce') \<Rightarrow> (Inl (Some res), ce'))\<rparr>) tools"

definition AskUserQuestionToolName :: string where
  "AskUserQuestionToolName = ''AskUserQuestion''"

definition structuredOutputToolDescription :: string where
  "structuredOutputToolDescription =
     ''Deliver the final answer by calling this tool exactly once with a JSON object matching the tool's input schema. '' @
     ''Do not emit prose before or after the call. Do not call this tool more than once per turn '' @
     [CHR 0xE2, CHR 0x80, CHR 0x94] @
     '' the first call captures your answer, additional calls are discarded. '' @
     ''When this tool is available it is the ONLY valid way to return your answer.''"

definition structuredOutputBridgeDef :: "payload \<Rightarrow> 'w ToolDef" where
  "structuredOutputBridgeDef schema =
     \<lparr>td_Name = StructuredOutputToolName, td_Description = structuredOutputToolDescription, td_Schema = Some schema, td_Annotations = None,
      td_Handler = (\<lambda>inp ce. case c_capture (fst ce) of
          None \<Rightarrow> (Inr (ENew ''no capture''), ce)
        | Some cap \<Rightarrow> (case structured_tool_handler inp cap of
            (out, cap') \<Rightarrow> (Inl (Some out), ((fst ce)\<lparr>c_capture := Some cap'\<rparr>, snd ce))))\<rparr>"

fun ensureNoUserToolCollision :: "'w Tool list \<Rightarrow> string \<Rightarrow> string \<Rightarrow> goerr option" where
  "ensureNoUserToolCollision [] reserved feature = None"
| "ensureNoUserToolCollision (t # ts) reserved feature =
     (if tl_Name t = reserved
      then Some (ENew (''opencodesdk: WithSDKTools registered a tool named '' @ go_quote reserved @
        '' which conflicts with '' @ feature @ ''; drop one''))
      else ensureNoUserToolCollision ts reserved feature)"

definition assembleBridgeTools :: "'w ToolDef \<Rightarrow> 'w client \<Rightarrow> (goerr + 'w ToolDef list) \<times> 'w client" where
  "assembleBridgeTools askDef c =
     (let defs = toolsToBridgeDefs (o_sdkTools (c_opts c))
      in case (if o_onUserInput (c_opts c)
               then (case ensureNoUserToolCollision (o_sdkTools (c_opts c)) AskUserQuestionToolName ''WithOnUserInput'' of
                       Some e \<Rightarrow> Inl e | None \<Rightarrow> Inr (defs @ [askDef\<lparr>td_Name := AskUserQuestionToolName\<rparr>]))
               else Inr defs) of
           Inl e \<Rightarrow> (Inl e, c)
         | Inr defs1 \<Rightarrow>
             (case o_outputSchema (c_opts c) of
                None \<Rightarrow> (Inr defs1, c)
              | Some schema \<Rightarrow>
                  (case ensureNoUserToolCollision (o_sdkTools (c_opts c)) StructuredOutputToolName ''WithOutputSchema'' of
                     Some e \<Rightarrow> (Inl e, c)
                   | None \<Rightarrow>
                       (Inr (defs1 @ [structuredOutputBridgeDef schema]),
                        if c_capture c = None then c\<lparr>c_capture := Some newStructuredOutputCapture\<rparr> else c))))"

section \<open>The subprocess\<close>

definition subprocessArgs :: "'w client \<Rightarrow> string list" where
  "subprocessArgs c =
     (let extra = (case o_cliExtraArgs (c_opts c) of None \<Rightarrow> [] | Some r \<Rightarrow> hp_args (c_heap c) r)
      in if extra = [] then o_cliFlags (c_opts c)
         else o_cliFlags (c_opts c) @
           map (\<lambda>(name, value). case value of None \<Rightarrow> ''--'' @ name | Some v \<Rightarrow> ''--'' @ name @ ''='' @ v) extra)"

definition subprocessEnv :: "'w client \<Rightarrow> (string \<times> string) list" where
  "subprocessEnv c =
     (let env = (case o_env (c_opts c) of None \<Rightarrow> [] | Some r \<Rightarrow> hp_env (c_heap c) r)
      in if o_opencodeHome (c_opts c) = [] then env
         else let out = maps_copy [] env
              in if map_of out ''XDG_DATA_HOME'' = None
                 then amap_put ''XDG_DATA_HOME'' (o_opencodeHome (c_opts c)) out else out)"

definition discover_error :: "string \<Rightarrow> goerr \<Rightarrow> goerr" where
  "discover_error cliPath err =
     (if errors_is err CliErrNotFound
      then ECLINotFound (if cliPath \<noteq> [] then [cliPath] else [''$PATH'']) (Some err)
      else if errors_is err CliErrUnsupportedVersion
      then EWrap (err_msg (ESent ErrUnsupportedCLIVersion) @ '': '' @ err_msg err) [ESent ErrUnsupportedCLIVersion]
      else errorf_s_w ''discovering opencode CLI'' err)"

definition open_subprocess_span :: "string \<Rightarrow> 'w ce \<Rightarrow> 'w ce" where
  "open_subprocess_span path ce =
     (case ce of (c, e) \<Rightarrow>
       (case on_spans (StartSubprocessSpan path) e of (i, e') \<Rightarrow> (c\<lparr>c_subprocessSpan := Some i\<rparr>, e')))"

definition close_subprocess_span :: "'w ce \<Rightarrow> 'w ce" where
  "close_subprocess_span ce =
     (case ce of (c, e) \<Rightarrow>
       (case c_subprocessSpan c of
          None \<Rightarrow> (c, e)
        | Some i \<Rightarrow> (c\<lparr>c_subprocessSpan := None\<rparr>, finish_span i e)))"

lemma subprocess_span_fst [simp]:
  "fst (open_subprocess_span path ce) = (fst ce)\<lparr>c_subprocessSpan := Some (length (he_spans (snd ce)))\<rparr>"
  "fst (close_subprocess_span ce) = (fst ce)\<lparr>c_subprocessSpan := None\<rparr>"
  by (auto simp: open_subprocess_span_def close_subprocess_span_def on_spans_def StartSubprocessSpan_def start_span_def
      split: prod.split option.split)

lemma subprocess_span_snd [simp]:
  "he_os (snd (open_subprocess_span path ce)) = he_os (snd ce)" "he_obs (snd (open_subprocess_span path ce)) = he_obs (snd ce)"
  "he_os (snd (close_subprocess_span ce)) = he_os (snd ce)" "he_obs (snd (close_subprocess_span ce)) = he_obs (snd ce)"
  by (auto simp: open_subprocess_span_def close_subprocess_span_def on_spans_def split: prod.split option.split)

lemma subprocess_span_open:
  "open_spans (he_spans (snd (open_subprocess_span path ce))) = insert (length (he_spans (snd ce))) (open_spans (he_spans (snd ce)))"
  "open_spans (he_spans (snd (close_subprocess_span ce))) =
     open_spans (he_spans (snd ce)) - set_option (c_subprocessSpan (fst ce))"
  using start_span_open [of _ _ "he_spans (snd ce)"]
  by (auto simp: open_subprocess_span_def close_subprocess_span_def on_spans_def StartSubprocessSpan_def finish_span_def
      end_span_open start_span_def split_def split: option.split)

definition buildTransport :: "'w conn \<Rightarrow> 'w ce \<Rightarrow> goerr option \<times> 'w ce" where
  "buildTransport cn ce =
     (if o_customTransport (c_opts (fst ce))
      then (case cn_factory cn ce of
              (Inl e, ce') \<Rightarrow> (Some (errorf_s_w ''opencodesdk: transport factory'' e), ce')
            | (Inr False, ce') \<Rightarrow> (Some (ENew ''opencodesdk: transport factory returned nil transport''), ce')
            | (Inr True, ce') \<Rightarrow> (None, open_subprocess_span ''custom'' ce'))
      else (case cn_discover cn ce of
              (Inl e, ce') \<Rightarrow> (Some (discover_error (o_cliPath (c_opts (fst ce))) e), ce')
            | (Inr (path, version), ce') \<Rightarrow>
                (case cn_spawn cn path (subprocessArgs (fst ce')) (subprocessEnv (fst ce'))
                        (open_subprocess_span path ce') of
                   (Some e, (c2, e2)) \<Rightarrow>
                     (Some (errorf_s_w ''spawning opencode acp'' e),
                      close_subprocess_span (c2, on_obs (RecordCLISpawn ''error'') e2))
                 | (None, (c2, e2)) \<Rightarrow> (None, (c2, on_obs (RecordCLISpawn ''started'') e2)))))"

section \<open>Start\<close>

definition client_caps :: "'w options \<Rightarrow> ClientCapabilities" where
  "client_caps o1 = \<lparr>clc_ReadTextFile = True, clc_WriteTextFile = True, clc_Terminal = False,
     clc_TerminalAuth = o_terminalAuthCapability o1\<rparr>"

definition client_initialize :: "'w conn \<Rightarrow> rat \<Rightarrow> 'w ce \<Rightarrow> goerr option \<times> 'w ce" where
  "client_initialize cn d ce =
     (case on_spans StartInitializeSpan (snd ce) of
        (i, e0) \<Rightarrow>
          (case cn_initialize cn (client_caps (c_opts (fst ce))) (fst ce, e0) of
             (Inl err, (c, e)) \<Rightarrow>
               (Some (wrapACPErr err), (c, finish_span i (on_obs (RecordInitializeDuration d False) e)))
           | (Inr r, (c, e)) \<Rightarrow>
               (None, (c\<lparr>c_protocolVer := ir_ProtocolVersion r, c_caps := ir_Caps r, c_authMethods := ir_AuthMethods r,
                         c_agentInfo := (case ir_AgentInfo r of None \<Rightarrow> c_agentInfo c | Some info \<Rightarrow> info)\<rparr>,
                       finish_span i (on_obs (RecordInitializeDuration d True) e)))))"

definition start_bridge :: "'w conn \<Rightarrow> string list \<Rightarrow> 'w ce \<Rightarrow> goerr option \<times> 'w ce" where
  "start_bridge cn names ce =
     (if names = [] then (None, ce)
      else case cn_newBridge cn names ce of
        (Some e, ce1) \<Rightarrow> (Some (errorf_s_w ''creating mcp bridge'' e), ce1)
      | (None, ce1) \<Rightarrow>
          (case cn_startBridge cn ce1 of
             (Inl e, ce2) \<Rightarrow> (Some (errorf_s_w ''starting mcp bridge'' e), ce2)
           | (Inr b, (c, e)) \<Rightarrow> (None, (c\<lparr>c_bridge := Some b, c_listening := c_listening c @ [b]\<rparr>, e))))"

definition Start :: "'w conn \<Rightarrow> 'w ToolDef \<Rightarrow> rat \<Rightarrow> 'w ce \<Rightarrow> goerr option \<times> 'w ce" where
  "Start cn askDef d ce =
     (if c_started (fst ce) then (Some (ESent ErrClientAlreadyConnected), ce)
      else if c_closed (fst ce) then (Some (ESent ErrClientClosed), ce)
      else case assembleBridgeTools askDef (fst ce) of
        (Inl e, c1) \<Rightarrow> (Some e, (c1, snd ce))
      | (Inr defs, c1) \<Rightarrow>
          (case start_bridge cn (map td_Name defs) (c1, snd ce) of
             (Some e, ce2) \<Rightarrow> (Some e, ce2)
           | (None, ce2) \<Rightarrow>
               (case buildTransport cn ce2 of
                  (Some e, ce3) \<Rightarrow> (Some e, ce3)
                | (None, (c3, e3)) \<Rightarrow>
                    (case client_initialize cn d (c3\<lparr>c_transport := True\<rparr>, e3) of
                       (Some err, ce4) \<Rightarrow>
                         (case cn_closeTransport cn ce4 of
                            (_, (c5, e5)) \<Rightarrow> (Some (errorf_s_w ''ACP initialize'' err), (c5\<lparr>c_transport := False\<rparr>, e5)))
                     | (None, (c4, e4)) \<Rightarrow> (None, (c4\<lparr>c_started := True\<rparr>, e4))))))"

section \<open>Close and crash\<close>

fun close_ptrs :: "nat list \<Rightarrow> 'w client \<Rightarrow> 'w client option" where
  "close_ptrs [] c = Some c"
| "close_ptrs (p # ps) c = Option.bind (close_ptr p c) (close_ptrs ps)"

definition shutdown :: "'w conn \<Rightarrow> bool \<Rightarrow> 'w ce \<Rightarrow> goerr option \<times> 'w ce" where
  "shutdown cn hasTransport ce =
     (case (if hasTransport then cn_closeTransport cn ce else (None, ce)) of
        (procErr, ce1) \<Rightarrow>
          (procErr,
           case c_bridge (fst ce1) of
             None \<Rightarrow> ce1
           | Some b \<Rightarrow> (case cn_closeBridge cn b ce1 of
               (_, (c2, e2)) \<Rightarrow> (c2\<lparr>c_listening := remove1 b (c_listening c2)\<rparr>, e2))))"

definition Close :: "'w conn \<Rightarrow> 'w ce \<Rightarrow> (goerr option \<times> 'w ce) option" where
  "Close cn ce =
     (case ce of (c, e) \<Rightarrow>
       if c_closed c then Some (None, ce)
       else map_option (\<lambda>c1.
         let ids = map (\<lambda>(_, p). s_id (c_store c p)) (c_sessions c)
         in shutdown cn (c_transport c) (close_subprocess_span (fold fireHookSessionEnd ids (c1\<lparr>c_sessions := []\<rparr>, e))))
         (close_ptrs (map snd (c_sessions c)) (c\<lparr>c_closed := True\<rparr>)))"

text \<open>
  \<open>watchSubprocess\<close> once the subprocess has exited with \<open>err\<close>, as one step. In the code the look at
  \<open>c.closed\<close>, the closing of the sessions under \<open>sessionsMu\<close> and the last assignments under \<open>c.mu\<close> are
  three critical sections, so a call that falls between them still finds an open client, with its table
  already empty.
\<close>

definition subprocess_exited :: "rat \<Rightarrow> goerr option \<Rightarrow> 'w ce \<Rightarrow> 'w ce option" where
  "subprocess_exited now err ce =
     (case ce of (c, e) \<Rightarrow>
       if c_closed c then Some ce
       else
         (let msg = (case err of Some x \<Rightarrow> err_msg x | None \<Rightarrow> ''opencode acp exited unexpectedly'');
              c1 = c\<lparr>c_health := markDegraded (recordFailure now ''subprocess'' msg (c_health c))\<rparr>;
              e1 = on_obs (RecordTransportFailure ''subprocess'') e
          in map_option (\<lambda>c2. (c2\<lparr>c_sessions := [], c_pending := [], c_closed := True,
               c_transportErr := Some (ETransport ''subprocess'' err)\<rparr>, e1))
             (close_ptrs (map snd (c_sessions c)) c1)))"

section \<open>Closing\<close>

lemma close_ptrs_ok:
  "reg_inv c \<Longrightarrow> \<exists>c'. close_ptrs ps c = Some c' \<and> reg_inv c' \<and> c_sessions c' = c_sessions c \<and>
     c_pending c' = c_pending c \<and> c_nextPtr c' = c_nextPtr c \<and>
     (\<forall>p. s_closed (c_store c' p) = (s_closed (c_store c p) \<or> p \<in> set ps))"
proof (induction ps arbitrary: c)
  case (Cons p ps)
  from close_ptr_ok [OF Cons.prems, of p] obtain c1 where c1: "close_ptr p c = Some c1" "reg_inv c1"
    "c_sessions c1 = c_sessions c" "c_pending c1 = c_pending c" "c_nextPtr c1 = c_nextPtr c"
    "s_closed (c_store c1 p)" "\<forall>q. q \<noteq> p \<longrightarrow> c_store c1 q = c_store c q" by blast
  from Cons.IH [OF c1(2)] obtain c2 where c2: "close_ptrs ps c1 = Some c2" "reg_inv c2"
    "c_sessions c2 = c_sessions c1" "c_pending c2 = c_pending c1" "c_nextPtr c2 = c_nextPtr c1"
    "\<forall>q. s_closed (c_store c2 q) = (s_closed (c_store c1 q) \<or> q \<in> set ps)" by blast
  have "s_closed (c_store c2 q) = (s_closed (c_store c q) \<or> q \<in> set (p # ps))" for q
    using c1(6,7) c2(6) by (cases "q = p") auto
  with c1 c2 show ?case by auto
qed simp

lemma close_ptr_frame:
  "close_ptr p c = Some c' \<Longrightarrow> c_closed c' = c_closed c \<and> c_started c' = c_started c \<and> c_bridge c' = c_bridge c \<and>
     c_listening c' = c_listening c \<and> c_transportErr c' = c_transportErr c \<and> c_health c' = c_health c \<and>
     c_heap c' = c_heap c \<and> c_hookRef c' = c_hookRef c \<and> c_transport c' = c_transport c \<and> c_pending c' = c_pending c \<and>
     c_subprocessSpan c' = c_subprocessSpan c"
  by (auto simp: close_ptr_def)

lemma close_ptrs_frame:
  "close_ptrs ps c = Some c' \<Longrightarrow> c_closed c' = c_closed c \<and> c_started c' = c_started c \<and> c_bridge c' = c_bridge c \<and>
     c_listening c' = c_listening c \<and> c_transportErr c' = c_transportErr c \<and> c_health c' = c_health c \<and>
     c_heap c' = c_heap c \<and> c_hookRef c' = c_hookRef c \<and> c_transport c' = c_transport c \<and> c_pending c' = c_pending c \<and>
     c_subprocessSpan c' = c_subprocessSpan c"
proof (induction ps arbitrary: c)
  case (Cons p ps)
  then obtain c1 where "close_ptr p c = Some c1" "close_ptrs ps c1 = Some c'"
    by (auto simp: bind_eq_Some_conv)
  with Cons.IH [of c1] close_ptr_frame [of p c c1] show ?case by simp
qed simp

lemma fireHookSession_fst [simp]: "fst (fireHookSession ev sid ce) = fst ce"
  by (simp add: fireHookSession_def split: prod.splits)

lemma fold_session_end_fst [simp]: "fst (fold fireHookSessionEnd ids ce) = fst ce"
  by (induction ids arbitrary: ce) (simp_all add: fireHookSessionEnd_def)

text \<open>
  What is assumed of the transport's and the bridge's close: opencode's connection does not reach
  into the client's registry or its flags.
\<close>

definition quiet :: "('w ce \<Rightarrow> 'r \<times> 'w ce) \<Rightarrow> bool" where
  "quiet f \<longleftrightarrow> (\<forall>ce. fst (snd (f ce)) = fst ce)"

lemma shutdown_quiet:
  assumes "quiet (cn_closeTransport cn)" "\<forall>b. quiet (cn_closeBridge cn b)"
  shows "\<exists>l. fst (snd (shutdown cn t ce)) = (fst ce)\<lparr>c_listening := l\<rparr>"
proof -
  define x where "x = (if t then cn_closeTransport cn ce else (None, ce))"
  have x: "fst (snd x) = fst ce" using assms(1) unfolding x_def quiet_def by (metis snd_conv)
  show ?thesis
  proof (cases "c_bridge (fst ce)")
    case None
    with x show ?thesis
      by (intro exI [of _ "c_listening (fst ce)"]) (auto simp: shutdown_def x_def [symmetric] split: prod.split)
  next
    case (Some b)
    obtain rb c2 e2 where b: "cn_closeBridge cn b (snd x) = (rb, (c2, e2))" by (metis prod.exhaust)
    with assms(2) x have "c2 = fst ce" by (metis quiet_def fst_conv snd_conv)
    with b x Some show ?thesis
      by (auto simp: shutdown_def x_def [symmetric] split: prod.split)
  qed
qed

lemma shutdown_nothing: "c_bridge (fst ce) = None \<Longrightarrow> shutdown cn False ce = (None, ce)"
  by (simp add: shutdown_def)

lemma registered_ids:
  assumes "reg_inv c"
  shows "map (\<lambda>(_, p). s_id (c_store c p)) (c_sessions c) = map fst (c_sessions c)"
proof (rule map_cong [OF refl])
  fix x assume x: "x \<in> set (c_sessions c)"
  obtain i p where ip: "x = (i, p)" by (cases x)
  have "map_of (c_sessions c) i = Some p" using x ip assms by (auto simp: reg_inv_def amap_ok_def)
  then show "(case x of (_, p) \<Rightarrow> s_id (c_store c p)) = fst x" using ip assms by (auto simp: reg_inv_def)
qed

definition end_hooks :: "'w client \<Rightarrow> string list \<Rightarrow> 'w henv \<Rightarrow> 'w henv" where
  "end_hooks c = fold (\<lambda>i. notify_hook (hooks_of c) HookEventSessionEnd i (hook_input HookEventSessionEnd i))"

lemma fold_session_end:
  "fold fireHookSessionEnd ids (c, e) = (c, end_hooks c ids e)"
  by (induction ids arbitrary: e) (simp_all add: end_hooks_def fireHookSessionEnd_def fireHookSession_def)

lemma Close_result:
  assumes "reg_inv c" "\<not> c_closed c" "quiet (cn_closeTransport cn)" "\<forall>b. quiet (cn_closeBridge cn b)"
  obtains r c' e' where "Close cn (c, e) = Some (r, (c', e'))" "c_closed c'" "c_sessions c' = []"
    "\<forall>(i, p) \<in> set (c_sessions c). s_closed (c_store c' p)"
    "\<not> c_transport c \<and> c_bridge c = None \<Longrightarrow> r = None \<and> e' = snd (close_subprocess_span (c, end_hooks c (map fst (c_sessions c)) e))"
proof -
  have "reg_inv (c\<lparr>c_closed := True\<rparr>)" using assms(1) by (simp add: reg_inv_def)
  from close_ptrs_ok [OF this, of "map snd (c_sessions c)"] obtain c1
    where c1: "close_ptrs (map snd (c_sessions c)) (c\<lparr>c_closed := True\<rparr>) = Some c1"
      "\<forall>p. s_closed (c_store c1 p) = (s_closed (c_store c p) \<or> p \<in> set (map snd (c_sessions c)))" by auto
  note fr = close_ptrs_frame [OF c1(1)]
  let ?e = "end_hooks c (map fst (c_sessions c)) e"
  define x where "x = shutdown cn (c_transport c) (close_subprocess_span (c1\<lparr>c_sessions := []\<rparr>, ?e))"
  have hk: "end_hooks (c1\<lparr>c_sessions := []\<rparr>) = end_hooks c"
    using fr by (simp add: end_hooks_def hooks_of_def fun_eq_iff)
  have sp: "c_subprocessSpan c1 = c_subprocessSpan c" using fr by simp
  obtain l where l: "fst (snd x) = c1\<lparr>c_sessions := [], c_subprocessSpan := None, c_listening := l\<rparr>"
    using shutdown_quiet [OF assms(3,4), of "c_transport c" "close_subprocess_span (c1\<lparr>c_sessions := []\<rparr>, ?e)"]
    by (auto simp: x_def)
  show thesis
  proof (rule that)
    show "Close cn (c, e) = Some (fst x, (fst (snd x), snd (snd x)))"
      using assms(2) by (simp add: Close_def c1(1) registered_ids [OF assms(1)] fold_session_end hk x_def)
    show "\<not> c_transport c \<and> c_bridge c = None \<Longrightarrow>
        fst x = None \<and> snd (snd x) = snd (close_subprocess_span (c, ?e))"
      using fr sp by (simp add: x_def shutdown_nothing close_subprocess_span_def split: option.split)
    show "\<forall>(i, p) \<in> set (c_sessions c). s_closed (c_store (fst (snd x)) p)" using c1(2) l by force
  qed (use l fr in simp_all)
qed

text \<open>
  C18: \<open>Close\<close> ends everything, once. On a client with a sound registry it does not panic; afterwards
  the client is closed, every session it routed to is closed and none is registered; without a
  transport and a bridge to shut down it returns no error and its only effect on the world is the
  session_end hook of each session, once and in table order, and the end of the subprocess span. Closing again does nothing and returns
  no error.
\<close>

theorem Close_ends_every_session:
  assumes "reg_inv c" "\<not> c_closed c" "quiet (cn_closeTransport cn)" "\<forall>b. quiet (cn_closeBridge cn b)"
  shows "\<exists>r c' e'. Close cn (c, e) = Some (r, (c', e')) \<and> c_closed c' \<and> c_sessions c' = [] \<and>
    (\<forall>(i, p) \<in> set (c_sessions c). s_closed (c_store c' p)) \<and>
    (\<not> c_transport c \<and> c_bridge c = None \<longrightarrow> r = None \<and> e' = snd (close_subprocess_span (c, end_hooks c (map fst (c_sessions c)) e))) \<and>
    Close cn (c', e') = Some (None, (c', e'))"
proof (rule Close_result [OF assms, of e])
  fix r c' e'
  assume "Close cn (c, e) = Some (r, (c', e'))" "c_closed c'" "c_sessions c' = []"
    "\<forall>(i, p) \<in> set (c_sessions c). s_closed (c_store c' p)"
    "\<not> c_transport c \<and> c_bridge c = None \<Longrightarrow> r = None \<and> e' = snd (close_subprocess_span (c, end_hooks c (map fst (c_sessions c)) e))"
  moreover from this(2) have "Close cn (c', e') = Some (None, (c', e'))" by (simp add: Close_def)
  ultimately show ?thesis by blast
qed

definition quiet_conn :: "nat conn" where
  "quiet_conn = demo_conn\<lparr>cn_cancel := (\<lambda>_ w. (None, w))\<rparr>"

theorem Close_ends_every_session_witness:
  "\<exists>r c' e'. Close demo_conn (two_sessions, demo_env) = Some (r, (c', e')) \<and> c_closed c' \<and>
     s_closed (c_store c' 0) \<and> s_closed (c_store c' 1)"
proof -
  have "reg_inv two_sessions"
    by (auto simp: reg_inv_def two_sessions_def sess_ok_new newClient_sel amap_ok_def s_id_new split: if_splits)
  moreover have "\<not> c_closed two_sessions" by (simp add: two_sessions_def newClient_def)
  moreover have "quiet (cn_closeTransport demo_conn)" "\<forall>b. quiet (cn_closeBridge demo_conn b)"
    by (simp_all add: quiet_def demo_conn_def)
  ultimately obtain r c' e' where "Close demo_conn (two_sessions, demo_env) = Some (r, (c', e'))" "c_closed c'"
    "\<forall>(i, p) \<in> set (c_sessions two_sessions). s_closed (c_store c' p)"
    using Close_ends_every_session [of two_sessions demo_conn demo_env] by blast
  moreover have "c_sessions two_sessions = [(''bad'', 0), (''ok'', 1)]" by (simp add: two_sessions_def)
  ultimately show ?thesis by auto
qed

text \<open>
  A crash leaves things running: the bridge keeps listening, and because the crash has already
  marked the client as closed, a later \<open>Close\<close> returns without shutting it down; nor does it end the
  subprocess span, and the session_end hooks of the sessions the crash has closed never fire.
\<close>

theorem crash_leaves_the_bridge_running:
  assumes "\<not> c_closed c" "subprocess_exited now err (c, e) = Some (c', e')"
  shows "c_listening c' = c_listening c \<and> c_bridge c' = c_bridge c \<and> he_hooks e' = he_hooks e \<and>
    c_subprocessSpan c' = c_subprocessSpan c \<and> he_spans e' = he_spans e \<and>
    Close cn (c', e') = Some (None, (c', e'))"
proof -
  define h where "h = markDegraded (recordFailure now ''subprocess''
    (case err of Some x \<Rightarrow> err_msg x | None \<Rightarrow> ''opencode acp exited unexpectedly'') (c_health c))"
  obtain c2 where c2: "close_ptrs (map snd (c_sessions c)) (c\<lparr>c_health := h\<rparr>) = Some c2"
    "c' = c2\<lparr>c_sessions := [], c_pending := [], c_closed := True, c_transportErr := Some (ETransport ''subprocess'' err)\<rparr>"
    "e' = on_obs (RecordTransportFailure ''subprocess'') e"
    using assms by (auto simp: subprocess_exited_def h_def Let_def)
  with close_ptrs_frame [OF c2(1)] show ?thesis by (simp add: Close_def on_obs_def)
qed

theorem crash_leaves_the_bridge_running_witness:
  "\<exists>c' e'. subprocess_exited 0 None ((newClient (demo_options, demo_heap))\<lparr>c_bridge := Some (''u'', ''t''),
       c_listening := [(''u'', ''t'')]\<rparr>, demo_env) = Some (c', e') \<and>
     Close demo_conn (c', e') = Some (None, (c', e')) \<and> c_listening c' = [(''u'', ''t'')]"
proof -
  let ?c = "(newClient (demo_options, demo_heap))\<lparr>c_bridge := Some (''u'', ''t''), c_listening := [(''u'', ''t'')]\<rparr>"
  have n: "\<not> c_closed ?c" "c_sessions ?c = []" by (simp_all add: newClient_def)
  then obtain c' e' where r: "subprocess_exited 0 None (?c, demo_env) = Some (c', e')"
    by (simp add: subprocess_exited_def Let_def)
  from crash_leaves_the_bridge_running [OF n(1) r, of demo_conn] r show ?thesis by auto
qed

text \<open>
  The exit of the subprocess, as the watcher handles it: every session closed, the table and the buffers
  empty, the health degraded, and the transport error, with the exit error in its chain, for whoever
  checks that the client has started.
\<close>

lemma crash_recorded:
  assumes "reg_inv c" "\<not> c_closed c"
  shows "\<exists>c' e' x. subprocess_exited now err (c, e) = Some (c', e') \<and>
    (\<forall>(i, p) \<in> set (c_sessions c). s_closed (c_store c' p)) \<and>
    c_sessions c' = [] \<and> c_pending c' = [] \<and> th_Degraded (c_health c') \<and>
    th_ConsecutiveFailures (c_health c') = th_ConsecutiveFailures (c_health c) + 1 \<and>
    ensureStarted c' = Some x \<and> errors_is x ErrTransport \<and>
    (\<forall>y s. err = Some y \<and> errors_is y s \<longrightarrow> errors_is x s) \<and>
    c_closed c'"
proof -
  define h where "h = markDegraded (recordFailure now ''subprocess''
    (case err of Some x \<Rightarrow> err_msg x | None \<Rightarrow> ''opencode acp exited unexpectedly'') (c_health c))"
  have "reg_inv (c\<lparr>c_health := h\<rparr>)" using assms(1) by (simp add: reg_inv_def)
  from close_ptrs_ok [OF this, of "map snd (c_sessions c)"] obtain c1
    where c1: "close_ptrs (map snd (c_sessions c)) (c\<lparr>c_health := h\<rparr>) = Some c1"
      "\<forall>p. s_closed (c_store c1 p) = (s_closed (c_store c p) \<or> p \<in> set (map snd (c_sessions c)))" by auto
  define c' where "c' = c1\<lparr>c_sessions := [], c_pending := [], c_closed := True,
      c_transportErr := Some (ETransport ''subprocess'' err)\<rparr>"
  have h': "c_health c1 = h" using close_ptrs_frame [OF c1(1)] by simp
  have d: "th_Degraded h" "th_ConsecutiveFailures h = th_ConsecutiveFailures (c_health c) + 1"
    by (simp_all add: h_def markDegraded_def recordFailure_def Let_def)
  have r: "subprocess_exited now err (c, e) = Some (c', on_obs (RecordTransportFailure ''subprocess'') e)"
    using assms(2) c1(1) by (simp add: subprocess_exited_def h_def c'_def Let_def)
  have "ensureStarted c' = Some (ETransport ''subprocess'' err)" by (simp add: ensureStarted_def c'_def)
  moreover have "errors_is (ETransport ''subprocess'' err) ErrTransport"
    "\<forall>y s. err = Some y \<and> errors_is y s \<longrightarrow> errors_is (ETransport ''subprocess'' err) s"
    by auto
  moreover have "\<forall>(i, p) \<in> set (c_sessions c). s_closed (c_store c' p)" using c1(2) by (force simp: c'_def)
  ultimately show ?thesis using r h' d
    by (intro exI [of _ c'] exI [of _ "on_obs (RecordTransportFailure ''subprocess'') e"] exI [of _ "ETransport ''subprocess'' err"])
      (simp add: c'_def)
qed

text \<open>
  \<open>Close\<close> does neither of two things the documentation says of it: it does not mark the
  transport health as degraded, and it does not drop the notifications buffered for sessions that
  never registered.
\<close>

theorem Close_keeps_pending_and_health:
  assumes "\<not> c_closed c" "c_sessions c = []" "\<not> c_transport c" "c_bridge c = None"
  shows "\<exists>c' e'. Close cn (c, e) = Some (None, (c', e')) \<and> c_health c' = c_health c \<and> c_pending c' = c_pending c"
  using assms by (auto simp: Close_def shutdown_nothing close_subprocess_span_def split: option.split)

theorem Close_keeps_pending_and_health_witness:
  "\<exists>c' e'. Close demo_conn ((newClient (demo_options, demo_heap))\<lparr>c_pending := [(''s1'', [demo_note])]\<rparr>, demo_env) =
     Some (None, (c', e')) \<and> c_health c' = healthy \<and> c_pending c' = [(''s1'', [demo_note])]"
  using Close_keeps_pending_and_health
    [of "(newClient (demo_options, demo_heap))\<lparr>c_pending := [(''s1'', [demo_note])]\<rparr>" demo_conn demo_env]
  by (simp add: newClient_def)

section \<open>Starting\<close>

lemma Start_refused:
  "c_started (fst ce) \<Longrightarrow> Start cn ask d ce = (Some (ESent ErrClientAlreadyConnected), ce)"
  "\<not> c_started (fst ce) \<Longrightarrow> c_closed (fst ce) \<Longrightarrow> Start cn ask d ce = (Some (ESent ErrClientClosed), ce)"
  by (simp_all add: Start_def)

text \<open>What a connection must leave alone for \<open>Start\<close> to be in charge of the flags.\<close>

definition flags :: "'w ce \<Rightarrow> bool \<times> bool" where
  "flags ce = (c_started (fst ce), c_closed (fst ce))"

definition keeps_flags :: "('w ce \<Rightarrow> 'r \<times> 'w ce) \<Rightarrow> bool" where
  "keeps_flags f \<longleftrightarrow> (\<forall>ce. flags (snd (f ce)) = flags ce)"

lemma keeps_flagsD: "keeps_flags f \<Longrightarrow> f ce = (r, ce') \<Longrightarrow> flags ce' = flags ce"
  unfolding keeps_flags_def by (metis snd_conv)

lemma flags_obs [simp]: "flags (c, on_obs f e) = flags (c, e)"
  by (simp add: flags_def)

definition tame :: "'w conn \<Rightarrow> bool" where
  "tame cn \<longleftrightarrow> (\<forall>n. keeps_flags (cn_newBridge cn n)) \<and> keeps_flags (cn_startBridge cn) \<and>
     keeps_flags (cn_factory cn) \<and> keeps_flags (cn_discover cn) \<and>
     (\<forall>p a env. keeps_flags (cn_spawn cn p a env)) \<and> (\<forall>q. keeps_flags (cn_initialize cn q)) \<and>
     keeps_flags (cn_closeTransport cn)"

lemma tameD:
  assumes "tame cn"
  shows "cn_newBridge cn n ce = (r1, ce') \<Longrightarrow> flags ce' = flags ce"
    "cn_startBridge cn ce = (r2, ce') \<Longrightarrow> flags ce' = flags ce"
    "cn_factory cn ce = (r3, ce') \<Longrightarrow> flags ce' = flags ce"
    "cn_discover cn ce = (r4, ce') \<Longrightarrow> flags ce' = flags ce"
    "cn_spawn cn p a env ce = (r5, ce') \<Longrightarrow> flags ce' = flags ce"
    "cn_initialize cn q ce = (r6, ce') \<Longrightarrow> flags ce' = flags ce"
    "cn_closeTransport cn ce = (r7, ce') \<Longrightarrow> flags ce' = flags ce"
  using assms unfolding tame_def by (metis keeps_flagsD)+

lemma start_bridge_flags:
  assumes "tame cn" "start_bridge cn names ce = (r, ce')"
  shows "flags ce' = flags ce"
proof (cases "names = []")
  case False
  obtain r1 ce1 where n: "cn_newBridge cn names ce = (r1, ce1)" by (metis prod.exhaust)
  then have f1: "flags ce1 = flags ce" by (rule tameD [OF assms(1)])
  obtain r2 c2 e2 where b: "cn_startBridge cn ce1 = (r2, (c2, e2))" by (metis prod.exhaust)
  then have "flags (c2, e2) = flags ce1" by (rule tameD [OF assms(1)])
  with f1 n b assms(2) False show ?thesis
    by (cases r1; cases r2) (auto simp: start_bridge_def flags_def)
qed (use assms in \<open>simp add: start_bridge_def\<close>)

lemma buildTransport_flags:
  assumes "tame cn" "buildTransport cn ce = (r, ce')"
  shows "flags ce' = flags ce"
proof (cases "o_customTransport (c_opts (fst ce))")
  case True
  obtain r1 ce1 where f: "cn_factory cn ce = (r1, ce1)" by (metis prod.exhaust)
  then have "flags ce1 = flags ce" by (rule tameD [OF assms(1)])
  with f True assms(2) show ?thesis
    by (auto simp: buildTransport_def flags_def split: sum.splits bool.splits)
next
  case False
  obtain r1 ce1 where d: "cn_discover cn ce = (r1, ce1)" by (metis prod.exhaust)
  then have f1: "flags ce1 = flags ce" by (rule tameD [OF assms(1)])
  show ?thesis
  proof (cases r1)
    case (Inr pv)
    obtain r2 c2 e2 where sp: "cn_spawn cn (fst pv) (subprocessArgs (fst ce1)) (subprocessEnv (fst ce1))
        (open_subprocess_span (fst pv) ce1) = (r2, (c2, e2))" by (metis prod.exhaust)
    then have "flags (c2, e2) = flags (open_subprocess_span (fst pv) ce1)" by (rule tameD [OF assms(1)])
    with Inr d f1 sp False assms(2) show ?thesis
      by (cases pv; cases r2) (auto simp: buildTransport_def flags_def)
  qed (use d f1 False assms(2) in \<open>auto simp: buildTransport_def\<close>)
qed

lemma client_initialize_flags:
  assumes "tame cn" "client_initialize cn d ce = (r, ce')"
  shows "flags ce' = flags ce"
proof -
  obtain k e0 where k: "on_spans StartInitializeSpan (snd ce) = (k, e0)" by (metis prod.exhaust)
  obtain r1 c1 e1 where i: "cn_initialize cn (client_caps (c_opts (fst ce))) (fst ce, e0) = (r1, (c1, e1))"
    by (metis prod.exhaust)
  then have "flags (c1, e1) = flags (fst ce, e0)" by (rule tameD [OF assms(1)])
  with k i assms(2) show ?thesis by (cases r1) (auto simp: client_initialize_def flags_def)
qed

lemma assemble_flags:
  "assembleBridgeTools ask c = (r, c') \<Longrightarrow> c_started c' = c_started c \<and> c_closed c' = c_closed c"
  by (auto simp: assembleBridgeTools_def Let_def split: sum.splits option.splits if_splits)

text \<open>
  C19: The outcome of \<open>Start\<close> decides whether calls are let through: when it succeeds, the check of
  every call passes and any further \<open>Start\<close> is refused without effect; when it fails on a client
  that was neither started nor closed (whatever step failed: the tools, the bridge, discovery or
  spawn, the handshake), calls are refused with ErrClientNotStarted and \<open>Start\<close> may be tried again.
\<close>

theorem Start_decides:
  assumes "tame cn" "\<not> c_started c" "\<not> c_closed c" "Start cn ask d (c, e) = (r, (c', e'))"
  shows "if r = None
    then ensureStarted c' = None \<and> Start cn2 ask2 d2 (c', e') = (Some (ESent ErrClientAlreadyConnected), (c', e'))
    else ensureStarted c' = Some (ESent ErrClientNotStarted) \<and> \<not> c_started c' \<and> \<not> c_closed c'"
proof -
  have nf: "flags (c, e) = (False, False)" using assms(2,3) by (simp add: flags_def)
  obtain ar c1 where a: "assembleBridgeTools ask c = (ar, c1)" by (metis prod.exhaust)
  then have f1: "flags (c1, e) = (False, False)" using assemble_flags [OF a] nf by (simp add: flags_def)
  have "if r = None then flags (c', e') = (True, False) else flags (c', e') = (False, False)"
  proof (cases ar)
    case (Inr defs)
    obtain br ce2 where b: "start_bridge cn (map td_Name defs) (c1, e) = (br, ce2)" by (metis prod.exhaust)
    note f2 = start_bridge_flags [OF assms(1) b, unfolded f1]
    obtain tr c3 e3 where t: "buildTransport cn ce2 = (tr, (c3, e3))" by (metis prod.exhaust)
    note f3 = buildTransport_flags [OF assms(1) t, unfolded f2]
    obtain ir c4 e4 where i: "client_initialize cn d (c3\<lparr>c_transport := True\<rparr>, e3) = (ir, (c4, e4))"
      by (metis prod.exhaust)
    have f4: "flags (c4, e4) = (False, False)"
      using client_initialize_flags [OF assms(1) i] f3 by (simp add: flags_def)
    obtain xr c5 e5 where x: "cn_closeTransport cn (c4, e4) = (xr, (c5, e5))" by (metis prod.exhaust)
    then have f5: "flags (c5, e5) = (False, False)" using f4 tameD(7) [OF assms(1)] by metis
    show ?thesis
      using assms(2-4) a b t i x Inr f2 f3 f4 f5
      by (cases br; cases tr; cases ir) (auto simp: Start_def flags_def)
  qed (use assms(2-4) a f1 in \<open>auto simp: Start_def flags_def\<close>)
  then show ?thesis by (auto simp: flags_def ensureStarted_def Start_refused split: if_splits)
qed

definition demo_tool :: "nat Tool" where
  "demo_tool = NewTool ''add'' [] None (\<lambda>_ w. ((\<lparr>to_Text = ''ok'', to_Structured = None, to_IsError = False\<rparr>, None), w)) []"

definition demo_ask :: "nat ToolDef" where
  "demo_ask = \<lparr>td_Name = AskUserQuestionToolName, td_Description = [], td_Schema = None, td_Annotations = None,
     td_Handler = (\<lambda>_ ce. (Inr (ENew ''unused''), ce))\<rparr>"

definition tool_client :: "nat client" where
  "tool_client = newClient (demo_options\<lparr>o_sdkTools := [demo_tool], o_customTransport := True\<rparr>, demo_heap)"

lemma tool_client_flags: "\<not> c_started tool_client" "\<not> c_closed tool_client"
  by (simp_all add: tool_client_def newClient_def)

definition ok_conn :: "nat conn" where
  "ok_conn = demo_conn\<lparr>cn_initialize := (\<lambda>_ ce. (Inr \<lparr>ir_Caps = c_caps (fst ce), ir_AuthMethods = [], ir_ProtocolVersion = 1, ir_AgentInfo = None\<rparr>, ce))\<rparr>"

theorem Start_decides_witness:
  "\<exists>c' e'. Start ok_conn demo_ask 0 (tool_client, demo_env) = (None, (c', e')) \<and> ensureStarted c' = None"
proof -
  have t: "tame ok_conn" by (simp add: tame_def keeps_flags_def ok_conn_def demo_conn_def flags_def)
  have o: "c_opts tool_client = demo_options\<lparr>o_sdkTools := [demo_tool], o_customTransport := True\<rparr>"
    by (simp add: tool_client_def newClient_sel)
  have "fst (Start ok_conn demo_ask 0 (tool_client, demo_env)) = None"
    by (simp add: Start_def assembleBridgeTools_def toolsToBridgeDefs_def start_bridge_def buildTransport_def
        client_initialize_def ok_conn_def demo_conn_def tool_client_flags o demo_options_def defaultOptions_def Let_def
        on_spans_def StartInitializeSpan_def open_subprocess_span_def StartSubprocessSpan_def start_span_def)
  then obtain c' e' where r: "Start ok_conn demo_ask 0 (tool_client, demo_env) = (None, (c', e'))"
    by (metis prod.exhaust fst_conv)
  from Start_decides [OF t tool_client_flags r, of demo_conn demo_ask 0] r show ?thesis by simp
qed

definition leak_conn :: "nat conn" where
  "leak_conn = demo_conn\<lparr>cn_startBridge := (\<lambda>ce.
     (Inr (if c_listening (fst ce) = [] then (''url1'', ''t1'') else (''url2'', ''t2'')), ce))\<rparr>"

text \<open>
  A failed \<open>Start\<close> leaks the tool bridge and the subprocess span: when the handshake fails after
  they were opened, both stay; the next attempt opens others, and \<open>Close\<close> ends only the last, so one
  listening server and one open span per failed attempt are left.
\<close>

definition subprocess_span :: "string \<Rightarrow> bool \<Rightarrow> span" where
  "subprocess_span path ended = \<lparr>sp_Name = Namespace @ ''.subprocess'', sp_Attrs = [(''path'', path)], sp_Ended = ended\<rparr>"

definition initialize_span :: "bool \<Rightarrow> span" where
  "initialize_span ended = \<lparr>sp_Name = Namespace @ ''.initialize'', sp_Attrs = [], sp_Ended = ended\<rparr>"

lemma leaking_start:
  assumes "\<not> c_started c" "\<not> c_closed c" "c_opts c = c_opts tool_client"
    and "b = (if c_listening c = [] then (''url1'', ''t1'') else (''url2'', ''t2''))"
  shows "\<exists>e'. Start leak_conn demo_ask 0 (c, e) =
      (Some (errorf_s_w ''ACP initialize'' (ENew ''x'')),
       (c\<lparr>c_bridge := Some b, c_listening := c_listening c @ [b], c_transport := False,
          c_subprocessSpan := Some (length (he_spans e))\<rparr>, e')) \<and>
    he_spans e' = he_spans e @ [subprocess_span ''custom'' False, initialize_span True]"
proof -
  have w: "wrapACPErr (ENew ''x'') = ENew ''x''" by code_simp
  define sp where "sp = he_spans e @ [subprocess_span ''custom'' False]"
  define e0 where "e0 = e\<lparr>he_spans := sp\<rparr>"
  define e' where "e' = finish_span (length sp) (on_obs (RecordInitializeDuration 0 False)
    (e\<lparr>he_spans := sp @ [initialize_span False]\<rparr>))"
  define c1 where "c1 = c\<lparr>c_bridge := Some b, c_listening := c_listening c @ [b], c_subprocessSpan := Some (length (he_spans e))\<rparr>"
  have o: "o_customTransport (c_opts tool_client)" "o_onUserInput (c_opts tool_client) = False"
    "o_outputSchema (c_opts tool_client) = None" "o_sdkTools (c_opts tool_client) = [demo_tool]"
    by (simp_all add: tool_client_def newClient_sel demo_options_def defaultOptions_def)
  have a: "assembleBridgeTools demo_ask c = (Inr (toolsToBridgeDefs [demo_tool]), c)"
    using assms(3) o by (simp add: assembleBridgeTools_def)
  have st: "start_bridge leak_conn (map td_Name (toolsToBridgeDefs [demo_tool])) (c, e) =
      (None, (c\<lparr>c_bridge := Some b, c_listening := c_listening c @ [b]\<rparr>, e))"
    using assms(4) by (simp add: start_bridge_def leak_conn_def demo_conn_def toolsToBridgeDefs_def)
  have bt: "buildTransport leak_conn (c\<lparr>c_bridge := Some b, c_listening := c_listening c @ [b]\<rparr>, e) = (None, (c1, e0))"
    using assms(3) o by (simp add: buildTransport_def leak_conn_def demo_conn_def open_subprocess_span_def on_spans_def
        StartSubprocessSpan_def start_span_def c1_def e0_def sp_def subprocess_span_def)
  have ci: "client_initialize leak_conn 0 (c2, e0) = (Some (ENew ''x''), (c2, e'))" for c2
    by (simp add: client_initialize_def leak_conn_def demo_conn_def w on_spans_def StartInitializeSpan_def start_span_def
        e0_def e'_def initialize_span_def)
  have ct: "cn_closeTransport leak_conn ce = (None, ce)" for ce by (simp add: leak_conn_def demo_conn_def)
  have "Start leak_conn demo_ask 0 (c, e) =
      (Some (errorf_s_w ''ACP initialize'' (ENew ''x'')), (c1\<lparr>c_transport := False\<rparr>, e'))"
    using assms(1,2) by (simp add: Start_def a st bt ci ct)
  moreover have "he_spans e' = sp @ [initialize_span True]"
    by (simp add: e'_def finish_span_def on_obs_def end_span_def nth_append list_update_append initialize_span_def)
  ultimately show ?thesis by (simp add: c1_def sp_def)
qed

theorem failed_Start_leaks_the_bridge:
  "\<exists>c1 e1 c2 e2 r c3 e3.
     Start leak_conn demo_ask 0 (tool_client, demo_env) = (Some (errorf_s_w ''ACP initialize'' (ENew ''x'')), (c1, e1)) \<and>
     Start leak_conn demo_ask 0 (c1, e1) = (Some (errorf_s_w ''ACP initialize'' (ENew ''x'')), (c2, e2)) \<and>
     Close leak_conn (c2, e2) = Some (r, (c3, e3)) \<and>
     c_listening c1 = [(''url1'', ''t1'')] \<and> c_listening c2 = [(''url1'', ''t1''), (''url2'', ''t2'')] \<and>
     c_listening c3 = [(''url1'', ''t1'')] \<and>
     map sp_Ended (filter (\<lambda>s. sp_Name s = Namespace @ ''.subprocess'') (he_spans e3)) = [False, True]"
proof -
  let ?err = "errorf_s_w ''ACP initialize'' (ENew ''x'')"
  define c1 where "c1 = tool_client\<lparr>c_bridge := Some (''url1'', ''t1''), c_listening := [(''url1'', ''t1'')],
    c_transport := False, c_subprocessSpan := Some 0\<rparr>"
  define c2 where "c2 = c1\<lparr>c_bridge := Some (''url2'', ''t2''), c_listening := [(''url1'', ''t1''), (''url2'', ''t2'')],
    c_transport := False, c_subprocessSpan := Some 2\<rparr>"
  have l0: "c_listening tool_client = []" "c_sessions tool_client = []" by (simp_all add: tool_client_def newClient_def)
  have s0: "he_spans demo_env = []" by (simp add: demo_env_def)
  obtain e1 where s1: "Start leak_conn demo_ask 0 (tool_client, demo_env) = (Some ?err, (c1, e1))"
    "he_spans e1 = [subprocess_span ''custom'' False, initialize_span True]"
    using leaking_start [of tool_client "(''url1'', ''t1'')" demo_env] by (auto simp: tool_client_flags l0 s0 c1_def)
  obtain e2 where s2: "Start leak_conn demo_ask 0 (c1, e1) = (Some ?err, (c2, e2))"
    "he_spans e2 = [subprocess_span ''custom'' False, initialize_span True, subprocess_span ''custom'' False,
       initialize_span True]"
    using leaking_start [of c1 "(''url2'', ''t2'')" e1] s1(2) by (auto simp: c1_def c2_def tool_client_flags)
  define c3 where "c3 = c2\<lparr>c_closed := True, c_sessions := [], c_subprocessSpan := None, c_listening := [(''url1'', ''t1'')]\<rparr>"
  have s3: "Close leak_conn (c2, e2) = Some (None, (c3, finish_span 2 e2))"
    by (simp add: Close_def c3_def c2_def c1_def tool_client_flags l0 shutdown_def leak_conn_def demo_conn_def
        close_subprocess_span_def)
  have "he_spans (finish_span 2 e2) = [subprocess_span ''custom'' False, initialize_span True,
      subprocess_span ''custom'' True, initialize_span True]"
    using s2(2) by (simp add: finish_span_def end_span_def subprocess_span_def)
  then have sp: "map sp_Ended (filter (\<lambda>s. sp_Name s = Namespace @ ''.subprocess'') (he_spans (finish_span 2 e2))) = [False, True]"
    by (simp add: subprocess_span_def initialize_span_def)
  have l: "c_listening c1 = [(''url1'', ''t1'')]" "c_listening c2 = [(''url1'', ''t1''), (''url2'', ''t2'')]"
    "c_listening c3 = [(''url1'', ''t1'')]" by (simp_all add: c1_def c2_def c3_def)
  show ?thesis by (intro exI conjI, rule s1(1), rule s2(1), rule s3, rule l, rule l, rule l, rule sp)
qed

section \<open>Tools and subprocess settings\<close>

lemma collision_None: "ensureNoUserToolCollision ts n f = None \<longleftrightarrow> n \<notin> tl_Name ` set ts"
  by (induction ts) auto

text \<open>
  The names of the tools the bridge serves are unambiguous: if the caller's tools have distinct
  names, then so do all the tools that are assembled, the ones the SDK adds itself included; a
  caller's tool with one of the reserved names makes \<open>Start\<close> fail when the feature is on.
\<close>

theorem bridge_tools_distinct:
  assumes "distinct (map tl_Name (o_sdkTools (c_opts c)))"
  shows "case fst (assembleBridgeTools ask c) of
      Inr defs \<Rightarrow> distinct (map td_Name defs) \<and>
        (o_onUserInput (c_opts c) \<longrightarrow> AskUserQuestionToolName \<in> td_Name ` set defs) \<and>
        (o_outputSchema (c_opts c) \<noteq> None \<longrightarrow> StructuredOutputToolName \<in> td_Name ` set defs)
    | Inl _ \<Rightarrow> (o_onUserInput (c_opts c) \<and> AskUserQuestionToolName \<in> tl_Name ` set (o_sdkTools (c_opts c))) \<or>
        (o_outputSchema (c_opts c) \<noteq> None \<and> StructuredOutputToolName \<in> tl_Name ` set (o_sdkTools (c_opts c)))"
proof -
  have n: "map td_Name (toolsToBridgeDefs ts) = map tl_Name ts" for ts :: "'a Tool list"
    by (simp add: toolsToBridgeDefs_def)
  have i: "td_Name ` set (toolsToBridgeDefs ts) = tl_Name ` set ts" for ts :: "'a Tool list"
    by (simp add: toolsToBridgeDefs_def image_image)
  have d: "AskUserQuestionToolName \<noteq> StructuredOutputToolName"
    by (simp add: AskUserQuestionToolName_def StructuredOutputToolName_def)
  have s: "td_Name (structuredOutputBridgeDef schema) = StructuredOutputToolName" for schema
    by (simp add: structuredOutputBridgeDef_def)
  define A where "A = ensureNoUserToolCollision (o_sdkTools (c_opts c)) AskUserQuestionToolName ''WithOnUserInput''"
  define B where "B = ensureNoUserToolCollision (o_sdkTools (c_opts c)) StructuredOutputToolName ''WithOutputSchema''"
  have none: "A = None \<longleftrightarrow> AskUserQuestionToolName \<notin> tl_Name ` set (o_sdkTools (c_opts c))"
    "B = None \<longleftrightarrow> StructuredOutputToolName \<notin> tl_Name ` set (o_sdkTools (c_opts c))"
    by (simp_all add: A_def B_def collision_None)
  note def' = assembleBridgeTools_def [of ask c, folded A_def B_def]
  show ?thesis
  proof (cases A)
    case None
    then show ?thesis
      using assms d none by (cases B; cases "o_outputSchema (c_opts c)") (auto simp: def' Let_def n i s)
  next
    case (Some x)
    then show ?thesis
      using assms d none by (cases B; cases "o_outputSchema (c_opts c)") (auto simp: def' Let_def n i s)
  qed
qed

theorem bridge_tools_distinct_witness:
  "\<exists>defs. fst (assembleBridgeTools demo_ask tool_client) = Inr defs \<and> distinct (map td_Name defs)"
  using bridge_tools_distinct [of tool_client demo_ask]
  by (auto simp: tool_client_def newClient_sel demo_options_def defaultOptions_def split: sum.splits)

lemma map_of_maps_copy: "map_of (maps_copy d s) k = (case map_of (rev s) k of None \<Rightarrow> map_of d k | Some v \<Rightarrow> Some v)"
  by (simp add: maps_copy_def am.get_fold_put)

text \<open>
  The subprocess environment: a caller's own XDG_DATA_HOME is never overridden; otherwise the
  configured opencode home is exported under that name; every other variable is the caller's.
\<close>

theorem subprocessEnv_respects_caller:
  assumes "o_env (c_opts c) = Some r" "distinct (map fst (hp_env (c_heap c) r))"
  shows "map_of (subprocessEnv c) k =
    (if k = ''XDG_DATA_HOME'' \<and> o_opencodeHome (c_opts c) \<noteq> [] \<and> map_of (hp_env (c_heap c) r) k = None
     then Some (o_opencodeHome (c_opts c)) else map_of (hp_env (c_heap c) r) k)"
proof -
  have "map_of (maps_copy [] (hp_env (c_heap c) r)) = map_of (hp_env (c_heap c) r)"
    using assms(2) by (auto simp: map_of_maps_copy fun_eq_iff map_of_rev_distinct split: option.splits)
  then show ?thesis using assms(1) by (auto simp: subprocessEnv_def am.get_put Let_def)
qed

theorem subprocessEnv_respects_caller_witness:
  "map_of (subprocessEnv (newClient (demo_options\<lparr>o_env := Some 0, o_opencodeHome := ''/oc''\<rparr>,
     demo_heap\<lparr>hp_env := (\<lambda>_. [(''A'', ''1'')])\<rparr>))) ''XDG_DATA_HOME'' = Some ''/oc''"
  by (subst subprocessEnv_respects_caller [of _ 0]) (simp_all add: newClient_def)

end
