(* ===== verification/SessionOps.thy ===== *)
theory SessionOps
  imports Lifecycle
begin

text \<open>
  The session calls of a client (\<open>client_impl.go\<close>, \<open>unstable.go\<close>, \<open>effort.go\<close>, \<open>auth.go\<close>,
  \<open>capabilities.go\<close>): creating, loading, forking and resuming a session, the checks before the
  request, the login that may be launched in between, the configuration applied afterwards and the
  roll-back when it fails.

  A result \<open>Inr p\<close> is the pointer of the session, \<open>Inl\<close> the error; the outer option is a panic.
  \<open>t0\<close>, \<open>t1\<close> are the clock readings of the notifications a registration flushes and \<open>ctxErr\<close> the
  state of the call's context when the request has failed.
\<close>

section \<open>Before the request\<close>

fun checkMCPCapabilities :: "AgentCapabilities \<Rightarrow> McpServer list \<Rightarrow> 'w henv \<Rightarrow> goerr option \<times> 'w henv" where
  "checkMCPCapabilities caps [] e = (None, e)"
| "checkMCPCapabilities caps (s # ss) e =
     (case (if ac_McpHttp caps then None else mcp_Http s) of
        Some h \<Rightarrow>
          (Some (errorf_w_s (ESent ErrCapabilityUnavailable)
             (''mcp server '' @ go_quote (mh_Name h) @ '' requires http transport'')),
           on_obs (RecordMCPCapabilityReject ''http'') e)
      | None \<Rightarrow>
          (case (if ac_McpSse caps then None else mcp_Sse s) of
             Some h \<Rightarrow>
               (Some (errorf_w_s (ESent ErrCapabilityUnavailable)
                  (''mcp server '' @ go_quote (mh_Name h) @ '' requires sse transport'')),
                on_obs (RecordMCPCapabilityReject ''sse'') e)
           | None \<Rightarrow> checkMCPCapabilities caps ss e))"

definition cwdOrEmpty :: "'w options \<Rightarrow> string" where
  "cwdOrEmpty o1 = o_cwd o1"

definition resolveAdditionalDirs :: "AgentCapabilities \<Rightarrow> 'w options \<Rightarrow> string list" where
  "resolveAdditionalDirs caps o1 =
     (if o_additionalDirectories o1 = [] then []
      else if \<not> ac_AdditionalDirectories caps then [] else o_additionalDirectories o1)"

definition sessionNewMeta :: "'w options \<Rightarrow> Meta" where
  "sessionNewMeta o1 =
     (case o_outputSchema o1 of None \<Rightarrow> None | Some schema \<Rightarrow> Some [(''structuredOutputSchema'', JObj schema)])"

section \<open>The login command\<close>

fun json_string_entries :: "(string \<times> json) list \<Rightarrow> (string \<times> string) list" where
  "json_string_entries [] = []"
| "json_string_entries ((k, JStr s) # m) = (k, s) # json_string_entries m"
| "json_string_entries (_ # m) = json_string_entries m"

definition TerminalAuthInstructions :: "AuthMethod \<Rightarrow> TerminalAuthLaunch option" where
  "TerminalAuthInstructions m =
     (case first_some [am_Agent m, am_Terminal m, am_EnvVar m] of
        None \<Rightarrow> None
      | Some meta \<Rightarrow>
          (case as_obj (meta_get meta ''terminal-auth'') of
             None \<Rightarrow> None
           | Some block \<Rightarrow>
               (let out = \<lparr>tal_Command = str_or (as_string (jget block ''command'')),
                     tal_Args = (case as_arr (jget block ''args'') of None \<Rightarrow> [] | Some v \<Rightarrow> json_strings v),
                     tal_Env = (case as_obj (jget block ''env'') of None \<Rightarrow> [] | Some v \<Rightarrow> json_string_entries v),
                     tal_Label = str_or (as_string (jget block ''label''))\<rparr>
                in if tal_Command out = [] then None else Some out)))"

definition firstTerminalAuthLaunch :: "'w client \<Rightarrow> TerminalAuthLaunch option" where
  "firstTerminalAuthLaunch c = first_some (map TerminalAuthInstructions (c_authMethods c))"

definition AuthMethods :: "'w client \<Rightarrow> AuthMethod list" where
  "AuthMethods c = c_authMethods c"

definition errNoLoginLaunch :: goerr where
  "errNoLoginLaunch = ENew ''opencodesdk: no terminal-auth launch instructions to execute''"

definition maybeRelaunchLoginAndRetry :: "'w conn \<Rightarrow> 'w options \<Rightarrow> goerr \<Rightarrow> 'w ce \<Rightarrow> goerr option \<times> 'w ce" where
  "maybeRelaunchLoginAndRetry cn merged rpcErr ce =
     (if \<not> o_autoLaunchLogin merged then (Some errNoLoginLaunch, ce)
      else if \<not> errors_is (wrapACPErr rpcErr) ErrAuthRequired then (Some errNoLoginLaunch, ce)
      else case firstTerminalAuthLaunch (fst ce) of
        None \<Rightarrow> (Some errNoLoginLaunch, ce)
      | Some launch \<Rightarrow>
          (case cn_runLogin cn launch ce of
             (None, ce') \<Rightarrow> (None, ce')
           | (Some err, ce') \<Rightarrow>
               (Some (EWrap (err_msg rpcErr @ '': terminal-auth command failed: '' @ err_msg err) [rpcErr, err]), ce')))"

text \<open>A request that is sent a second time when the login command has run.\<close>

definition request_with_login :: "'w conn \<Rightarrow> 'w options \<Rightarrow> ('w ce \<Rightarrow> (goerr + SessionResponse) \<times> 'w ce) \<Rightarrow>
    'w ce \<Rightarrow> (goerr + SessionResponse) \<times> 'w ce" where
  "request_with_login cn merged rpc ce =
     (case rpc ce of
        (Inr resp, ce1) \<Rightarrow> (Inr resp, ce1)
      | (Inl err, ce1) \<Rightarrow>
          (case maybeRelaunchLoginAndRetry cn merged err ce1 of
             (None, ce2) \<Rightarrow> rpc ce2
           | (Some _, ce2) \<Rightarrow> (Inl err, ce2)))"

section \<open>The effort of a session\<close>

fun effortPriority :: "Effort \<Rightarrow> string list" where
  "effortPriority EffortNone = [''none'']"
| "effortPriority EffortLow = [''low'']"
| "effortPriority EffortMedium = [''medium'', ''low'']"
| "effortPriority EffortHigh = [''high'', ''medium'']"
| "effortPriority EffortMax = [''max'', ''xhigh'', ''high'']"
| "effortPriority _ = []"

fun chooseVariant :: "string list \<Rightarrow> string list \<Rightarrow> string" where
  "chooseVariant available [] = []"
| "chooseVariant available (want # priority) =
     (if want \<in> set available then want else chooseVariant available priority)"

definition modelHasExplicitVariant :: "string \<Rightarrow> bool" where
  "modelHasExplicitVariant modelID \<longleftrightarrow> length (split_on (CHR 0x2F) modelID) \<ge> 3"

definition update_session :: "nat \<Rightarrow> ('w session \<Rightarrow> 'w session) \<Rightarrow> 'w ce \<Rightarrow> 'w ce" where
  "update_session p f ce = (case ce of (c, e) \<Rightarrow> (c\<lparr>c_store := (c_store c)(p := f (c_store c p))\<rparr>, e))"

definition UnstableSetModel :: "'w conn \<Rightarrow> string \<Rightarrow> string \<Rightarrow> 'w ce \<Rightarrow> goerr option \<times> 'w ce" where
  "UnstableSetModel cn sessionID modelID ce =
     (case ensureStarted (fst ce) of
        Some err \<Rightarrow> (Some err, ce)
      | None \<Rightarrow>
          (case cn_setModel cn sessionID modelID ce of
             (Inl err, ce1) \<Rightarrow> (Some (errorf_s_w ''session/set_model'' (wrapACPErr err)), ce1)
           | (Inr meta, ce1) \<Rightarrow>
               (None,
                case lookupSession sessionID (fst ce1) of
                  None \<Rightarrow> ce1
                | Some p \<Rightarrow>
                    (case OpencodeVariant meta of
                       None \<Rightarrow> ce1
                     | Some info \<Rightarrow>
                         update_session p (setResolvedVariant
                           (Some (if vi_ModelId info = [] then info\<lparr>vi_ModelId := modelID\<rparr> else info))) ce1))))"

definition resolveVariants :: "'w conn \<Rightarrow> string \<Rightarrow> string \<Rightarrow> 'w ce \<Rightarrow> (goerr + VariantInfo) \<times> 'w ce" where
  "resolveVariants cn sessionID baseModelID ce =
     (case ensureStarted (fst ce) of
        Some err \<Rightarrow> (Inl err, ce)
      | None \<Rightarrow>
          (case cn_setModel cn sessionID baseModelID ce of
             (Inl err, ce1) \<Rightarrow> (Inl (errorf_s_w ''session/set_model probe'' (wrapACPErr err)), ce1)
           | (Inr meta, ce1) \<Rightarrow>
               (Inr (case OpencodeVariant meta of
                  None \<Rightarrow> \<lparr>vi_ModelId = baseModelID, vi_Variant = [], vi_AvailableVariants = []\<rparr>
                | Some info \<Rightarrow> if vi_ModelId info = [] then info\<lparr>vi_ModelId := baseModelID\<rparr> else info), ce1)))"

text \<open>What \<open>applyEffortOnSession\<close> does once the variants are known.\<close>

definition apply_variants :: "'w conn \<Rightarrow> nat \<Rightarrow> string list \<Rightarrow> VariantInfo \<Rightarrow> 'w ce \<Rightarrow> goerr option \<times> 'w ce" where
  "apply_variants cn p priority info ce =
     (let ce1 = update_session p (setResolvedVariant (Some info)) ce
      in if vi_AvailableVariants info = [] then (None, ce1)
         else
           (let chosen = chooseVariant (vi_AvailableVariants info) priority;
                target = vi_ModelId info @ ''/'' @ chosen
            in if chosen = [] then (None, ce1)
               else if chosen = vi_Variant info
               then (None, update_session p (\<lambda>s. s\<lparr>s_currentModel := target\<rparr>) ce1)
               else case UnstableSetModel cn (s_id (c_store (fst ce1) p)) target ce1 of
                 (Some err, ce2) \<Rightarrow> (Some err, ce2)
               | (None, ce2) \<Rightarrow>
                   (None, update_session p (\<lambda>s. setResolvedVariant (Some (info\<lparr>vi_Variant := chosen\<rparr>))
                      (s\<lparr>s_currentModel := target\<rparr>)) ce2)))"

definition applyEffortOnSession :: "'w conn \<Rightarrow> nat \<Rightarrow> Effort \<Rightarrow> string \<Rightarrow> 'w ce \<Rightarrow> goerr option \<times> 'w ce" where
  "applyEffortOnSession cn p level modelID ce =
     (if effortPriority level = [] then (None, ce)
      else if modelHasExplicitVariant modelID then (None, ce)
      else case resolveVariants cn (s_id (c_store (fst ce) p)) modelID ce of
        (Inl err, ce1) \<Rightarrow> (Some err, ce1)
      | (Inr info, ce1) \<Rightarrow> apply_variants cn p (effortPriority level) info ce1)"

section \<open>Configuring a session\<close>

text \<open>Steps that stop at the first error.\<close>

definition then_do :: "goerr option \<times> 'w ce \<Rightarrow> ('w ce \<Rightarrow> goerr option \<times> 'w ce) \<Rightarrow> goerr option \<times> 'w ce" where
  "then_do r f = (case r of (Some err, ce) \<Rightarrow> (Some err, ce) | (None, ce) \<Rightarrow> f ce)"

definition wrap_error :: "string \<Rightarrow> goerr option \<times> 'w ce \<Rightarrow> goerr option \<times> 'w ce" where
  "wrap_error msg r = (case r of (e, ce) \<Rightarrow> (map_option (errorf_s_w msg) e, ce))"

definition apply_model :: "'w conn \<Rightarrow> nat \<Rightarrow> 'w options \<Rightarrow> 'w ce \<Rightarrow> goerr option \<times> 'w ce" where
  "apply_model cn p o1 ce =
     (if o_model o1 = [] then (None, ce)
      else wrap_error (''applying WithModel('' @ go_quote (o_model o1) @ '')'')
        (with_session p (SetModel (cfg_of cn (fst ce)) (o_model o1)) ce))"

definition apply_agent :: "'w conn \<Rightarrow> nat \<Rightarrow> 'w options \<Rightarrow> 'w ce \<Rightarrow> goerr option \<times> 'w ce" where
  "apply_agent cn p o1 ce =
     (if o_agent o1 = [] then (None, ce)
      else wrap_error (''applying WithAgent('' @ go_quote (o_agent o1) @ '')'')
        (with_session p (SetMode (cfg_of cn (fst ce)) (o_agent o1)) ce))"

definition apply_effort :: "'w conn \<Rightarrow> nat \<Rightarrow> 'w options \<Rightarrow> 'w ce \<Rightarrow> goerr option \<times> 'w ce" where
  "apply_effort cn p o1 ce =
     (if effort_text (o_effort o1) = [] then (None, ce)
      else
        (let modelID = (if o_model o1 = [] then s_currentModel (c_store (fst ce) p) else o_model o1)
         in if modelID = [] then (None, ce)
            else wrap_error (''applying WithEffort('' @ go_quote (effort_text (o_effort o1)) @ '')'')
              (applyEffortOnSession cn p (o_effort o1) modelID ce)))"

definition apply_max_turns :: "'w conn \<Rightarrow> nat \<Rightarrow> 'w options \<Rightarrow> 'w ce \<Rightarrow> 'w ce" where
  "apply_max_turns cn p o1 ce =
     (if o_maxTurns o1 > 0
      then (case cn_turnCell cn p of
              (getc, putc) \<Rightarrow> update_session p (attachMaxTurns getc putc (o_maxTurns o1)) ce)
      else ce)"

definition applySessionConfig :: "'w conn \<Rightarrow> nat \<Rightarrow> 'w options \<Rightarrow> 'w ce \<Rightarrow> goerr option \<times> 'w ce" where
  "applySessionConfig cn p o1 ce =
     then_do (then_do (then_do (apply_model cn p o1 ce) (apply_agent cn p o1)) (apply_effort cn p o1))
       (\<lambda>ce'. (None, apply_max_turns cn p o1 ce'))"

definition budget_handler :: "(BudgetTracker, 'w) cell \<Rightarrow> bool \<Rightarrow> string \<Rightarrow> UsageUpdate \<Rightarrow> 'w \<Rightarrow> bool \<times> 'w" where
  "budget_handler bt autoCancel sessionID upd w =
     (case bt of (getb, putb) \<Rightarrow>
       (let t = budget_observe (ObsUpdate sessionID upd) (getb w); w' = putb t w
        in if \<not> autoCancel then (False, w')
           else if CheckBudget (Some (getb w')) = None then (False, w')
           else (True, w')))"

definition attachBudgetTracker :: "nat \<Rightarrow> 'w ce \<Rightarrow> 'w ce" where
  "attachBudgetTracker p ce =
     (case o_budgetTracker (c_opts (fst ce)) of
        None \<Rightarrow> ce
      | Some bt \<Rightarrow>
          update_session p (\<lambda>s. snd (Subscribe (no_handlers\<lparr>uh_Usage :=
            Some (budget_handler bt (o_autoCancelOnBudget (c_opts (fst ce))) (s_id s))\<rparr>) s)) ce)"

section \<open>The four calls\<close>

text \<open>What all four do before the request: the guard, the merge and the capability check.\<close>

definition begin_call :: "'w conn \<Rightarrow> 'w opt list \<Rightarrow> 'w ce \<Rightarrow> (goerr + 'w options) \<times> 'w ce" where
  "begin_call cn opts ce =
     (case ce of (c, e) \<Rightarrow>
       (case ensureStarted c of
          Some err \<Rightarrow> (Inl err, ce)
        | None \<Rightarrow>
            (case mergeOptions (c_bridge c) (cn_tui cn) opts (c_opts c, c_heap c) of
               (merged, h) \<Rightarrow>
                 (case checkMCPCapabilities (c_caps c) (o_mcpServers merged) e of
                    (Some err, e') \<Rightarrow> (Inl err, (c\<lparr>c_heap := h\<rparr>, e'))
                  | (None, e') \<Rightarrow> (Inr merged, (c\<lparr>c_heap := h\<rparr>, e'))))))"

definition session_request :: "string \<Rightarrow> 'w client \<Rightarrow> 'w options \<Rightarrow> Meta \<Rightarrow> SessionRequest" where
  "session_request sid c merged meta =
     \<lparr>rq_SessionId = sid, rq_Cwd = cwdOrEmpty merged, rq_McpServers = o_mcpServers merged,
      rq_AdditionalDirectories = resolveAdditionalDirs (c_caps c) merged, rq_Meta = meta\<rparr>"

text \<open>And what they do once the session exists: configure it or take it down again.\<close>

definition finish_call :: "'w conn \<Rightarrow> nat \<Rightarrow> 'w options \<Rightarrow> 'w ce \<Rightarrow> ((goerr + nat) \<times> 'w ce) option" where
  "finish_call cn p merged ce =
     (case applySessionConfig cn p merged ce of
        (Some err, ce1) \<Rightarrow> map_option (Pair (Inl err)) (teardownSession p ce1)
      | (None, ce1) \<Rightarrow>
          Some (Inr p, fireHookSessionStart (s_id (c_store (fst ce1) p)) (attachBudgetTracker p ce1)))"

definition NewSession :: "'w conn \<Rightarrow> rat \<Rightarrow> rat \<Rightarrow> goerr option \<Rightarrow> 'w opt list \<Rightarrow> 'w ce \<Rightarrow>
    ((goerr + nat) \<times> 'w ce) option" where
  "NewSession cn t0 t1 ctxErr opts ce =
     (case begin_call cn opts ce of
        (Inl err, ce1) \<Rightarrow> Some (Inl err, ce1)
      | (Inr merged, ce1) \<Rightarrow>
          (case request_with_login cn merged
                  (cn_newSession cn (session_request [] (fst ce1) merged (sessionNewMeta merged))) ce1 of
             (Inl err, ce2) \<Rightarrow> Some (Inl (wrapACPErrCtx ctxErr err), ce2)
           | (Inr resp, ce2) \<Rightarrow>
               Option.bind
                 (newSession cn t0 t1 (rs_SessionId resp) (rs_Models resp) (rs_Modes resp)
                    (rs_ConfigOptions resp) (rs_Meta resp) (o_updatesBuffer merged) ce2)
                 (\<lambda>(p, ce3). finish_call cn p merged ce3)))"

definition LoadSession :: "'w conn \<Rightarrow> rat \<Rightarrow> rat \<Rightarrow> goerr option \<Rightarrow> string \<Rightarrow> 'w opt list \<Rightarrow> 'w ce \<Rightarrow>
    ((goerr + nat) \<times> 'w ce) option" where
  "LoadSession cn t0 t1 ctxErr sid opts ce =
     (case begin_call cn opts ce of
        (Inl err, ce1) \<Rightarrow> Some (Inl err, ce1)
      | (Inr merged, ce1) \<Rightarrow>
          Option.bind (newSession cn t0 t1 sid None None JNull None (o_updatesBuffer merged) ce1)
            (\<lambda>(p, ce2).
               case request_with_login cn merged
                      (cn_loadSession cn (session_request sid (fst ce1) merged (sessionNewMeta merged))) ce2 of
                 (Inl err, ce3) \<Rightarrow>
                   map_option (Pair (Inl (wrapACPErrCtx ctxErr err))) (teardownSession p ce3)
               | (Inr resp, ce3) \<Rightarrow>
                   finish_call cn p merged (update_session p (\<lambda>s. s\<lparr>s_initialModels := rs_Models resp,
                     s_initialModes := rs_Modes resp, s_initialOptions := rs_ConfigOptions resp,
                     s_meta := rs_Meta resp\<rparr>) ce3)))"

definition ForkSession :: "'w conn \<Rightarrow> rat \<Rightarrow> rat \<Rightarrow> string \<Rightarrow> 'w opt list \<Rightarrow> 'w ce \<Rightarrow>
    ((goerr + nat) \<times> 'w ce) option" where
  "ForkSession cn t0 t1 parentID opts ce =
     (case begin_call cn opts ce of
        (Inl err, ce1) \<Rightarrow> Some (Inl err, ce1)
      | (Inr merged, ce1) \<Rightarrow>
          (case cn_forkSession cn (session_request parentID (fst ce1) merged None) ce1 of
             (Inl err, ce2) \<Rightarrow> Some (Inl (wrapACPErr err), ce2)
           | (Inr resp, ce2) \<Rightarrow>
               Option.bind
                 (newSession cn t0 t1 (rs_SessionId resp) None (rs_Modes resp) JNull (rs_Meta resp)
                    (o_updatesBuffer merged) ce2)
                 (\<lambda>(p, ce3). finish_call cn p merged ce3)))"

definition ResumeSession :: "'w conn \<Rightarrow> rat \<Rightarrow> rat \<Rightarrow> string \<Rightarrow> 'w opt list \<Rightarrow> 'w ce \<Rightarrow>
    ((goerr + nat) \<times> 'w ce) option" where
  "ResumeSession cn t0 t1 sid opts ce =
     (case begin_call cn opts ce of
        (Inl err, ce1) \<Rightarrow> Some (Inl err, ce1)
      | (Inr merged, ce1) \<Rightarrow>
          Option.bind (newSession cn t0 t1 sid None None JNull None (o_updatesBuffer merged) ce1)
            (\<lambda>(p, ce2).
               case cn_resumeSession cn (session_request sid (fst ce1) merged None) ce2 of
                 (Inl err, ce3) \<Rightarrow> map_option (Pair (Inl (wrapACPErr err))) (teardownSession p ce3)
               | (Inr resp, ce3) \<Rightarrow>
                   finish_call cn p merged (update_session p
                     (\<lambda>s. s\<lparr>s_initialModes := rs_Modes resp, s_meta := rs_Meta resp\<rparr>) ce3)))"

section \<open>What a call leaves alone\<close>

text \<open>
  A step settles a client when it keeps the registry sound and touches neither the table of
  sessions nor the identity and life of any session. Requests are assumed to: while they run,
  notifications are routed and subscribers run, nothing else.
\<close>

definition settles :: "'w client \<Rightarrow> 'w client \<Rightarrow> bool" where
  "settles c c' \<longleftrightarrow> (reg_inv c \<longrightarrow> reg_inv c') \<and> c_sessions c' = c_sessions c \<and> c_nextPtr c' = c_nextPtr c \<and>
     c_closed c' = c_closed c \<and>
     (\<forall>p. s_id (c_store c' p) = s_id (c_store c p) \<and> s_closed (c_store c' p) = s_closed (c_store c p))"

lemma settles_refl [simp, intro]: "settles c c"
  by (simp add: settles_def)

lemma settles_trans [trans]: "settles c c1 \<Longrightarrow> settles c1 c2 \<Longrightarrow> settles c c2"
  by (simp add: settles_def)

definition settling :: "('w ce \<Rightarrow> 'r \<times> 'w ce) \<Rightarrow> bool" where
  "settling f \<longleftrightarrow> (\<forall>ce. settles (fst ce) (fst (snd (f ce))))"

lemma settlingD: "settling f \<Longrightarrow> f ce = (r, ce') \<Longrightarrow> settles (fst ce) (fst ce')"
  unfolding settling_def by (metis snd_conv)

definition settling_conn :: "'w conn \<Rightarrow> bool" where
  "settling_conn cn \<longleftrightarrow> (\<forall>r. settling (cn_newSession cn r)) \<and> (\<forall>r. settling (cn_loadSession cn r)) \<and>
     (\<forall>r. settling (cn_forkSession cn r)) \<and> (\<forall>r. settling (cn_resumeSession cn r)) \<and>
     (\<forall>i m. settling (cn_setModel cn i m)) \<and> (\<forall>l. settling (cn_runLogin cn l))"

lemma settling_connD:
  assumes "settling_conn cn"
  shows "settling (cn_newSession cn r)" "settling (cn_loadSession cn r)" "settling (cn_forkSession cn r)"
    "settling (cn_resumeSession cn r)" "settling (cn_setModel cn i m)" "settling (cn_runLogin cn l)"
  using assms by (simp_all add: settling_conn_def)

text \<open>Routing a notification settles, so a request during which notifications arrive does.\<close>

lemma deliver_identity:
  assumes "sess_ok s" "deliver cfg t0 t1 n (s, e) = Some (s', e')"
  shows "s_id s' = s_id s \<and> s_closed s' = s_closed s"
proof -
  from deliver_ok [OF assms(1), of cfg t0 t1 n e] assms(2) show ?thesis by (auto simp: ident_def)
qed

text \<open>None of these steps opens or closes the client.\<close>

lemma deliver_to_closed: "deliver_to cn t0 t1 p n ce = Some ce' \<Longrightarrow> c_closed (fst ce') = c_closed (fst ce)"
  by (auto simp: deliver_to_def split: prod.splits)

lemma deliver_all_closed: "deliver_all cn t0 t1 p ns ce = Some ce' \<Longrightarrow> c_closed (fst ce') = c_closed (fst ce)"
  by (induction ns arbitrary: ce) (auto simp: bind_eq_Some_conv dest: deliver_to_closed)

lemma newSession_closed:
  "newSession cn t0 t1 sid mo md op me b ce = Some (p, ce') \<Longrightarrow> c_closed (fst ce') = c_closed (fst ce)"
  by (auto simp: newSession_def registerSession_def register_attach_def Let_def dest!: deliver_all_closed split: prod.splits)

lemma route_closed: "routeSessionUpdate cn t0 t1 n ce = Some ce' \<Longrightarrow> c_closed (fst ce') = c_closed (fst ce)"
  by (auto simp: routeSessionUpdate_def route_lookup_def Let_def dest!: deliver_to_closed split: prod.splits option.splits if_splits)

lemma teardown_closed: "teardownSession p ce = Some ce' \<Longrightarrow> c_closed (fst ce') = c_closed (fst ce)"
  by (auto simp: teardownSession_def deregisterSession_def close_ptr_def Let_def fireHookSessionEnd_def split: prod.splits)

lemma route_settles:
  assumes "reg_inv c" "routeSessionUpdate cn t0 t1 n (c, e) = Some (c', e')"
  shows "settles c c'"
proof -
  obtain r c1 where l: "route_lookup n c = (r, c1)" by (metis prod.exhaust)
  then have s1: "c_store c1 = c_store c" by (auto simp: route_lookup_def Let_def split: option.splits if_splits)
  have i: "s_id (c_store c' p) = s_id (c_store c p) \<and> s_closed (c_store c' p) = s_closed (c_store c p)" for p
  proof (cases r)
    case None
    with l assms(2) s1 show ?thesis by (simp add: routeSessionUpdate_def Let_def)
  next
    case (Some q)
    with l assms(2) obtain s' e1 e2 where d: "deliver (cfg_of cn c1) t0 t1 n (c_store c1 q, e1) = Some (s', e2)"
      "c' = c1\<lparr>c_store := (c_store c1)(q := s')\<rparr>" by (auto simp: routeSessionUpdate_def Let_def deliver_to_def)
    have "sess_ok (c_store c1 q)" using assms(1) s1 by (simp add: reg_inv_def)
    with d s1 show ?thesis by (auto dest: deliver_identity)
  qed
  from route_ok [OF assms(1), of cn t0 t1 n e] route_closed [OF assms(2)] assms(2) i show ?thesis
    by (auto simp: settles_def)
qed

section \<open>Configuring settles\<close>

lemma reg_inv_store:
  assumes "reg_inv c" "sess_ok s'" "s_id s' = s_id (c_store c p)"
  shows "reg_inv (c\<lparr>c_store := (c_store c)(p := s')\<rparr>)"
  using assms by (auto simp: reg_inv_def)

lemma update_session_settles:
  assumes "\<And>s. s_updates (f s) = s_updates s"
    "\<And>s. s_closed (f s) = s_closed s" "\<And>s. s_id (f s) = s_id s"
  shows "settles (fst ce) (fst (update_session p f ce))"
  using assms
  by (cases ce) (auto simp: settles_def update_session_def intro!: reg_inv_store simp: reg_inv_def sess_ok_def)

lemma with_session_settles:
  assumes "\<And>s e. s_updates (fst (snd (f (s, e)))) = s_updates s \<and>
      s_closed (fst (snd (f (s, e)))) = s_closed s \<and> s_id (fst (snd (f (s, e)))) = s_id s"
  shows "settles (fst ce) (fst (snd (with_session p f ce)))"
proof (cases ce)
  case (Pair c e)
  obtain r s' e' where "f (c_store c p, e) = (r, (s', e'))" by (metis prod.exhaust)
  with assms [of "c_store c p" e] Pair show ?thesis
    by (auto simp: settles_def with_session_def reg_inv_def sess_ok_def)
qed

lemma set_calls_keep:
  "s_updates (fst (snd (SetModel cfg m (s, e)))) = s_updates s \<and>
   s_closed (fst (snd (SetModel cfg m (s, e)))) = s_closed s \<and> s_id (fst (snd (SetModel cfg m (s, e)))) = s_id s"
  "s_updates (fst (snd (SetMode cfg m (s, e)))) = s_updates s \<and>
   s_closed (fst (snd (SetMode cfg m (s, e)))) = s_closed s \<and> s_id (fst (snd (SetMode cfg m (s, e)))) = s_id s"
  by (auto simp: SetModel_def SetMode_def setConfigOption_def split: prod.splits option.splits)

lemma wrap_error_snd [simp]: "snd (wrap_error m r) = snd r"
  by (cases r) (simp add: wrap_error_def)

lemma wrap_error_None [simp]: "fst (wrap_error m r) = None \<longleftrightarrow> fst r = None"
  by (cases r) (simp add: wrap_error_def)

lemma setVariant_keeps [simp]:
  "s_updates (setResolvedVariant v s) = s_updates s" "s_closed (setResolvedVariant v s) = s_closed s"
  "s_id (setResolvedVariant v s) = s_id s" "s_currentModel (setResolvedVariant v s) = s_currentModel s"
  by (simp_all add: setResolvedVariant_def split: option.splits)

lemma setModel_settles:
  assumes "settling_conn cn" "UnstableSetModel cn i m ce = (r, ce')"
  shows "settles (fst ce) (fst ce')"
proof (cases "ensureStarted (fst ce)")
  case None
  obtain r1 ce1 where rp: "cn_setModel cn i m ce = (r1, ce1)" by (metis prod.exhaust)
  then have s: "settles (fst ce) (fst ce1)" by (rule settlingD [OF settling_connD(5) [OF assms(1)]])
  have u: "settles (fst ce1) (fst (update_session p (setResolvedVariant v) ce1))" for p v
    by (rule update_session_settles) simp_all
  show ?thesis
    using assms(2) rp None s settles_trans [OF s u]
    by (cases r1) (auto simp: UnstableSetModel_def split: option.splits)
qed (use assms(2) in \<open>simp add: UnstableSetModel_def\<close>)

lemma resolve_settles:
  assumes "settling_conn cn" "resolveVariants cn i m ce = (r, ce')"
  shows "settles (fst ce) (fst ce')"
proof (cases "ensureStarted (fst ce)")
  case None
  obtain r1 ce1 where rp: "cn_setModel cn i m ce = (r1, ce1)" by (metis prod.exhaust)
  then have "settles (fst ce) (fst ce1)" by (rule settlingD [OF settling_connD(5) [OF assms(1)]])
  with None rp assms(2) show ?thesis by (cases r1) (auto simp: resolveVariants_def)
qed (use assms(2) in \<open>simp add: resolveVariants_def\<close>)

lemma apply_variants_settles:
  assumes "settling_conn cn" "apply_variants cn p prio info ce = (r, ce')"
  shows "settles (fst ce) (fst ce')"
proof -
  define ce1 where "ce1 = update_session p (setResolvedVariant (Some info)) ce"
  have s1: "settles (fst ce) (fst ce1)" unfolding ce1_def by (rule update_session_settles) simp_all
  have u: "settles (fst x) (fst (update_session p (\<lambda>s. s\<lparr>s_currentModel := t\<rparr>) x))" for x t
    by (rule update_session_settles) simp_all
  have v: "settles (fst x) (fst (update_session p (\<lambda>s. setResolvedVariant w (s\<lparr>s_currentModel := t\<rparr>)) x))" for x t w
    by (rule update_session_settles) simp_all
  define i where "i = s_id (c_store (fst ce1) p)"
  define t where "t = vi_ModelId info @ ''/'' @ chooseVariant (vi_AvailableVariants info) prio"
  obtain r2 ce2 where m: "UnstableSetModel cn i t ce1 = (r2, ce2)" by (metis prod.exhaust)
  note s2 = settles_trans [OF s1 setModel_settles [OF assms(1) m]]
  show ?thesis
    using assms(2) s1 s2 settles_trans [OF s1 u] settles_trans [OF s2 v] m
    unfolding apply_variants_def ce1_def [symmetric] Let_def i_def [symmetric] t_def [symmetric]
    by (cases r2) (auto split: if_splits)
qed

lemma effort_settles:
  assumes "settling_conn cn" "applyEffortOnSession cn p l m ce = (r, ce')"
  shows "settles (fst ce) (fst ce')"
proof -
  obtain r1 ce1 where v: "resolveVariants cn (s_id (c_store (fst ce) p)) m ce = (r1, ce1)" by (metis prod.exhaust)
  note s1 = resolve_settles [OF assms(1) v]
  show ?thesis
  proof (cases "effortPriority l = [] \<or> modelHasExplicitVariant m")
    case False
    show ?thesis
    proof (cases r1)
      case (Inr info)
      with False v assms(2) have "apply_variants cn p (effortPriority l) info ce1 = (r, ce')"
        by (simp add: applyEffortOnSession_def)
      with s1 show ?thesis using apply_variants_settles [OF assms(1)] settles_trans by blast
    qed (use False v assms(2) s1 in \<open>simp add: applyEffortOnSession_def\<close>)
  qed (use assms(2) in \<open>auto simp: applyEffortOnSession_def split: if_splits\<close>)
qed

lemma then_do_settles:
  assumes "settles c (fst (snd x))" "\<And>ce. settles (fst ce) (fst (snd (f ce)))"
  shows "settles c (fst (snd (then_do x f)))"
proof -
  obtain r ce where x: "x = (r, ce)" by (cases x)
  show ?thesis
  proof (cases r)
    case None
    then show ?thesis using x settles_trans [OF assms(1), of "fst (snd (f ce))"] assms(2) [of ce] by (simp add: then_do_def)
  qed (use assms(1) x in \<open>simp add: then_do_def\<close>)
qed

lemma attachMaxTurns_keeps:
  "s_updates (attachMaxTurns g h n s) = s_updates s \<and> s_closed (attachMaxTurns g h n s) = s_closed s \<and>
   s_id (attachMaxTurns g h n s) = s_id s"
  by (simp add: attachMaxTurns_def Subscribe_def Let_def)

lemma config_settles:
  assumes "settling_conn cn"
  shows "settles (fst ce) (fst (snd (applySessionConfig cn p o1 ce)))"
proof -
  have m: "settles (fst ce) (fst (snd (apply_model cn p o1 ce)))" for ce
    using with_session_settles [where f = "SetModel (cfg_of cn (fst ce)) (o_model o1)", OF set_calls_keep(1)]
    by (simp add: apply_model_def)
  have a: "settles (fst ce) (fst (snd (apply_agent cn p o1 ce)))" for ce
    using with_session_settles [where f = "SetMode (cfg_of cn (fst ce)) (o_agent o1)", OF set_calls_keep(2)]
    by (simp add: apply_agent_def)
  have e: "settles (fst ce) (fst (snd (apply_effort cn p o1 ce)))" for ce
    using effort_settles [OF assms surjective_pairing] by (simp add: apply_effort_def Let_def)
  have t: "settles (fst ce) (fst (apply_max_turns cn p o1 ce))" for ce
    by (auto simp: apply_max_turns_def attachMaxTurns_keeps split: prod.splits intro!: update_session_settles)
  show ?thesis
    unfolding applySessionConfig_def
    by (intro then_do_settles m a e) (simp add: t)
qed

lemma attach_settles: "settles (fst ce) (fst (attachBudgetTracker p ce))"
  by (auto simp: attachBudgetTracker_def Subscribe_def Let_def split: option.splits intro!: update_session_settles)

lemma login_settles:
  assumes "settling_conn cn" "maybeRelaunchLoginAndRetry cn o1 err ce = (r, ce')"
  shows "settles (fst ce) (fst ce')"
  using assms(2) settlingD [OF settling_connD(6) [OF assms(1)]]
  by (auto simp: maybeRelaunchLoginAndRetry_def split: if_splits option.splits prod.splits)

lemma request_settles:
  assumes "settling_conn cn" "settling rpc" "request_with_login cn o1 rpc ce = (r, ce')"
  shows "settles (fst ce) (fst ce')"
proof -
  obtain r1 ce1 where c1: "rpc ce = (r1, ce1)" by (metis prod.exhaust)
  note s1 = settlingD [OF assms(2) c1]
  show ?thesis
  proof (cases r1)
    case (Inl err)
    obtain r2 ce2 where c2: "maybeRelaunchLoginAndRetry cn o1 err ce1 = (r2, ce2)" by (metis prod.exhaust)
    note s2 = settles_trans [OF s1 login_settles [OF assms(1) c2]]
    show ?thesis
      using assms(3) c1 c2 Inl s2 settles_trans [OF s2 settlingD [OF assms(2)]]
      by (cases r2) (auto simp: request_with_login_def)
  qed (use assms(3) c1 s1 in \<open>simp add: request_with_login_def\<close>)
qed

lemma begin_settles:
  assumes "begin_call cn opts ce = (r, ce')"
  shows "settles (fst ce) (fst ce')"
proof -
  obtain c e where ce: "ce = (c, e)" by (cases ce)
  obtain o1 h where m: "mergeOptions (c_bridge c) (cn_tui cn) opts (c_opts c, c_heap c) = (o1, h)" by (metis prod.exhaust)
  obtain k e' where k: "checkMCPCapabilities (c_caps c) (o_mcpServers o1) e = (k, e')" by (metis prod.exhaust)
  show ?thesis
    using assms ce m k
    by (cases "ensureStarted c"; cases k) (auto simp: begin_call_def settles_def reg_inv_def)
qed

text \<open>The end of a call, on a session that is registered and open.\<close>

definition live :: "nat \<Rightarrow> 'w client \<Rightarrow> bool" where
  "live p c \<longleftrightarrow> lookupSession (s_id (c_store c p)) c = Some p \<and> \<not> s_closed (c_store c p)"

definition gone :: "nat \<Rightarrow> 'w client \<Rightarrow> bool" where
  "gone p c \<longleftrightarrow> lookupSession (s_id (c_store c p)) c = None \<and> s_closed (c_store c p)"

lemma settles_live: "settles c c' \<Longrightarrow> live p c' = live p c"
  by (simp add: settles_def live_def lookupSession_def)

lemma teardown_gone:
  assumes "reg_inv c"
  shows "\<exists>c' e'. teardownSession p (c, e) = Some (c', e') \<and> reg_inv c' \<and> gone p c' \<and>
    s_id (c_store c' p) = s_id (c_store c p) \<and>
    map_of (c_sessions c') = (map_of (c_sessions c))(s_id (c_store c p) := None) \<and>
    c_nextPtr c' = c_nextPtr c \<and> (\<forall>q. q \<noteq> p \<longrightarrow> c_store c' q = c_store c q)"
proof -
  from teardown_ok [OF assms, of p e] obtain c' e' where t: "teardownSession p (c, e) = Some (c', e')"
    "reg_inv c'" "s_closed (c_store c' p)" "c_sessions c' = amap_del (s_id (c_store c p)) (c_sessions c)"
    "\<forall>q. q \<noteq> p \<longrightarrow> c_store c' q = c_store c q" by blast
  moreover have "s_id (c_store c' p) = s_id (c_store c p)" "c_nextPtr c' = c_nextPtr c"
    using t(1) by (auto simp: teardownSession_def deregisterSession_def close_ptr_def close_session_def Let_def
        fireHookSessionEnd_def fireHookSession_def split: if_splits option.splits)
  ultimately show ?thesis by (auto simp: gone_def lookupSession_def am.get_del)
qed

lemma finish_ok:
  assumes "settling_conn cn" "reg_inv c" "live p c"
  shows "\<exists>r c' e'. finish_call cn p o1 (c, e) = Some (r, (c', e')) \<and> reg_inv c' \<and>
    s_id (c_store c' p) = s_id (c_store c p) \<and> c_nextPtr c' = c_nextPtr c \<and>
    (case r of Inr q \<Rightarrow> q = p \<and> live p c' \<and> c_sessions c' = c_sessions c
     | Inl _ \<Rightarrow> gone p c' \<and> map_of (c_sessions c') = (map_of (c_sessions c))(s_id (c_store c p) := None))"
proof -
  obtain r c1 e1 where a: "applySessionConfig cn p o1 (c, e) = (r, (c1, e1))" by (metis prod.exhaust)
  have s1: "settles c c1" using config_settles [OF assms(1), of "(c, e)" p o1] a by simp
  have i1: "reg_inv c1" using s1 assms(2) by (simp add: settles_def)
  show ?thesis
  proof (cases r)
    case None
    have s2: "settles c (fst (attachBudgetTracker p (c1, e1)))"
      using settles_trans [OF s1] attach_settles [of "(c1, e1)" p] by simp
    define ce where "ce = fireHookSessionStart (s_id (c_store c1 p)) (attachBudgetTracker p (c1, e1))"
    have f: "fst ce = fst (attachBudgetTracker p (c1, e1))"
      by (simp add: ce_def fireHookSessionStart_def)
    have "finish_call cn p o1 (c, e) = Some (Inr p, (fst ce, snd ce))"
      using a None by (simp add: finish_call_def ce_def)
    with s2 f assms show ?thesis by (auto simp: settles_def settles_live live_def lookupSession_def)
  next
    case (Some err)
    from teardown_gone [OF i1, of p e1] a Some s1 show ?thesis
      by (fastforce simp: finish_call_def settles_def)
  qed
qed

lemma finish_closed:
  assumes "settling_conn cn" "finish_call cn p o1 ce = Some (r, ce')"
  shows "c_closed (fst ce') = c_closed (fst ce)"
proof -
  obtain x ce1 where a: "applySessionConfig cn p o1 ce = (x, ce1)" by (metis prod.exhaust)
  have s1: "c_closed (fst ce1) = c_closed (fst ce)" using config_settles [OF assms(1), of ce p o1] a by (simp add: settles_def)
  have s2: "c_closed (fst (attachBudgetTracker p ce1)) = c_closed (fst ce)"
    using s1 attach_settles [of ce1 p] by (simp add: settles_def)
  show ?thesis
    using a assms(2) s1 s2 by (cases x) (auto simp: finish_call_def fireHookSessionStart_def dest: teardown_closed)
qed

lemma finish_keeps_old:
  assumes "settling_conn cn" "reg_inv c" "finish_call cn p o1 (c, e) = Some (r, (c', e'))" "q \<noteq> p"
  shows "s_id (c_store c' q) = s_id (c_store c q) \<and> s_closed (c_store c' q) = s_closed (c_store c q)"
proof -
  obtain x c1 e1 where a: "applySessionConfig cn p o1 (c, e) = (x, (c1, e1))" by (metis prod.exhaust)
  have s1: "settles c c1" using config_settles [OF assms(1), of "(c, e)" p o1] a by simp
  have i1: "reg_inv c1" using s1 assms(2) by (simp add: settles_def)
  show ?thesis
  proof (cases x)
    case None
    have "settles c (fst (attachBudgetTracker p (c1, e1)))"
      using settles_trans [OF s1] attach_settles [of "(c1, e1)" p] by simp
    moreover have "(c', e') = fireHookSessionStart (s_id (c_store c1 p)) (attachBudgetTracker p (c1, e1))"
      using a None assms(3) by (simp add: finish_call_def)
    then have "c' = fst (attachBudgetTracker p (c1, e1))"
      by (metis fireHookSessionStart_def fireHookSession_fst fst_conv)
    ultimately show ?thesis by (simp add: settles_def)
  next
    case (Some err)
    with a assms(3) have t: "teardownSession p (c1, e1) = Some (c', e')" by (auto simp: finish_call_def)
    from teardown_gone [OF i1, of p e1] t assms(4) s1 show ?thesis by (auto simp: settles_def)
  qed
qed

section \<open>All or nothing\<close>

datatype session_call = CallNew | CallLoad string | CallFork string | CallResume string

fun open_session :: "'w conn \<Rightarrow> rat \<Rightarrow> rat \<Rightarrow> goerr option \<Rightarrow> session_call \<Rightarrow> 'w opt list \<Rightarrow> 'w ce \<Rightarrow>
    ((goerr + nat) \<times> 'w ce) option" where
  "open_session cn t0 t1 x CallNew opts ce = NewSession cn t0 t1 x opts ce"
| "open_session cn t0 t1 x (CallLoad i) opts ce = LoadSession cn t0 t1 x i opts ce"
| "open_session cn t0 t1 x (CallFork i) opts ce = ForkSession cn t0 t1 i opts ce"
| "open_session cn t0 t1 x (CallResume i) opts ce = ResumeSession cn t0 t1 i opts ce"

text \<open>
  The contract of the four calls, between the client before and after. Session objects are numbered
  in the order they are created, and \<open>c_nextPtr\<close> is the next number, so what a call has created can
  be read off it: success leaves exactly one new session, open and registered under its id; failure
  leaves no new session at all and the table as it was, or exactly one, which is closed and no longer
  in the table, its id taken out. Sessions that existed before keep their ids and stay as open as
  they were.
\<close>

definition all_or_nothing :: "'w client \<Rightarrow> goerr + nat \<Rightarrow> 'w client \<Rightarrow> bool" where
  "all_or_nothing c r c' \<longleftrightarrow> reg_inv c' \<and> c_closed c' = c_closed c \<and>
     (\<forall>q < c_nextPtr c. s_id (c_store c' q) = s_id (c_store c q) \<and> s_closed (c_store c' q) = s_closed (c_store c q)) \<and>
     (case r of
        Inr p \<Rightarrow> p = c_nextPtr c \<and> c_nextPtr c' = Suc p \<and> live p c' \<and>
          map_of (c_sessions c') = (map_of (c_sessions c))(s_id (c_store c' p) \<mapsto> p)
      | Inl _ \<Rightarrow> c_nextPtr c' = c_nextPtr c \<and> map_of (c_sessions c') = map_of (c_sessions c) \<or>
          c_nextPtr c' = Suc (c_nextPtr c) \<and> gone (c_nextPtr c) c' \<and>
          map_of (c_sessions c') = (map_of (c_sessions c))(s_id (c_store c' (c_nextPtr c)) := None))"

text \<open>A session is created after some settling steps, and more may follow before the end of the call.\<close>

lemma created:
  assumes "reg_inv c" "settles c c1" "newSession cn t0 t1 sid mo md op me b (c1, e1) = Some (p, (c2, e2))"
  shows "p = c_nextPtr c \<and> reg_inv c2 \<and> live p c2 \<and> s_id (c_store c2 p) = sid \<and> c_closed c2 = c_closed c \<and>
    c_nextPtr c2 = Suc p \<and> map_of (c_sessions c2) = (map_of (c_sessions c))(sid \<mapsto> p) \<and>
    (\<forall>q < c_nextPtr c. s_id (c_store c2 q) = s_id (c_store c q) \<and> s_closed (c_store c2 q) = s_closed (c_store c q))"
proof -
  have i: "reg_inv c1" using assms(1,2) by (simp add: settles_def)
  from newSession_ok [OF i, of cn t0 t1 sid mo md op me b e1] assms(3)
  have n: "p = c_nextPtr c1" "reg_inv c2" "map_of (c_sessions c2) = (map_of (c_sessions c1))(sid \<mapsto> p)"
    "\<forall>q. q \<noteq> p \<longrightarrow> c_store c2 q = c_store c1 q" "\<not> s_closed (c_store c2 p)" "c_nextPtr c2 = Suc p" by auto
  then have "s_id (c_store c2 p) = sid" by (auto simp: reg_inv_def)
  with n newSession_closed [OF assms(3)] assms(2) show ?thesis by (auto simp: settles_def live_def lookupSession_def)
qed

lemma finished:
  assumes "settling_conn cn" "live p c2" "reg_inv c2" "settles c2 c3"
    and p: "p = c_nextPtr c" "c_nextPtr c2 = Suc p" "c_closed c2 = c_closed c" "s_id (c_store c2 p) = sid" "map_of (c_sessions c2) = (map_of (c_sessions c))(sid \<mapsto> p)"
      "\<forall>q < c_nextPtr c. s_id (c_store c2 q) = s_id (c_store c q) \<and> s_closed (c_store c2 q) = s_closed (c_store c q)"
  shows "\<exists>r c' e'. finish_call cn p o1 (c3, e3) = Some (r, (c', e')) \<and> all_or_nothing c r c'"
    "\<exists>c' e'. teardownSession p (c3, e3) = Some (c', e') \<and> all_or_nothing c (Inl err) c'"
proof -
  have l: "live p c3" "reg_inv c3" using assms(2-4) by (simp_all add: settles_live) (simp add: settles_def)
  have f: "s_id (c_store c3 q) = s_id (c_store c2 q)" "s_closed (c_store c3 q) = s_closed (c_store c2 q)"
    "c_sessions c3 = c_sessions c2" "c_nextPtr c3 = c_nextPtr c2" for q using assms(4) by (simp_all add: settles_def)
  have cl: "c_closed c3 = c_closed c" using assms(4) p(3) by (simp add: settles_def)
  note old = finish_keeps_old [OF assms(1) l(2)]
  obtain r c' e' where fin: "finish_call cn p o1 (c3, e3) = Some (r, (c', e'))" "reg_inv c'"
    "s_id (c_store c' p) = s_id (c_store c3 p)" "c_nextPtr c' = c_nextPtr c3"
    and res: "case r of Inr q \<Rightarrow> q = p \<and> live p c' \<and> c_sessions c' = c_sessions c3
     | Inl _ \<Rightarrow> gone p c' \<and> map_of (c_sessions c') = (map_of (c_sessions c3))(s_id (c_store c3 p) := None)"
    using finish_ok [OF assms(1) l(2,1), of o1 e3] by blast
  have "\<forall>q < c_nextPtr c. s_id (c_store c' q) = s_id (c_store c q) \<and> s_closed (c_store c' q) = s_closed (c_store c q)"
    using old [OF fin(1)] p(1,6) f by auto
  then have "all_or_nothing c r c'"
    using fin res p f cl finish_closed [OF assms(1) fin(1)] by (cases r) (auto simp: all_or_nothing_def)
  with fin(1) show "\<exists>r c' e'. finish_call cn p o1 (c3, e3) = Some (r, (c', e')) \<and> all_or_nothing c r c'" by blast
  obtain c4 e4 where td: "teardownSession p (c3, e3) = Some (c4, e4)" "reg_inv c4" "gone p c4"
    "s_id (c_store c4 p) = s_id (c_store c3 p)"
    "map_of (c_sessions c4) = (map_of (c_sessions c3))(s_id (c_store c3 p) := None)"
    "c_nextPtr c4 = c_nextPtr c3" "\<forall>q. q \<noteq> p \<longrightarrow> c_store c4 q = c_store c3 q"
    using teardown_gone [OF l(2), of p e3] by blast
  then have "all_or_nothing c (Inl err) c4"
    using p f cl teardown_closed [OF td(1)] by (auto simp: all_or_nothing_def)
  with td(1) show "\<exists>c' e'. teardownSession p (c3, e3) = Some (c', e') \<and> all_or_nothing c (Inl err) c'" by blast
qed

lemma all_or_nothing_settled:
  "settles c c' \<Longrightarrow> reg_inv c \<Longrightarrow> all_or_nothing c (Inl err) c'"
  by (simp add: all_or_nothing_def settles_def)

lemma requested_then_created:
  assumes cn: "settling_conn cn" and i: "reg_inv c" and s: "settles c c2"
  shows "\<exists>r c' e'. Option.bind (newSession cn t0 t1 sid mo md op me b (c2, e2))
      (\<lambda>(p, ce). finish_call cn p o1 ce) = Some (r, (c', e')) \<and> all_or_nothing c r c'"
proof -
  have i2: "reg_inv c2" using i s by (simp add: settles_def)
  obtain p c3 e3 where n: "newSession cn t0 t1 sid mo md op me b (c2, e2) = Some (p, (c3, e3))"
    using newSession_ok [OF i2, of cn t0 t1 sid mo md op me b e2] by blast
  note k = created [OF i s n]
  have "\<exists>r c' e'. finish_call cn p o1 (c3, e3) = Some (r, (c', e')) \<and> all_or_nothing c r c'"
    by (rule finished(1) [OF cn, of p c3 c3 c sid]) (use k in auto)
  with n show ?thesis by simp
qed

lemma created_then_requested:
  assumes cn: "settling_conn cn" and i: "reg_inv c" and s: "settles c c1"
    and rpc: "\<And>ce. settles (fst ce) (fst (snd (rpc ce)))"
    and up: "\<And>resp s. s_updates (f resp s) = s_updates s" "\<And>resp s. s_closed (f resp s) = s_closed s"
      "\<And>resp s. s_id (f resp s) = s_id s"
  shows "\<exists>r c' e'. Option.bind (newSession cn t0 t1 sid mo md op me b (c1, e1))
      (\<lambda>(p, ce2). case rpc ce2 of
         (Inl err, ce3) \<Rightarrow> map_option (Pair (Inl (g err))) (teardownSession p ce3)
       | (Inr resp, ce3) \<Rightarrow> finish_call cn p o1 (update_session p (f resp) ce3)) = Some (r, (c', e')) \<and>
    all_or_nothing c r c'"
proof -
  have i1: "reg_inv c1" using i s by (simp add: settles_def)
  obtain p c2 e2 where n: "newSession cn t0 t1 sid mo md op me b (c1, e1) = Some (p, (c2, e2))"
    using newSession_ok [OF i1, of cn t0 t1 sid mo md op me b e1] by blast
  note k = created [OF i s n]
  obtain q c3 e3 where r: "rpc (c2, e2) = (q, (c3, e3))" by (metis prod.exhaust)
  then have s3: "settles c2 c3" using rpc [of "(c2, e2)"] by simp
  show ?thesis
  proof (cases q)
    case (Inl err)
    have "\<exists>c' e'. teardownSession p (c3, e3) = Some (c', e') \<and> all_or_nothing c (Inl (g err)) c'"
      by (rule finished(2) [OF cn, of p c2 c3 c sid]) (use k s3 in auto)
    with n r Inl show ?thesis by auto
  next
    case (Inr resp)
    obtain c4 e4 where u: "update_session p (f resp) (c3, e3) = (c4, e4)" by (metis prod.exhaust)
    have "settles (fst (c3, e3)) (fst (update_session p (f resp) (c3, e3)))"
      by (rule update_session_settles) (simp_all add: up)
    then have s4: "settles c2 c4" using settles_trans [OF s3] u by simp
    have "\<exists>r c' e'. finish_call cn p o1 (c4, e4) = Some (r, (c', e')) \<and> all_or_nothing c r c'"
      by (rule finished(1) [OF cn, of p c2 c4 c sid]) (use k s4 in auto)
    with n r Inr u show ?thesis by simp
  qed
qed

text \<open>The four calls, after their checks have passed.\<close>

lemma call_ok:
  assumes "settling_conn cn" "reg_inv c" "begin_call cn opts (c, e) = (Inr o1, (c1, e1))"
  shows "\<exists>r c' e'. NewSession cn t0 t1 x opts (c, e) = Some (r, (c', e')) \<and> all_or_nothing c r c'" (is ?new)
    "\<exists>r c' e'. LoadSession cn t0 t1 x i opts (c, e) = Some (r, (c', e')) \<and> all_or_nothing c r c'" (is ?load)
    "\<exists>r c' e'. ForkSession cn t0 t1 i opts (c, e) = Some (r, (c', e')) \<and> all_or_nothing c r c'" (is ?fork)
    "\<exists>r c' e'. ResumeSession cn t0 t1 i opts (c, e) = Some (r, (c', e')) \<and> all_or_nothing c r c'" (is ?resume)
proof -
  note bc = assms(3)
  have s1: "settles c c1" using begin_settles [OF bc] by simp
  note D = settling_connD [OF assms(1)]
  note R = request_settles [OF assms(1)]
  have answered: "settles c c2 \<Longrightarrow> all_or_nothing c (Inl err) c2" for c2 err
    using all_or_nothing_settled assms(2) by blast
  obtain q c2 e2 where q: "request_with_login cn o1
      (cn_newSession cn (session_request [] c1 o1 (sessionNewMeta o1))) (c1, e1) = (q, (c2, e2))"
    by (metis prod.exhaust)
  have s2: "settles c c2" using settles_trans [OF s1] R [OF D(1) q] by simp
  show ?new
    using bc q answered [OF s2] requested_then_created [OF assms(1,2) s2] by (cases q) (simp_all add: NewSession_def)
  obtain q' c3 e3 where q': "cn_forkSession cn (session_request i c1 o1 None) (c1, e1) = (q', (c3, e3))"
    by (metis prod.exhaust)
  have s3: "settles c c3" using settles_trans [OF s1] settlingD [OF D(3) q'] by simp
  show ?fork
    using bc q' answered [OF s3] requested_then_created [OF assms(1,2) s3] by (cases q') (simp_all add: ForkSession_def)
  have "settles (fst ce) (fst (snd (request_with_login cn o1
      (cn_loadSession cn (session_request i c1 o1 (sessionNewMeta o1))) ce)))" for ce
    using R [OF D(2) surjective_pairing] by simp
  from created_then_requested [OF assms(1,2) s1 this, of "\<lambda>resp s. s\<lparr>s_initialModels := rs_Models resp,
        s_initialModes := rs_Modes resp, s_initialOptions := rs_ConfigOptions resp, s_meta := rs_Meta resp\<rparr>"
        t0 t1 i None None JNull None "o_updatesBuffer o1" e1 "wrapACPErrCtx x" o1]
  show ?load using bc by (simp add: LoadSession_def)
  have "settles (fst ce) (fst (snd (cn_resumeSession cn (session_request i c1 o1 None) ce)))" for ce
    using settlingD [OF D(4) surjective_pairing] by simp
  from created_then_requested [OF assms(1,2) s1 this, of "\<lambda>resp s. s\<lparr>s_initialModes := rs_Modes resp, s_meta := rs_Meta resp\<rparr>"
        t0 t1 i None None JNull None "o_updatesBuffer o1" e1 wrapACPErr o1]
  show ?resume using bc by (simp add: ResumeSession_def)
qed

lemma open_session_ok:
  assumes "settling_conn cn" "reg_inv c"
  shows "\<exists>r c' e'. open_session cn t0 t1 x k opts (c, e) = Some (r, (c', e')) \<and> all_or_nothing c r c'"
proof -
  obtain b c1 e1 where bc: "begin_call cn opts (c, e) = (b, (c1, e1))" by (metis prod.exhaust)
  show ?thesis
  proof (cases b)
    case (Inl err)
    have "settles c c1" using begin_settles [OF bc] by simp
    with Inl bc all_or_nothing_settled [OF _ assms(2)] show ?thesis
      by (cases k) (simp_all add: NewSession_def LoadSession_def ForkSession_def ResumeSession_def)
  next
    case (Inr o1)
    with call_ok [OF assms] bc show ?thesis by (cases k) simp_all
  qed
qed

text \<open>
  C1: The calls that open a session are all or nothing. Whatever the options and whatever the
  connection answers (as long as it does nothing to the client but route notifications), creating,
  loading, forking or resuming a session never panics; when it succeeds, exactly one new session
  object has been made, open and registered under its id; when it fails, at whatever step, either no
  session object has been made and the table is as it was, or exactly one has, and it is closed and no
  longer registered, so no session the call created stays registered or open. In both cases the
  sessions that existed before keep their ids and are as open as they were. The one thing they can
  lose is their place in the table: a call whose session has the id of a live one takes over its
  entry, and on failure removes it.
\<close>

theorem session_calls_all_or_nothing:
  assumes "settling_conn cn" "reg_inv c"
  shows "\<exists>r c' e'. open_session cn t0 t1 x k opts (c, e) = Some (r, (c', e')) \<and> all_or_nothing c r c'"
  by (rule open_session_ok) (rule assms)+

definition serving_conn :: "nat conn" where
  "serving_conn = demo_conn\<lparr>
     cn_newSession := (\<lambda>_ ce. (Inr \<lparr>rs_SessionId = ''s1'', rs_Models = None, rs_Modes = None, rs_ConfigOptions = JNull, rs_Meta = None\<rparr>, ce))\<rparr>"

definition started_client :: "nat client" where
  "started_client = (newClient (defaultOptions, demo_heap))\<lparr>c_started := True\<rparr>"

lemma started_client_sel:
  "reg_inv started_client" "c_started started_client" "\<not> c_closed started_client" "c_opts started_client = defaultOptions"
  "c_heap started_client = demo_heap" "c_bridge started_client = None" "c_sessions started_client = []"
  "c_pending started_client = []" "c_nextPtr started_client = 0"
  using reg_inv_new [of "(defaultOptions, demo_heap)"]
  by (simp_all add: started_client_def newClient_def reg_inv_def)

lemma settling_serving: "settling_conn serving_conn"
  by (simp add: settling_conn_def settling_def serving_conn_def demo_conn_def)

theorem session_calls_all_or_nothing_witness:
  "\<exists>c' e'. open_session serving_conn 0 0 None CallNew [] (started_client, demo_env) = Some (Inr 0, (c', e')) \<and>
     live 0 c' \<and> lookupSession ''s1'' c' = Some 0"
proof -
  have "\<exists>c' e'. open_session serving_conn 0 0 None CallNew [] (started_client, demo_env) = Some (Inr 0, (c', e')) \<and>
      s_id (c_store c' 0) = ''s1''"
    by (simp add: NewSession_def begin_call_def ensureStarted_def started_client_sel mergeOptions_def copy_env_def
        normalizeMcpServerSlices_def defaultOptions_def request_with_login_def serving_conn_def demo_conn_def
        newSession_def registerSession_def register_attach_def finish_call_def applySessionConfig_def
        apply_model_def apply_agent_def apply_effort_def apply_max_turns_def then_do_def attachBudgetTracker_def
        fireHookSessionStart_def fireHookSession_def s_id_new Let_def)
  with session_calls_all_or_nothing [OF settling_serving started_client_sel(1), of 0 0 None CallNew "[]" demo_env]
  show ?thesis by (auto simp: all_or_nothing_def live_def)
qed

section \<open>Refusals before the request\<close>

definition unsupported :: "AgentCapabilities \<Rightarrow> McpServer \<Rightarrow> bool" where
  "unsupported caps s \<longleftrightarrow> mcp_Http s \<noteq> None \<and> \<not> ac_McpHttp caps \<or> mcp_Sse s \<noteq> None \<and> \<not> ac_McpSse caps"

lemma check_mcp:
  "(\<exists>err. fst (checkMCPCapabilities caps ss e) = Some err \<and> errors_is err ErrCapabilityUnavailable) \<and>
     (\<exists>s \<in> set ss. unsupported caps s) \<or>
   checkMCPCapabilities caps ss e = (None, e) \<and> (\<forall>s \<in> set ss. \<not> unsupported caps s)"
proof (induction ss)
  case (Cons s ss)
  show ?case
  proof (cases "unsupported caps s")
    case True
    then show ?thesis by (auto simp: unsupported_def split: option.splits)
  next
    case False
    then have "checkMCPCapabilities caps (s # ss) e = checkMCPCapabilities caps ss e"
      by (auto simp: unsupported_def split: option.splits)
    with Cons False show ?thesis by auto
  qed
qed simp

text \<open>
  C22: A session call is refused before anything is sent, exactly when it must be: on a client that
  is not running the error says so, and when one of the servers it would send uses a transport the
  agent has not advertised it is ErrCapabilityUnavailable. A refused call leaves every session and
  every buffer alone and never consults the connection (any other connection gives the same
  outcome); a call that is not refused passes its merged options on.
\<close>

theorem session_call_refused:
  assumes "cn_tui cn2 = cn_tui cn"
  shows "case begin_call cn opts (c, e) of
      (Inl err, (c', e')) \<Rightarrow>
        open_session cn t0 t1 x k opts (c, e) = Some (Inl err, (c', e')) \<and>
        open_session cn2 t0 t1 x k opts (c, e) = Some (Inl err, (c', e')) \<and>
        c' = c\<lparr>c_heap := c_heap c'\<rparr> \<and>
        (if ensureStarted c = None
         then errors_is err ErrCapabilityUnavailable \<and>
           list_ex (unsupported (c_caps c)) (o_mcpServers (fst (mergeOptions (c_bridge c) (cn_tui cn) opts (c_opts c, c_heap c))))
         else ensureStarted c = Some err \<and> c' = c \<and> e' = e)
    | (Inr merged, (c', e')) \<Rightarrow>
        ensureStarted c = None \<and> c' = c\<lparr>c_heap := c_heap c'\<rparr> \<and> e' = e \<and>
        (merged, c_heap c') = mergeOptions (c_bridge c) (cn_tui cn) opts (c_opts c, c_heap c) \<and>
        \<not> list_ex (unsupported (c_caps c)) (o_mcpServers merged)"
proof (cases "ensureStarted c")
  case (Some err)
  then show ?thesis
    by (cases k) (simp_all add: begin_call_def NewSession_def LoadSession_def ForkSession_def ResumeSession_def)
next
  case None
  obtain o1 h where m: "mergeOptions (c_bridge c) (cn_tui cn) opts (c_opts c, c_heap c) = (o1, h)" by (metis prod.exhaust)
  obtain q e1 where q: "checkMCPCapabilities (c_caps c) (o_mcpServers o1) e = (q, e1)" by (metis prod.exhaust)
  show ?thesis
  proof (cases q)
    case [simp]: (Some err)
    have "begin_call cn opts (c, e) = (Inl err, (c\<lparr>c_heap := h\<rparr>, e1))"
      "begin_call cn2 opts (c, e) = (Inl err, (c\<lparr>c_heap := h\<rparr>, e1))"
      using None m q assms by (simp_all add: begin_call_def)
    moreover have "errors_is err ErrCapabilityUnavailable" "list_ex (unsupported (c_caps c)) (o_mcpServers o1)"
      using check_mcp [of "c_caps c" "o_mcpServers o1" e] q by (auto simp: list_ex_iff)
    ultimately show ?thesis
      using None m
      by (cases k) (simp_all add: NewSession_def LoadSession_def ForkSession_def ResumeSession_def)
  next
    case [simp]: None
    have "begin_call cn opts (c, e) = (Inr o1, (c\<lparr>c_heap := h\<rparr>, e1))"
      using \<open>ensureStarted c = None\<close> m q by (simp add: begin_call_def)
    moreover have "e1 = e" "\<not> list_ex (unsupported (c_caps c)) (o_mcpServers o1)"
      using check_mcp [of "c_caps c" "o_mcpServers o1" e] q by (auto simp: list_ex_iff)
    ultimately show ?thesis using \<open>ensureStarted c = None\<close> m by simp
  qed
qed

theorem session_call_refused_witness:
  "open_session serving_conn 0 0 None (CallLoad ''s1'') [] (newClient (demo_options, demo_heap), demo_env) =
     Some (Inl (ESent ErrClientNotStarted), (newClient (demo_options, demo_heap), demo_env))"
proof -
  have "begin_call serving_conn [] (newClient (demo_options, demo_heap), demo_env) =
      (Inl (ESent ErrClientNotStarted), (newClient (demo_options, demo_heap), demo_env))"
    by (simp add: begin_call_def ensureStarted_def newClient_def)
  with session_call_refused [where cn = serving_conn and ?cn2.0 = serving_conn and opts = "[]" and e = demo_env
      and c = "newClient (demo_options, demo_heap)" and ?t0.0 = 0 and ?t1.0 = 0 and x = None and k = "CallLoad ''s1''"]
  show ?thesis by simp
qed

section \<open>Effort\<close>

lemma chooseVariant_find:
  "[] \<notin> set priority \<Longrightarrow> (case find (\<lambda>v. v \<in> set available) priority of None \<Rightarrow> chooseVariant available priority = []
     | Some v \<Rightarrow> chooseVariant available priority = v \<and> v \<noteq> [])"
  by (induction priority) (auto split: option.splits)

lemma effortPriority_ne: "[] \<notin> set (effortPriority l)"
  by (cases l) auto

text \<open>
  Effort picks the best variant on offer. When applying it succeeds, the session's model is the
  base model with the first variant of the level's preference list that the model offers, whether
  or not a further request was needed for it, and the recorded variant is that one; when the model
  offers none of them, the model is left as it was.
\<close>

theorem effort_selects:
  assumes "apply_variants cn p (effortPriority l) info (c, e) = (None, (c', e'))"
  shows "case find (\<lambda>v. v \<in> set (vi_AvailableVariants info)) (effortPriority l) of
      None \<Rightarrow> s_currentModel (c_store c' p) = s_currentModel (c_store c p) \<and>
        CurrentVariant (c_store c' p) = Some info
    | Some v \<Rightarrow> s_currentModel (c_store c' p) = vi_ModelId info @ ''/'' @ v \<and>
        CurrentVariant (c_store c' p) = Some (info\<lparr>vi_Variant := v\<rparr>)"
proof -
  let ?p = "effortPriority l" and ?a = "vi_AvailableVariants info"
  define ce1 where "ce1 = update_session p (setResolvedVariant (Some info)) (c, e)"
  have s1: "s_currentModel (c_store (fst ce1) p) = s_currentModel (c_store c p)"
    "s_resolvedVariant (c_store (fst ce1) p) = Some info"
    by (simp_all add: ce1_def update_session_def setResolvedVariant_def)
  show ?thesis
  proof (cases "find (\<lambda>v. v \<in> set ?a) ?p")
    case None
    with chooseVariant_find [where priority = ?p and available = ?a, OF effortPriority_ne] have "chooseVariant ?a ?p = []" by simp
    with assms have "(c', e') = ce1" by (auto simp: apply_variants_def ce1_def Let_def split: if_splits)
    with s1 None show ?thesis by (auto simp: CurrentVariant_def)
  next
    case (Some v)
    with chooseVariant_find [where priority = ?p and available = ?a, OF effortPriority_ne] have v: "chooseVariant ?a ?p = v" "v \<noteq> []" by auto
    from Some have a: "?a \<noteq> []" by (auto simp: find_Some_iff)
    show ?thesis
    proof (cases "v = vi_Variant info")
      case True
      with assms v a have "(c', e') = update_session p (\<lambda>s. s\<lparr>s_currentModel := vi_ModelId info @ ''/'' @ v\<rparr>) ce1"
        by (simp add: apply_variants_def ce1_def Let_def)
      with s1 Some True show ?thesis by (cases ce1) (auto simp: update_session_def CurrentVariant_def)
    next
      case False
      obtain r ce2 where u: "UnstableSetModel cn (s_id (c_store (fst ce1) p)) (vi_ModelId info @ ''/'' @ v) ce1 = (r, ce2)"
        by (metis prod.exhaust)
      with assms v a False have "(c', e') = update_session p (\<lambda>s. setResolvedVariant (Some (info\<lparr>vi_Variant := v\<rparr>))
          (s\<lparr>s_currentModel := vi_ModelId info @ ''/'' @ v\<rparr>)) ce2"
        by (cases r) (simp_all add: apply_variants_def ce1_def [symmetric] Let_def)
      with Some show ?thesis by (cases ce2) (auto simp: update_session_def setResolvedVariant_def CurrentVariant_def)
    qed
  qed
qed

theorem effort_selects_witness:
  "\<exists>c' e'. apply_variants serving_conn 0 (effortPriority EffortHigh)
      \<lparr>vi_ModelId = ''p/m'', vi_Variant = ''medium'', vi_AvailableVariants = [''low'', ''medium'']\<rparr>
      (started_client, demo_env) = (None, (c', e')) \<and> s_currentModel (c_store c' 0) = ''p/m/medium''"
proof -
  let ?i = "\<lparr>vi_ModelId = ''p/m'', vi_Variant = ''medium'', vi_AvailableVariants = [''low'', ''medium'']\<rparr>"
  have "fst (apply_variants serving_conn 0 (effortPriority EffortHigh) ?i (started_client, demo_env)) = None"
    by (simp add: apply_variants_def Let_def)
  then obtain c' e' where r: "apply_variants serving_conn 0 (effortPriority EffortHigh) ?i (started_client, demo_env)
      = (None, (c', e'))" by (metis prod.exhaust fst_conv)
  from effort_selects [OF this] r show ?thesis by simp
qed

text \<open>
  The documentation of the levels promises more and less than the code: EffortMax falls back ``to
  whatever the model offers as its highest tier'', but a model that offers low and medium gets no
  variant; EffortHigh maps to ``high'' verbatim, but takes medium when high is missing.
\<close>

theorem effort_fallback:
  "chooseVariant [''low'', ''medium''] (effortPriority EffortMax) = [] \<and>
   chooseVariant [''low'', ''medium''] (effortPriority EffortHigh) = ''medium''"
  by simp

section \<open>Findings\<close>

definition live_client :: "nat client" where
  "live_client = started_client\<lparr>c_store := (\<lambda>_. new_session ''s1'' None None JNull None 4), c_nextPtr := 1,
     c_sessions := [(''s1'', 0)]\<rparr>"

lemma live_client_sel:
  "c_started live_client" "\<not> c_closed live_client" "c_opts live_client = defaultOptions"
  "c_heap live_client = demo_heap" "c_bridge live_client = None" "c_sessions live_client = [(''s1'', 0)]"
  "c_pending live_client = []" "c_nextPtr live_client = 1"
  "c_store live_client p = new_session ''s1'' None None JNull None 4"
  using started_client_sel by (simp_all add: live_client_def)

lemmas call_defs = begin_call_def ensureStarted_def mergeOptions_def copy_env_def
  normalizeMcpServerSlices_def request_with_login_def newSession_def registerSession_def
  register_attach_def finish_call_def applySessionConfig_def apply_model_def apply_agent_def apply_effort_def
  apply_max_turns_def then_do_def attachBudgetTracker_def fireHookSessionStart_def fireHookSessionEnd_def
  fireHookSession_def s_id_new

lemma close_new: "\<exists>s. close_session (new_session i mo md j me n) = Some s"
  by (simp add: close_session_def chan_close_def new_session_def chan_new_def Let_def)

lemma open_new: "\<not> s_closed (new_session i mo md j me n)"
  by (simp add: new_session_def Let_def)

lemma close_new_option: "map_option f (close_session (new_session i mo md j me n)) =
    Some (f (the (close_session (new_session i mo md j me n))))"
  using close_new [of i mo md j me n] by auto

text \<open>
  A failed load of a session that is in use cuts the running one off: the load registers a second
  object under the same id, and its roll-back removes the id from the routing table. The first
  object stays open, but no notification reaches it any more, and \<open>Close\<close> and \<open>CancelAll\<close> no longer
  see it.
\<close>

theorem failed_load_cuts_off_the_live_session:
  "lookupSession ''s1'' live_client = Some 0 \<and>
   (\<exists>err c' e'. LoadSession demo_conn 0 0 None ''s1'' [] (live_client, demo_env) = Some (Inl err, (c', e')) \<and>
      lookupSession ''s1'' c' = None \<and> \<not> s_closed (c_store c' 0) \<and> c_store c' 0 = c_store live_client 0)"
  by (simp add: LoadSession_def call_defs live_client_sel defaultOptions_def demo_conn_def Let_def close_new_option
      maybeRelaunchLoginAndRetry_def teardownSession_def deregisterSession_def close_ptr_def
      lookupSession_def amap_del_def open_new)

text \<open>
  A client that is closed while a session is being created leaves the session behind: the check that
  the client is running comes before the request, and nothing checks again after it. When another
  goroutine closes the client between the agent's answer and the registration, the new session is
  registered, open and handed out on a closed client, and a second Close does not reach it, although
  its channel is documented to be closed with the client.
\<close>

definition closed_meanwhile :: "nat ce \<Rightarrow> nat ce" where
  "closed_meanwhile ce = (case Close demo_conn ce of Some (_, ce') \<Rightarrow> ce' | None \<Rightarrow> ce)"

definition closing_conn :: "nat conn" where
  "closing_conn = demo_conn\<lparr>cn_newSession := (\<lambda>_ ce.
     (Inr \<lparr>rs_SessionId = ''s1'', rs_Models = None, rs_Modes = None, rs_ConfigOptions = JNull, rs_Meta = None\<rparr>,
      closed_meanwhile ce))\<rparr>"

lemma closed_meanwhile_idle:
  "\<not> c_closed c \<Longrightarrow> c_sessions c = [] \<Longrightarrow> \<not> c_transport c \<Longrightarrow> c_bridge c = None \<Longrightarrow> c_subprocessSpan c = None \<Longrightarrow>
   closed_meanwhile (c, e) = (c\<lparr>c_closed := True, c_sessions := []\<rparr>, e)"
  by (simp add: closed_meanwhile_def Close_def shutdown_nothing close_subprocess_span_def)

theorem session_created_after_Close:
  "\<exists>c' e'. NewSession closing_conn 0 0 None [] (started_client, demo_env) = Some (Inr 0, (c', e')) \<and>
     c_closed c' \<and> \<not> s_closed (c_store c' 0) \<and> lookupSession ''s1'' c' = Some 0 \<and>
     Close closing_conn (c', e') = Some (None, (c', e'))"
proof -
  have t: "\<not> c_transport started_client" "c_subprocessSpan started_client = None"
    by (simp_all add: started_client_def newClient_def)
  have "\<exists>c' e'. NewSession closing_conn 0 0 None [] (started_client, demo_env) = Some (Inr 0, (c', e')) \<and>
     c_closed c' \<and> \<not> s_closed (c_store c' 0) \<and> lookupSession ''s1'' c' = Some 0"
    using t by (simp add: NewSession_def call_defs started_client_sel closing_conn_def demo_conn_def defaultOptions_def Let_def
        lookupSession_def open_new closed_meanwhile_idle)
  moreover have "c_closed c' \<Longrightarrow> Close closing_conn (c', e') = Some (None, (c', e'))" for c' e' by (simp add: Close_def)
  ultimately show ?thesis by blast
qed

definition model_conn :: "nat conn" where
  "model_conn = demo_conn\<lparr>
     cn_newSession := (\<lambda>_ ce. (Inr \<lparr>rs_SessionId = ''s2'', rs_Models = Some \<lparr>mo_AvailableModels = [], mo_CurrentModelId = ''p/m''\<rparr>,
       rs_Modes = None, rs_ConfigOptions = JNull, rs_Meta = None\<rparr>, ce)),
     cn_loadSession := (\<lambda>_ ce. (Inr \<lparr>rs_SessionId = ''s2'', rs_Models = Some \<lparr>mo_AvailableModels = [], mo_CurrentModelId = ''p/m''\<rparr>,
       rs_Modes = None, rs_ConfigOptions = JNull, rs_Meta = None\<rparr>, ce))\<rparr>"

text \<open>
  WithEffort is not re-applied by \<open>LoadSession\<close>, although it is documented to be: the current model
  of a loaded session is not taken from the response, so without a configured model there is none to
  probe. On a connection that refuses session/set_model, creating a session with an effort fails,
  as it should, while loading one succeeds without ever asking.
\<close>

theorem loaded_sessions_ignore_effort:
  "\<exists>err ce1 c' e'. NewSession model_conn 0 0 None [OSetting (SetEffort EffortHigh)] (started_client, demo_env) =
       Some (Inl err, ce1) \<and>
     LoadSession model_conn 0 0 None ''s2'' [OSetting (SetEffort EffortHigh)] (started_client, demo_env) =
       Some (Inr 0, (c', e')) \<and>
     s_initialModels (c_store c' 0) = Some \<lparr>mo_AvailableModels = [], mo_CurrentModelId = ''p/m''\<rparr> \<and>
     s_currentModel (c_store c' 0) = []"
proof -
  have m: "s_currentModel (new_session i (Some \<lparr>mo_AvailableModels = [], mo_CurrentModelId = a\<rparr>) md j me n :: nat session) = a"
    "s_currentModel (new_session i None md j me n :: nat session) = []"
    "s_closed (new_session i mo md j me n :: nat session) = False" for i a md j me n mo
    by (simp_all add: new_session_def Let_def)
  have v: "\<not> modelHasExplicitVariant ''p/m''" by code_simp
  show ?thesis
    by (simp add: NewSession_def LoadSession_def call_defs started_client_sel defaultOptions_def model_conn_def
        demo_conn_def Let_def m WithEffort_def applyEffortOnSession_def v resolveVariants_def wrap_error_def
        update_session_def teardownSession_def deregisterSession_def close_ptr_def close_new_option)
qed

section \<open>Login\<close>

text \<open>
  A failed request is sent again only after a login that was asked for. The login command runs
  only when WithAutoLaunchLogin is on, the error says that authentication is required and the agent
  has advertised a command; the request is then repeated once if the command succeeds. In every
  other case, a failed login command included, the caller gets the request's own error, and without
  the option no login can be launched at all.
\<close>

theorem login_only_when_asked:
  assumes "rpc ce = (Inl err, ce1)"
  shows "request_with_login cn o1 rpc ce =
      (if o_autoLaunchLogin o1 \<and> errors_is (wrapACPErr err) ErrAuthRequired
       then (case firstTerminalAuthLaunch (fst ce1) of
               None \<Rightarrow> (Inl err, ce1)
             | Some launch \<Rightarrow>
                 (let (failed, ce2) = cn_runLogin cn launch ce1
                  in if failed = None then rpc ce2 else (Inl err, ce2)))
       else (Inl err, ce1)) \<and>
    (firstTerminalAuthLaunch (fst ce1) \<noteq> None \<longrightarrow>
       tal_Command (the (firstTerminalAuthLaunch (fst ce1))) \<noteq> [])"
proof -
  have "first_some (map TerminalAuthInstructions ms) = Some l \<Longrightarrow> tal_Command l \<noteq> []" for ms l
  proof (induction ms)
    case (Cons m ms)
    show ?case
    proof (cases "TerminalAuthInstructions m")
      case (Some l')
      with Cons.prems show ?thesis by (auto simp: TerminalAuthInstructions_def Let_def split: option.splits if_splits)
    qed (use Cons in simp)
  qed simp
  then show ?thesis
    using assms
    by (auto simp: request_with_login_def maybeRelaunchLoginAndRetry_def firstTerminalAuthLaunch_def Let_def
        split: option.splits prod.splits)
qed

theorem login_only_when_asked_witness:
  "request_with_login demo_conn (defaultOptions :: nat options) (cn_newSession demo_conn (session_request [] started_client defaultOptions None))
     (started_client, demo_env) = (Inl (ENew ''x''), (started_client, demo_env))"
proof -
  have "cn_newSession demo_conn (session_request [] started_client defaultOptions None) (started_client, demo_env) =
      (Inl (ENew ''x''), (started_client, demo_env))" by (simp add: demo_conn_def)
  from login_only_when_asked [where rpc = "cn_newSession demo_conn (session_request [] started_client defaultOptions None)", OF this, of demo_conn defaultOptions] show ?thesis by (simp add: defaultOptions_def)
qed

end
