(* ===== verification/History.thy ===== *)
theory History
  imports SessionOps
begin

text \<open>
  Reading the sessions of a running agent: the pages of \<open>session/list\<close> and the iterator over them
  (\<open>session_stat.go\<close>, \<open>client_impl.go\<close>), raw extension calls, and the history a loaded session
  replays (\<open>load_history.go\<close>).

  An iterator is run against its consumer: \<open>yd info err\<close> is the loop body, and its Boolean says
  whether the loop goes on. The iterator may never end (nothing stops an agent from handing out
  cursors for ever), so it is a partial function: \<open>None\<close> is a run that does not end.

  The calls of a client that check whether it has started are all known here, and so is what they
  answer after a crash of the subprocess.
\<close>

section \<open>Pages of sessions\<close>

type_synonym ('i, 'w) list_rpc =
  "string option \<Rightarrow> string option \<Rightarrow> 'w ce \<Rightarrow> (goerr + ('i list \<times> string option)) \<times> 'w ce"

definition acpStringPtr :: "string \<Rightarrow> string option" where
  "acpStringPtr s = (if s = [] then None else Some s)"

definition client_ListSessions :: "('i, 'w) list_rpc \<Rightarrow> string \<Rightarrow> 'w ce \<Rightarrow> (goerr + ('i list \<times> string)) \<times> 'w ce" where
  "client_ListSessions rpc cursor ce =
     (case ensureStarted (fst ce) of
        Some err \<Rightarrow> (Inl err, ce)
      | None \<Rightarrow>
          (case rpc (acpStringPtr (o_cwd (c_opts (fst ce)))) (if cursor \<noteq> [] then Some cursor else None) ce of
             (Inl err, ce') \<Rightarrow> (Inl (wrapACPErr err), ce')
           | (Inr (sessions, next1), ce') \<Rightarrow> (Inr (sessions, str_or next1), ce')))"

type_synonym ('i, 'w) yield = "'i option \<Rightarrow> goerr option \<Rightarrow> 'w ce \<Rightarrow> bool \<times> 'w ce"

fun yield_each :: "('i, 'w) yield \<Rightarrow> 'i list \<Rightarrow> 'w ce \<Rightarrow> bool \<times> 'w ce" where
  "yield_each yd [] ce = (True, ce)"
| "yield_each yd (s # ss) ce =
     (case yd (Some s) None ce of (go, ce') \<Rightarrow> if go then yield_each yd ss ce' else (False, ce'))"

partial_function (option) iter_from ::
  "('i, 'w) list_rpc \<Rightarrow> ('w ce \<Rightarrow> goerr option) \<Rightarrow> ('i, 'w) yield \<Rightarrow> string \<Rightarrow> 'w ce \<Rightarrow> 'w ce option" where
  "iter_from rpc ctxErr yd cursor ce =
     (case ctxErr ce of
        Some err \<Rightarrow> Some (snd (yd None (Some err) ce))
      | None \<Rightarrow>
          (case client_ListSessions rpc cursor ce of
             (Inl err, ce') \<Rightarrow> Some (snd (yd None (Some err) ce'))
           | (Inr (sessions, next1), ce') \<Rightarrow>
               (case yield_each yd sessions ce' of
                  (go, ce'') \<Rightarrow>
                    if \<not> go then Some ce''
                    else if next1 = [] then Some ce''
                    else iter_from rpc ctxErr yd next1 ce'')))"

definition IterSessions :: "('i, 'w) list_rpc \<Rightarrow> ('w ce \<Rightarrow> goerr option) \<Rightarrow> ('i, 'w) yield \<Rightarrow> 'w ce \<Rightarrow> 'w ce option" where
  "IterSessions rpc ctxErr yd ce = iter_from rpc ctxErr yd [] ce"


text \<open>
  An agent that serves a fixed list of pages: the cursor of page \<open>i\<close> is \<open>tok i\<close>, the first page has
  none, and only the last page comes without a next cursor. A patient consumer never breaks out of
  the loop, and neither it nor the agent stops the client or cancels the context.
\<close>

definition serves_pages :: "('i, 'w) list_rpc \<Rightarrow> 'i list list \<Rightarrow> (nat \<Rightarrow> string) \<Rightarrow> bool" where
  "serves_pages rpc pages tok \<longleftrightarrow> pages \<noteq> [] \<and> tok 0 = [] \<and> (\<forall>i. 0 < i \<and> i < length pages \<longrightarrow> tok i \<noteq> []) \<and>
     (\<forall>cwd i ce. i < length pages \<longrightarrow>
        rpc cwd (if tok i \<noteq> [] then Some (tok i) else None) ce =
          (Inr (pages ! i, if Suc i < length pages then Some (tok (Suc i)) else None), ce))"

definition patient :: "('w ce \<Rightarrow> goerr option) \<Rightarrow> ('i, 'w) yield \<Rightarrow> bool" where
  "patient ctxErr yd \<longleftrightarrow>
     (\<forall>i ce. ensureStarted (fst ce) = None \<and> ctxErr ce = None \<longrightarrow>
        (case yd (Some i) None ce of (go, ce') \<Rightarrow> go \<and> ensureStarted (fst ce') = None \<and> ctxErr ce' = None))"

definition consume :: "('i, 'w) yield \<Rightarrow> 'i list \<Rightarrow> 'w ce \<Rightarrow> 'w ce" where
  "consume yd = fold (\<lambda>i ce. snd (yd (Some i) None ce))"

lemma yield_each_patient:
  assumes "patient ctxErr yd" "ensureStarted (fst ce) = None" "ctxErr ce = None"
  shows "yield_each yd is ce = (True, consume yd is ce) \<and>
    ensureStarted (fst (consume yd is ce)) = None \<and> ctxErr (consume yd is ce) = None"
  using assms(2,3)
proof (induction "is" arbitrary: ce)
  case (Cons i "is")
  obtain go ce' where y: "yd (Some i) None ce = (go, ce')" by (metis prod.exhaust)
  then have "go" "ensureStarted (fst ce') = None" "ctxErr ce' = None"
    using assms(1) [unfolded patient_def, rule_format, of ce i] Cons.prems by auto
  with y Cons.IH [of ce'] show ?case by (simp add: consume_def)
qed (simp add: consume_def)

lemma iter_from_pages:
  assumes s: "serves_pages rpc pages tok" and p: "patient ctxErr yd"
    and "i < length pages" "ensureStarted (fst ce) = None" "ctxErr ce = None"
  shows "iter_from rpc ctxErr yd (tok i) ce = Some (consume yd (concat (drop i pages)) ce)"
  using assms(3-)
proof (induction "length pages - i" arbitrary: i ce)
  case (Suc n)
  let ?ce = "consume yd (pages ! i) ce"
  note y = yield_each_patient [OF p Suc.prems(2,3), of "pages ! i"]
  have d: "drop i pages = pages ! i # drop (Suc i) pages" using Suc.prems(1) by (simp add: Cons_nth_drop_Suc)
  have l: "client_ListSessions rpc (tok i) ce = (Inr (pages ! i, if Suc i < length pages then tok (Suc i) else []), ce)"
  proof -
    have "rpc cwd (if tok i \<noteq> [] then Some (tok i) else None) ce =
        (Inr (pages ! i, if Suc i < length pages then Some (tok (Suc i)) else None), ce)" for cwd
      using s Suc.prems(1) unfolding serves_pages_def by blast
    then show ?thesis
      by (simp only: client_ListSessions_def Suc.prems(2) option.case prod.case sum.case if_distrib [of str_or] str_or_simps)
  qed
  show ?case
  proof (cases "Suc i < length pages")
    case True
    then have "tok (Suc i) \<noteq> []" using s by (simp add: serves_pages_def)
    moreover have "iter_from rpc ctxErr yd (tok (Suc i)) ?ce = Some (consume yd (concat (drop (Suc i) pages)) ?ce)"
      using Suc.hyps(1) [of "Suc i" ?ce] Suc.hyps(2) True y by simp
    ultimately show ?thesis using Suc.prems y l True by (subst iter_from.simps) (simp add: d consume_def)
  next
    case False
    then show ?thesis using Suc.prems y l by (subst iter_from.simps) (simp add: d consume_def)
  qed
qed simp

text \<open>
  C25: IterSessions ends on every agent that serves finitely many pages, and hands a consumer that never
  breaks out of its loop every session of every page, once and in order, as long as the client is started
  and the context live.
\<close>

theorem IterSessions_yields_every_page:
  assumes "serves_pages rpc pages tok" and "patient ctxErr yd"
    and "ensureStarted (fst ce) = None" and "ctxErr ce = None"
  shows "IterSessions rpc ctxErr yd ce = Some (consume yd (concat pages) ce)"
  using iter_from_pages [OF assms(1,2), of 0 ce] assms by (simp add: IterSessions_def serves_pages_def)

definition two_pages :: "(string, nat) list_rpc" where
  "two_pages cwd cursor ce =
     (if cursor = None then (Inr ([''s1'', ''s2''], Some ''1''), ce) else (Inr ([''s3''], None), ce))"

definition count_yield :: "(string, nat) yield" where
  "count_yield i err ce = (True, snd (on_world_ce (\<lambda>w. ((), w + 1)) ce))"

theorem IterSessions_yields_every_page_witness:
  "IterSessions two_pages (\<lambda>_. None) count_yield (started_client, demo_env) =
     Some (consume count_yield [''s1'', ''s2'', ''s3''] (started_client, demo_env)) \<and>
   he_world (snd (consume count_yield [''s1'', ''s2'', ''s3''] (started_client, demo_env))) = he_world demo_env + 3"
proof -
  have "serves_pages two_pages [[''s1'', ''s2''], [''s3'']] (\<lambda>i. if i = 0 then [] else ''1'')"
    by (auto simp: serves_pages_def two_pages_def less_Suc_eq)
  moreover have "patient (\<lambda>_. None) count_yield" by (simp add: patient_def count_yield_def on_world_ce_def on_world_def)
  moreover have "ensureStarted started_client = None" by (simp add: ensureStarted_def started_client_sel)
  ultimately show ?thesis
    using IterSessions_yields_every_page [of two_pages "[[''s1'', ''s2''], [''s3'']]" "\<lambda>i. if i = 0 then [] else ''1''"
      "\<lambda>_. None" count_yield "(started_client, demo_env)"]
    by (simp add: consume_def count_yield_def on_world_ce_def on_world_def he_world_def)
qed

section \<open>After a crash\<close>



section \<open>The messages of a history\<close>

definition extractMessageChunk :: "SessionUpdate \<Rightarrow> string \<times> string" where
  "extractMessageChunk u =
     (let text_of = (\<lambda>ch. Option.bind ch (\<lambda>k. cb_Text (ck_Content k)))
      in case text_of (su_UserMessageChunk u) of Some t \<Rightarrow> (''user'', t) | None \<Rightarrow>
        (case text_of (su_AgentMessageChunk u) of Some t \<Rightarrow> (''assistant'', t) | None \<Rightarrow>
        (case text_of (su_AgentThoughtChunk u) of Some t \<Rightarrow> (''thought'', t) | None \<Rightarrow> ([], []))))"

record HistoryMessage =
  hm_Role :: string
  hm_Text :: string

text \<open>The state of the loop: the messages so far, the role and the text of the message being built.\<close>

type_synonym history_state = "HistoryMessage list \<times> string \<times> string"

fun flush_message :: "history_state \<Rightarrow> history_state" where
  "flush_message (out, role, text) =
     (if role = [] then (out, role, text)
      else if text = [] then (out, [], [])
      else (out @ [\<lparr>hm_Role = role, hm_Text = text\<rparr>], [], []))"

fun add_chunk :: "SessionNotification \<Rightarrow> history_state \<Rightarrow> history_state" where
  "add_chunk n (out, cur, acc) =
     (case extractMessageChunk (sn_Update n) of
        (role, text) \<Rightarrow>
          if role = [] then (out, cur, acc)
          else (case (if role \<noteq> cur then (case flush_message (out, cur, acc) of (out', _, acc') \<Rightarrow> (out', role, acc'))
                      else (out, cur, acc)) of
                  (out', cur', acc') \<Rightarrow> (out', cur', acc' @ text)))"

definition messagesFromNotifications :: "SessionNotification list \<Rightarrow> HistoryMessage list" where
  "messagesFromNotifications ns =
     (if ns = [] then [] else fst (flush_message (fold add_chunk ns ([], [], []))))"

text \<open>
  The reference: the message-bearing chunks, grouped into maximal runs of one role with their texts
  concatenated, without the runs whose text is empty.
\<close>

definition chunks :: "SessionNotification list \<Rightarrow> (string \<times> string) list" where
  "chunks ns = filter (\<lambda>(r, _). r \<noteq> []) (map (\<lambda>n. extractMessageChunk (sn_Update n)) ns)"

fun runs :: "(string \<times> string) list \<Rightarrow> (string \<times> string) list" where
  "runs [] = []"
| "runs ((r, t) # cs) =
     (case runs cs of
        [] \<Rightarrow> [(r, t)]
      | (r', t') # rs \<Rightarrow> if r = r' then (r, t @ t') # rs else (r, t) # (r', t') # rs)"

definition messages_of_runs :: "(string \<times> string) list \<Rightarrow> HistoryMessage list" where
  "messages_of_runs rs = map (\<lambda>(r, t). \<lparr>hm_Role = r, hm_Text = t\<rparr>) (filter (\<lambda>(_, t). t \<noteq> []) rs)"

lemma runs_head: "cs \<noteq> [] \<Longrightarrow> \<exists>t rs. runs cs = (fst (hd cs), t) # rs"
  by (cases cs rule: runs.cases) (auto split: list.splits)

lemma runs_same: "runs ((r, t) # (r, t') # cs) = runs ((r, t @ t') # cs)"
  by (simp split: list.splits)

lemma runs_other: "r \<noteq> r' \<Longrightarrow> runs ((r, t) # (r', t') # cs) = (r, t) # runs ((r', t') # cs)"
  using runs_head [of "(r', t') # cs"] by auto

lemma messages_of_runs_Cons:
  "messages_of_runs ((r, t) # rs) = (if t = [] then [] else [\<lparr>hm_Role = r, hm_Text = t\<rparr>]) @ messages_of_runs rs"
  by (simp add: messages_of_runs_def)

lemma chunks_Cons:
  "chunks (n # ns) = (case extractMessageChunk (sn_Update n) of (r, t) \<Rightarrow> if r = [] then chunks ns else (r, t) # chunks ns)"
  by (simp add: chunks_def split: prod.splits)

lemma fold_add_chunk:
  "role \<noteq> [] \<or> text = [] \<Longrightarrow>
   fst (flush_message (fold add_chunk ns (out, role, text))) =
     out @ messages_of_runs (runs (if role = [] then chunks ns else (role, text) # chunks ns))"
proof (induction ns arbitrary: out role "text")
  case Nil
  then show ?case by (simp add: chunks_def messages_of_runs_def)
next
  case (Cons n ns)
  obtain r t where x: "extractMessageChunk (sn_Update n) = (r, t)" by (metis prod.exhaust)
  consider "r = []" | "r \<noteq> []" "r = role" | "r \<noteq> []" "r \<noteq> role" "role = []" | "r \<noteq> []" "r \<noteq> role" "role \<noteq> []"
    by blast
  then show ?case
  proof cases
    case 1
    then show ?thesis using Cons by (simp add: x chunks_Cons)
  next
    case 2
    then show ?thesis using Cons.IH [of role "text @ t" out] by (simp add: x chunks_Cons runs_same del: runs.simps)
  next
    case 3
    then show ?thesis using Cons.IH [of r t out] Cons.prems by (simp add: x chunks_Cons del: runs.simps)
  next
    case 4
    then show ?thesis
      using Cons.IH [of r t out] Cons.IH [of r t "out @ [\<lparr>hm_Role = role, hm_Text = text\<rparr>]"]
      by (simp add: x chunks_Cons runs_other messages_of_runs_Cons del: runs.simps)
  qed
qed

lemma messages_are_runs: "messagesFromNotifications ns = messages_of_runs (runs (chunks ns))"
  using fold_add_chunk [of "[]" "[]" ns "[]"]
  by (simp add: messagesFromNotifications_def) (simp add: chunks_def messages_of_runs_def)

lemma runs_alternate: "distinct_adj (map fst (runs cs))"
  by (induction cs rule: runs.induct) (auto split: list.splits)

lemma runs_texts: "concat (map snd (filter (\<lambda>(r, _). r = role) (runs cs))) = concat (map snd (filter (\<lambda>(r, _). r = role) cs))"
  by (induction cs rule: runs.induct) (auto split: list.splits)

lemma messages_texts:
  "concat (map hm_Text (filter (\<lambda>m. hm_Role m = role) (messages_of_runs rs))) =
   concat (map snd (filter (\<lambda>(r, _). r = role) rs))"
  by (induction rs) (auto simp: messages_of_runs_def)

text \<open>
  C24: The messages of a history are the grouping of its chunks: maximal runs of one role, none empty; and
  nothing any role said is lost, repeated or reordered.
\<close>

theorem history_messages_are_the_grouping:
  "messagesFromNotifications ns = messages_of_runs (runs (chunks ns)) \<and> distinct_adj (map fst (runs (chunks ns))) \<and>
   concat (map hm_Text (filter (\<lambda>m. hm_Role m = role) (messagesFromNotifications ns))) =
     concat (map snd (filter (\<lambda>(r, _). r = role) (chunks ns)))"
  by (simp only: messages_are_runs runs_alternate messages_texts runs_texts)

section \<open>Loading with the history\<close>

text \<open>
  Each round of \<open>drainReplay\<close> selects one case that is ready: a receive from the session's channel, or
  the end (the context is done or no notification came for the grace period). A schedule lists what
  happens, with the steps of the peer in between; \<open>None\<close> is a schedule that does not fit (a receive
  with nothing to receive, or no end).
\<close>

datatype 'w drain_step = DrainRecv | DrainPeer "'w ce \<Rightarrow> 'w ce" | DrainDone

fun drainReplay :: "'w drain_step list \<Rightarrow> nat \<Rightarrow> 'w ce \<Rightarrow> (SessionNotification list \<times> 'w ce) option" where
  "drainReplay [] p ce = None"
| "drainReplay (DrainDone # ks) p ce = Some ([], ce)"
| "drainReplay (DrainPeer f # ks) p ce = drainReplay ks p (f ce)"
| "drainReplay (DrainRecv # ks) p ce =
     (case chan_try_recv (s_updates (c_store (fst ce) p)) of
        None \<Rightarrow> None
      | Some (None, _) \<Rightarrow> Some ([], ce)
      | Some (Some n, ch) \<Rightarrow>
          map_option (apfst ((#) n)) (drainReplay ks p (update_session p (\<lambda>s. s\<lparr>s_updates := ch\<rparr>) ce)))"

record SessionHistory =
  hi_Session :: nat
  hi_Notifications :: "SessionNotification list"
  hi_Messages :: "HistoryMessage list"
  hi_Usage :: "UsageUpdate option"

definition last_usage :: "SessionNotification list \<Rightarrow> UsageUpdate option" where
  "last_usage ns =
     fold (\<lambda>n acc. case su_UsageUpdate (sn_Update n) of Some u \<Rightarrow> Some u | None \<Rightarrow> acc) ns None"

definition LoadSessionHistory :: "'w conn \<Rightarrow> rat \<Rightarrow> rat \<Rightarrow> goerr option \<Rightarrow> 'w drain_step list \<Rightarrow> string \<Rightarrow> 'w opt list \<Rightarrow>
    'w ce \<Rightarrow> ((goerr + SessionHistory) \<times> 'w ce) option" where
  "LoadSessionHistory cn t0 t1 ctxErr sched sid opts ce =
     (case LoadSession cn t0 t1 ctxErr sid opts ce of
        None \<Rightarrow> None
      | Some (Inl err, ce1) \<Rightarrow> Some (Inl err, ce1)
      | Some (Inr p, ce1) \<Rightarrow>
          map_option (\<lambda>(ns, ce2).
            (Inr \<lparr>hi_Session = p, hi_Notifications = ns, hi_Messages = messagesFromNotifications ns,
                  hi_Usage = last_usage ns\<rparr>, ce2))
            (drainReplay sched p ce1))"

lemma drain_conserves:
  assumes "drainReplay sched p ce = Some (ns, ce')" and "\<forall>k \<in> set sched. \<forall>f. k \<noteq> DrainPeer f"
  shows "ch_buf (s_updates (c_store (fst ce) p)) = ns @ ch_buf (s_updates (c_store (fst ce') p))"
  using assms
proof (induction sched p ce arbitrary: ns rule: drainReplay.induct)
  case (4 ks p ce)
  obtain r ch where r: "chan_try_recv (s_updates (c_store (fst ce) p)) = Some (r, ch)"
    using "4.prems" by (cases "chan_try_recv (s_updates (c_store (fst ce) p))") auto
  show ?case
  proof (cases r)
    case None
    then show ?thesis using "4.prems" r by auto
  next
    case (Some n)
    let ?ce = "update_session p (\<lambda>s. s\<lparr>s_updates := ch\<rparr>) ce"
    obtain ms where "drainReplay ks p ?ce = Some (ms, ce')" "ns = n # ms"
      using "4.prems"(1) r Some by auto
    moreover have "ch_buf (s_updates (c_store (fst ?ce) p)) = ch_buf ch"
      by (simp add: update_session_def split: prod.splits)
    ultimately show ?thesis
      using "4.IH" [OF r refl Some] "4.prems"(2) ch.recv_contents [OF r [unfolded Some]] by simp
  qed
qed auto

text \<open>
  A loaded history accounts for the replay: the notifications are, in order, what the channel of the
  loaded session held when the load returned, less what is still in it, and the usage is that of the
  last notification that carries one.
\<close>

lemma last_usage_app: "last_usage (ns @ [n]) = (case su_UsageUpdate (sn_Update n) of Some u \<Rightarrow> Some u | None \<Rightarrow> last_usage ns)"
  by (cases "su_UsageUpdate (sn_Update n)") (simp_all add: last_usage_def)

lemma last_usage_find:
  "last_usage ns = Option.bind (find (\<lambda>n. su_UsageUpdate (sn_Update n) \<noteq> None) (rev ns)) (\<lambda>n. su_UsageUpdate (sn_Update n))"
  by (induction ns rule: rev_induct) (auto simp: last_usage_app last_usage_def [of "[]"] split: option.splits)

theorem history_accounts_for_the_replay:
  assumes "LoadSessionHistory cn t0 t1 x sched sid opts ce = Some (Inr hist, ce2)"
    and "\<forall>k \<in> set sched. \<forall>f. k \<noteq> DrainPeer f"
  shows "\<exists>ce1. LoadSession cn t0 t1 x sid opts ce = Some (Inr (hi_Session hist), ce1) \<and>
    ch_buf (s_updates (c_store (fst ce1) (hi_Session hist))) =
      hi_Notifications hist @ ch_buf (s_updates (c_store (fst ce2) (hi_Session hist))) \<and>
    hi_Messages hist = messages_of_runs (runs (chunks (hi_Notifications hist))) \<and>
    hi_Usage hist = Option.bind (find (\<lambda>n. su_UsageUpdate (sn_Update n) \<noteq> None) (rev (hi_Notifications hist)))
      (\<lambda>n. su_UsageUpdate (sn_Update n))"
proof -
  obtain p ce1 ns where "LoadSession cn t0 t1 x sid opts ce = Some (Inr p, ce1)" "drainReplay sched p ce1 = Some (ns, ce2)"
    "hist = \<lparr>hi_Session = p, hi_Notifications = ns, hi_Messages = messagesFromNotifications ns, hi_Usage = last_usage ns\<rparr>"
    using assms(1) by (auto simp: LoadSessionHistory_def split: option.splits prod.splits sum.splits)
  then show ?thesis using drain_conserves [OF _ assms(2)] by (auto simp: messages_are_runs last_usage_find)
qed

text \<open>An agent that replays two notifications while it loads the session.\<close>

definition replayed :: "string \<Rightarrow> SessionNotification" where
  "replayed t = \<lparr>sn_SessionId = ''s1'', sn_Update = no_update\<lparr>su_UserMessageChunk :=
     Some \<lparr>ck_Content = text_block t, ck_MessageId = None\<rparr>\<rparr>, sn_Meta = None\<rparr>"

definition replay_conn :: "nat conn" where
  "replay_conn = demo_conn\<lparr>cn_loadSession := (\<lambda>_ ce.
     (Inr \<lparr>rs_SessionId = ''s1'', rs_Models = None, rs_Modes = None, rs_ConfigOptions = JNull, rs_Meta = None\<rparr>,
      update_session 0 (\<lambda>s. s\<lparr>s_updates := (s_updates s)\<lparr>ch_buf := [replayed ''a'', replayed ''b'']\<rparr>\<rparr>) ce))\<rparr>"

theorem history_accounts_for_the_replay_witness:
  "\<exists>hist ce2. LoadSessionHistory replay_conn 0 0 None [DrainRecv, DrainRecv, DrainDone] ''s1'' [] (started_client, demo_env) =
      Some (Inr hist, ce2) \<and>
    hi_Messages hist = messages_of_runs (runs (chunks (hi_Notifications hist))) \<and>
    hi_Notifications hist = [replayed ''a'', replayed ''b'']"
proof -
  have "\<exists>hist ce2. LoadSessionHistory replay_conn 0 0 None [DrainRecv, DrainRecv, DrainDone] ''s1'' [] (started_client, demo_env) =
      Some (Inr hist, ce2) \<and> hi_Notifications hist = [replayed ''a'', replayed ''b'']"
    by (simp add: LoadSessionHistory_def LoadSession_def call_defs started_client_sel replay_conn_def demo_conn_def
        defaultOptions_def Let_def chan_try_recv_def update_session_def)
  then obtain hist ce2 where h: "LoadSessionHistory replay_conn 0 0 None [DrainRecv, DrainRecv, DrainDone] ''s1'' [] (started_client, demo_env) =
      Some (Inr hist, ce2)" "hi_Notifications hist = [replayed ''a'', replayed ''b'']" by blast
  with history_accounts_for_the_replay [OF h(1)] show ?thesis by auto
qed

end
