(* ===== verification/Query.thy ===== *)
theory Query
  imports History
begin

text \<open>
  The one-shot entry points (\<open>with_client.go\<close>, \<open>models.go\<close>, \<open>query.go\<close>): a client around a function,
  listing the models, one prompt or a series of prompts on one session.

  A prompt turn is two goroutines: the caller's, which runs \<open>Prompt\<close> and then waits, and one that
  drains the session's channel. They are a step relation here, in which an \<open>append\<close> to the shared
  slice is a read of the slice followed by a write, as nothing in the code makes it atomic.
\<close>

section \<open>A client around a function\<close>

definition close_then :: "'w conn \<Rightarrow> 'r \<Rightarrow> 'w ce \<Rightarrow> ('r \<times> 'w client option \<times> 'w henv) option" where
  "close_then cn r ce = map_option (\<lambda>(_, (c, e)). (r, Some c, e)) (Close cn ce)"

text \<open>
  The error the function returns and what it leaves in its closure are one sum; the client is
  \<open>None\<close> when none was created.
\<close>

definition WithClient :: "'w conn \<Rightarrow> 'w ToolDef \<Rightarrow> rat \<Rightarrow> goerr option \<Rightarrow>
    ('w ce \<Rightarrow> ((goerr + 'r) \<times> 'w ce) option) option \<Rightarrow> 'w opt list \<Rightarrow> 'w heap \<Rightarrow> 'w henv \<Rightarrow>
    ((goerr + 'r) \<times> 'w client option \<times> 'w henv) option" where
  "WithClient cn ask d ctxErr fn opts h e =
     (case fn of
        None \<Rightarrow> Some (Inl (ENew ''opencodesdk: WithClient fn is nil''), None, e)
      | Some f \<Rightarrow>
          (case ctxErr of
             Some err \<Rightarrow> Some (Inl err, None, e)
           | None \<Rightarrow>
               (case NewClient cn opts h of
                  Inl err \<Rightarrow> Some (Inl (errorf_s_w ''opencodesdk: NewClient'' err), None, e)
                | Inr c \<Rightarrow>
                    (case Start cn ask d (c, e) of
                       (Some err, ce1) \<Rightarrow> close_then cn (Inl (errorf_s_w ''opencodesdk: Client.Start'' err)) ce1
                     | (None, ce1) \<Rightarrow> Option.bind (f ce1) (\<lambda>(r, ce2). close_then cn r ce2)))))"

record ListModelsResponse =
  lm_Models :: "string list"
  lm_CurrentModelID :: string

definition list_models_of :: "'w session \<Rightarrow> ListModelsResponse" where
  "list_models_of s = \<lparr>lm_Models = AvailableModels s,
     lm_CurrentModelID = (case s_initialModels s of None \<Rightarrow> [] | Some m \<Rightarrow> mo_CurrentModelId m)\<rparr>"

definition list_models_fn :: "'w conn \<Rightarrow> rat \<Rightarrow> rat \<Rightarrow> goerr option \<Rightarrow> 'w ce \<Rightarrow> ((goerr + ListModelsResponse) \<times> 'w ce) option" where
  "list_models_fn cn t0 t1 x ce =
     map_option (\<lambda>(r, ce'). case r of
         Inl err \<Rightarrow> (Inl (errorf_s_w ''opencodesdk: ListModels: open session'' err), ce')
       | Inr p \<Rightarrow> (Inr (list_models_of (c_store (fst ce') p)), ce'))
       (NewSession cn t0 t1 x [] ce)"

definition ListModelsResponseFor :: "'w conn \<Rightarrow> 'w ToolDef \<Rightarrow> rat \<Rightarrow> rat \<Rightarrow> rat \<Rightarrow> goerr option \<Rightarrow> goerr option \<Rightarrow>
    'w opt list \<Rightarrow> 'w heap \<Rightarrow> 'w henv \<Rightarrow> ((goerr + ListModelsResponse) \<times> 'w client option \<times> 'w henv) option" where
  "ListModelsResponseFor cn ask d t0 t1 ctxErr x opts h e =
     WithClient cn ask d ctxErr (Some (list_models_fn cn t0 t1 x)) opts h e"

definition ListModels :: "'w conn \<Rightarrow> 'w ToolDef \<Rightarrow> rat \<Rightarrow> rat \<Rightarrow> rat \<Rightarrow> goerr option \<Rightarrow> goerr option \<Rightarrow>
    'w opt list \<Rightarrow> 'w heap \<Rightarrow> 'w henv \<Rightarrow> ((goerr + string list) \<times> 'w client option \<times> 'w henv) option" where
  "ListModels cn ask d t0 t1 ctxErr x opts h e =
     map_option (apfst (map_sum id lm_Models)) (ListModelsResponseFor cn ask d t0 t1 ctxErr x opts h e)"

section \<open>One prompt, or a series\<close>

text \<open>
  \<open>turn p blocks\<close> is the outcome of one \<open>runTurn\<close> on session \<open>p\<close>, one of those the step relation
  below allows.
\<close>

type_synonym 'w turn = "nat \<Rightarrow> ContentBlock list \<Rightarrow> 'w ce \<Rightarrow> (goerr + QueryResult) \<times> 'w ce"

definition query_fn :: "'w conn \<Rightarrow> rat \<Rightarrow> rat \<Rightarrow> goerr option \<Rightarrow> 'w turn \<Rightarrow> ContentBlock list \<Rightarrow> 'w ce \<Rightarrow>
    ((goerr + QueryResult) \<times> 'w ce) option" where
  "query_fn cn t0 t1 x turn blocks ce =
     map_option (\<lambda>(r, ce'). case r of Inl err \<Rightarrow> (Inl err, ce') | Inr p \<Rightarrow> turn p blocks ce')
       (NewSession cn t0 t1 x [] ce)"

definition QueryContent :: "'w conn \<Rightarrow> 'w ToolDef \<Rightarrow> rat \<Rightarrow> rat \<Rightarrow> rat \<Rightarrow> goerr option \<Rightarrow> goerr option \<Rightarrow> 'w turn \<Rightarrow>
    ContentBlock list \<Rightarrow> 'w opt list \<Rightarrow> 'w heap \<Rightarrow> 'w henv \<Rightarrow> ((goerr + QueryResult) \<times> 'w client option \<times> 'w henv) option" where
  "QueryContent cn ask d t0 t1 ctxErr x turn blocks opts h e =
     (if blocks = [] then Some (Inl (ENew ''opencodesdk: QueryContent requires at least one content block''), None, e)
      else WithClient cn ask d ctxErr (Some (query_fn cn t0 t1 x turn blocks)) opts h e)"

definition Query :: "'w conn \<Rightarrow> 'w ToolDef \<Rightarrow> rat \<Rightarrow> rat \<Rightarrow> rat \<Rightarrow> goerr option \<Rightarrow> goerr option \<Rightarrow> 'w turn \<Rightarrow>
    string \<Rightarrow> 'w opt list \<Rightarrow> 'w heap \<Rightarrow> 'w henv \<Rightarrow> ((goerr + QueryResult) \<times> 'w client option \<times> 'w henv) option" where
  "Query cn ask d t0 t1 ctxErr x turn prompt opts h e =
     QueryContent cn ask d t0 t1 ctxErr x turn [text_block prompt] opts h e"

text \<open>
  The loop over the prompts an iterator produces; \<open>yd\<close> is the body of the caller's loop, which has
  no access to the client.
\<close>

type_synonym 'w result_yield = "QueryResult option \<Rightarrow> goerr option \<Rightarrow> 'w henv \<Rightarrow> bool \<times> 'w henv"

definition yields :: "'w result_yield \<Rightarrow> QueryResult option \<Rightarrow> goerr option \<Rightarrow> 'w ce \<Rightarrow> bool \<times> 'w ce" where
  "yields yd r err ce = (case yd r err (snd ce) of (go, e) \<Rightarrow> (go, (fst ce, e)))"

fun stream_turns :: "'w turn \<Rightarrow> ('w ce \<Rightarrow> goerr option) \<Rightarrow> 'w result_yield \<Rightarrow> nat \<Rightarrow> ContentBlock list list \<Rightarrow>
    'w ce \<Rightarrow> 'w ce" where
  "stream_turns turn ctxErr yd p [] ce = ce"
| "stream_turns turn ctxErr yd p (blocks # rest) ce =
     (case ctxErr ce of
        Some err \<Rightarrow> snd (yields yd None (Some err) ce)
      | None \<Rightarrow>
          if blocks = []
          then snd (yields yd None (Some (ENew ''opencodesdk: QueryStreamContent: empty prompt'')) ce)
          else (case turn p blocks ce of
                  (Inl err, ce') \<Rightarrow> snd (yields yd None (Some err) ce')
                | (Inr res, ce') \<Rightarrow>
                    (case yields yd (Some res) None ce' of
                       (go, ce'') \<Rightarrow> if go then stream_turns turn ctxErr yd p rest ce'' else ce'')))"

definition QueryStreamContent :: "'w conn \<Rightarrow> 'w ToolDef \<Rightarrow> rat \<Rightarrow> rat \<Rightarrow> rat \<Rightarrow> ('w ce \<Rightarrow> goerr option) \<Rightarrow> goerr option \<Rightarrow>
    'w turn \<Rightarrow> 'w result_yield \<Rightarrow> ContentBlock list list \<Rightarrow> 'w opt list \<Rightarrow> 'w heap \<Rightarrow> 'w henv \<Rightarrow>
    (unit \<times> 'w client option \<times> 'w henv) option" where
  "QueryStreamContent cn ask d t0 t1 ctxErr x turn yd prompts opts h e =
     (case NewClient cn opts h of
        Inl err \<Rightarrow> Some ((), None, snd (yd None (Some err) e))
      | Inr c \<Rightarrow>
          (case Start cn ask d (c, e) of
             (Some err, ce1) \<Rightarrow>
               close_then cn () (snd (yields yd None (Some (errorf_s_w ''opencodesdk: Client.Start'' err)) ce1))
           | (None, ce1) \<Rightarrow>
               Option.bind (NewSession cn t0 t1 x [] ce1) (\<lambda>(r, ce2).
                 case r of
                   Inl err \<Rightarrow>
                     close_then cn () (snd (yields yd None (Some (errorf_s_w ''opencodesdk: NewSession'' err)) ce2))
                 | Inr p \<Rightarrow> close_then cn () (stream_turns turn ctxErr yd p prompts ce2))))"

definition PromptsFromStrings :: "string list \<Rightarrow> ContentBlock list list" where
  "PromptsFromStrings prompts = map (\<lambda>p. [text_block p]) prompts"

definition SinglePrompt :: "ContentBlock list \<Rightarrow> ContentBlock list list" where
  "SinglePrompt blocks = (if blocks = [] then [] else [blocks])"

definition QueryStream :: "'w conn \<Rightarrow> 'w ToolDef \<Rightarrow> rat \<Rightarrow> rat \<Rightarrow> rat \<Rightarrow> ('w ce \<Rightarrow> goerr option) \<Rightarrow> goerr option \<Rightarrow>
    'w turn \<Rightarrow> 'w result_yield \<Rightarrow> string list \<Rightarrow> 'w opt list \<Rightarrow> 'w heap \<Rightarrow> 'w henv \<Rightarrow>
    (unit \<times> 'w client option \<times> 'w henv) option" where
  "QueryStream cn ask d t0 t1 ctxErr x turn yd prompts opts h e =
     QueryStreamContent cn ask d t0 t1 ctxErr x turn yd (PromptsFromStrings prompts) opts h e"

section \<open>Nothing is left running\<close>

text \<open>
  What is assumed of the connection while a client starts and closes: it answers without reaching
  into the client (no session exists that a notification could be routed to).
\<close>

definition quiet_start :: "'w conn \<Rightarrow> bool" where
  "quiet_start cn \<longleftrightarrow> (\<forall>n. quiet (cn_newBridge cn n)) \<and> quiet (cn_startBridge cn) \<and> quiet (cn_factory cn) \<and>
     quiet (cn_discover cn) \<and> (\<forall>p a env. quiet (cn_spawn cn p a env)) \<and> (\<forall>q. quiet (cn_initialize cn q)) \<and>
     quiet (cn_closeTransport cn) \<and> (\<forall>b. quiet (cn_closeBridge cn b))"

lemma quietD: "quiet f \<Longrightarrow> f ce = (r, ce') \<Longrightarrow> fst ce' = fst ce"
  unfolding quiet_def by (metis snd_conv)

lemma quiet_startD:
  assumes "quiet_start cn"
  shows "cn_newBridge cn n ce = (r1, ce') \<Longrightarrow> fst ce' = fst ce"
    "cn_startBridge cn ce = (r2, ce') \<Longrightarrow> fst ce' = fst ce"
    "cn_factory cn ce = (r3, ce') \<Longrightarrow> fst ce' = fst ce"
    "cn_discover cn ce = (r4, ce') \<Longrightarrow> fst ce' = fst ce"
    "cn_spawn cn p a env ce = (r5, ce') \<Longrightarrow> fst ce' = fst ce"
    "cn_initialize cn q ce = (r6, ce') \<Longrightarrow> fst ce' = fst ce"
    "cn_closeTransport cn ce = (r7, ce') \<Longrightarrow> fst ce' = fst ce"
  using assms unfolding quiet_start_def by (metis quietD)+

text \<open>The part of a client that starting it does not touch.\<close>

definition core :: "'w client \<Rightarrow> bool \<times> (nat \<Rightarrow> 'w session) \<times> nat \<times> (string \<times> nat) list \<times> (string \<times> SessionNotification list) list" where
  "core c = (c_closed c, c_store c, c_nextPtr c, c_sessions c, c_pending c)"

lemma core_reg_inv: "core c = core c' \<Longrightarrow> reg_inv c \<longleftrightarrow> reg_inv c'"
  by (simp add: core_def reg_inv_def)

lemma core_sel: "core c = core c' \<Longrightarrow> c_closed c = c_closed c' \<and> c_sessions c = c_sessions c'"
  by (simp add: core_def)

lemma start_bridge_core:
  assumes "quiet_start cn" "start_bridge cn names ce = (r, ce')"
  shows "core (fst ce') = core (fst ce)"
proof (cases "names = []")
  case False
  obtain r1 ce1 where n: "cn_newBridge cn names ce = (r1, ce1)" by (metis prod.exhaust)
  obtain r2 c2 e2 where b: "cn_startBridge cn ce1 = (r2, (c2, e2))" by (metis prod.exhaust)
  show ?thesis
    using quiet_startD(1) [OF assms(1) n] quiet_startD(2) [OF assms(1) b] n b assms(2) False
    by (cases r1; cases r2) (auto simp: start_bridge_def core_def)
qed (use assms in \<open>simp add: start_bridge_def\<close>)

lemma buildTransport_core:
  assumes "quiet_start cn" "buildTransport cn ce = (r, ce')"
  shows "core (fst ce') = core (fst ce)"
proof (cases "o_customTransport (c_opts (fst ce))")
  case True
  obtain r1 ce1 where f: "cn_factory cn ce = (r1, ce1)" by (metis prod.exhaust)
  show ?thesis using quiet_startD(3) [OF assms(1) f] f True assms(2)
    by (auto simp: buildTransport_def core_def split: sum.splits bool.splits)
next
  case False
  obtain r1 ce1 where d: "cn_discover cn ce = (r1, ce1)" by (metis prod.exhaust)
  show ?thesis
  proof (cases r1)
    case (Inr pv)
    obtain r2 c2 e2 where sp: "cn_spawn cn (fst pv) (subprocessArgs (fst ce1)) (subprocessEnv (fst ce1))
        (open_subprocess_span (fst pv) ce1) = (r2, (c2, e2))" by (metis prod.exhaust)
    show ?thesis using Inr d sp False assms(2) quiet_startD(4) [OF assms(1) d] quiet_startD(5) [OF assms(1) sp]
      by (cases pv; cases r2) (auto simp: buildTransport_def core_def)
  qed (use d quiet_startD(4) [OF assms(1) d] False assms(2) in \<open>auto simp: buildTransport_def\<close>)
qed

lemma client_initialize_core:
  assumes "quiet_start cn" "client_initialize cn d ce = (r, ce')"
  shows "core (fst ce') = core (fst ce)"
proof -
  obtain k e0 where k: "on_spans StartInitializeSpan (snd ce) = (k, e0)" by (metis prod.exhaust)
  obtain r1 c1 e1 where i: "cn_initialize cn (client_caps (c_opts (fst ce))) (fst ce, e0) = (r1, (c1, e1))"
    by (metis prod.exhaust)
  show ?thesis using k i quiet_startD(6) [OF assms(1) i] assms(2)
    by (cases r1) (auto simp: client_initialize_def core_def)
qed

lemma assemble_core: "assembleBridgeTools ask c = (r, c') \<Longrightarrow> core c' = core c"
  by (auto simp: assembleBridgeTools_def core_def Let_def split: sum.splits option.splits if_splits)

lemma Start_core:
  assumes q: "quiet_start cn" and s: "Start cn ask d ce = (r, ce')"
  shows "core (fst ce') = core (fst ce)"
proof (cases "c_started (fst ce) \<or> c_closed (fst ce)")
  case False
  obtain ar c1 where a: "assembleBridgeTools ask (fst ce) = (ar, c1)" by (metis prod.exhaust)
  show ?thesis
  proof (cases ar)
    case (Inr defs)
    obtain br ce2 where b: "start_bridge cn (map td_Name defs) (c1, snd ce) = (br, ce2)" by (metis prod.exhaust)
    obtain tr c3 e3 where t: "buildTransport cn ce2 = (tr, (c3, e3))" by (metis prod.exhaust)
    obtain ir c4 e4 where i: "client_initialize cn d (c3\<lparr>c_transport := True\<rparr>, e3) = (ir, (c4, e4))"
      by (metis prod.exhaust)
    obtain xr c5 e5 where x: "cn_closeTransport cn (c4, e4) = (xr, (c5, e5))" by (metis prod.exhaust)
    have c: "core c1 = core (fst ce)" "core (fst ce2) = core c1" "core c3 = core (fst ce2)" "core c4 = core c3" "c5 = c4"
      using assemble_core [OF a] start_bridge_core [OF q b] buildTransport_core [OF q t] client_initialize_core [OF q i]
        quiet_startD(7) [OF q x] by (simp_all add: core_def)
    show ?thesis using s False a b t i x Inr c
      by (cases br; cases tr; cases ir) (auto simp: Start_def core_def)
  qed (use s False a assemble_core [OF a] in \<open>auto simp: Start_def\<close>)
qed (use s in \<open>cases "c_started (fst ce)"; auto simp: Start_def\<close>)

lemma NewClient_core: "NewClient cn opts h = Inr c \<Longrightarrow> core c = core (newClient (apply_options opts h))"
  by (auto simp: NewClient_def core_def Let_def split: sum.splits)

lemma started_fresh:
  assumes "quiet_start cn" "NewClient cn opts h = Inr c" "Start cn ask d (c, e) = (r, (c1, e1))"
  shows "reg_inv c1 \<and> \<not> c_closed c1 \<and> c_sessions c1 = []"
proof -
  let ?oh = "apply_options opts h"
  have "core c1 = core (newClient ?oh)" using Start_core [OF assms(1,3)] NewClient_core [OF assms(2)] by simp
  then show ?thesis
    using core_reg_inv [of c1 "newClient ?oh"] core_sel [of c1 "newClient ?oh"] reg_inv_new [of ?oh]
    by (simp add: newClient_sel) (simp add: newClient_def split: prod.splits)
qed

text \<open>
  What a function run by \<open>WithClient\<close> may do to the client: keep the registry sound, and close it
  only the way a crash does, with no session left in the table.
\<close>

definition orderly :: "'w client \<Rightarrow> bool" where
  "orderly c \<longleftrightarrow> reg_inv c \<and> (c_closed c \<longrightarrow> c_sessions c = [])"

definition well_behaved :: "('w ce \<Rightarrow> (('r) \<times> 'w ce) option) \<Rightarrow> bool" where
  "well_behaved f \<longleftrightarrow> (\<forall>c e. reg_inv c \<and> \<not> c_closed c \<longrightarrow> (\<exists>r c' e'. f (c, e) = Some (r, (c', e')) \<and> orderly c'))"

text \<open>The client after a deferred Close.\<close>

definition all_closed :: "'w client \<Rightarrow> 'w client \<Rightarrow> bool" where
  "all_closed c c' \<longleftrightarrow> c_closed c' \<and> c_sessions c' = [] \<and> (\<forall>(i, p) \<in> set (c_sessions c). s_closed (c_store c' p))"

lemma Close_orderly:
  assumes "quiet_start cn" "orderly c"
  obtains r c' e' where "Close cn (c, e) = Some (r, (c', e'))" "all_closed c c'"
proof (cases "c_closed c")
  case True
  then show ?thesis using assms(2) that by (simp add: orderly_def all_closed_def Close_def)
next
  case False
  show ?thesis
    by (rule Close_result [of c cn e]) (use assms False that in \<open>auto simp: orderly_def all_closed_def quiet_start_def\<close>)
qed

text \<open>
  WithClient always closes the client it created: whatever the function does and returns, its result
  is passed on unchanged, and afterwards the client is closed, no session is registered and every
  session that was registered when the function returned is closed; a failed start is reported without
  running the function, and also closed.
\<close>

theorem WithClient_closes:
  assumes "quiet_start cn" and "well_behaved f"
  shows "case NewClient cn opts h of
      Inl err \<Rightarrow> WithClient cn ask d None (Some f) opts h e = Some (Inl (errorf_s_w ''opencodesdk: NewClient'' err), None, e)
    | Inr c \<Rightarrow> \<exists>r c' e'. WithClient cn ask d None (Some f) opts h e = Some (r, Some c', e') \<and>
        (case Start cn ask d (c, e) of
           (Some err, (c1, e1)) \<Rightarrow> r = Inl (errorf_s_w ''opencodesdk: Client.Start'' err) \<and> all_closed c1 c'
         | (None, ce1) \<Rightarrow> (\<exists>c2 e2. f ce1 = Some (r, (c2, e2)) \<and> all_closed c2 c'))"
proof (cases "NewClient cn opts h")
  case nc: (Inr c)
  obtain sr c1 e1 where s: "Start cn ask d (c, e) = (sr, (c1, e1))" by (metis prod.exhaust)
  have i: "reg_inv c1 \<and> \<not> c_closed c1 \<and> c_sessions c1 = []" by (rule started_fresh [OF assms(1) nc s])
  show ?thesis
  proof (cases sr)
    case None
    obtain r c2 e2 where f: "f (c1, e1) = Some (r, (c2, e2))" "orderly c2"
      using assms(2) i unfolding well_behaved_def by blast
    obtain x c' e' where "Close cn (c2, e2) = Some (x, (c', e'))" "all_closed c2 c'"
      using Close_orderly [OF assms(1) f(2)] by metis
    then show ?thesis using nc s f None by (auto simp: WithClient_def close_then_def)
  next
    case (Some err)
    obtain x c' e' where "Close cn (c1, e1) = Some (x, (c', e'))" "all_closed c1 c'"
      by (rule Close_orderly [OF assms(1), of c1 e1]) (use i in \<open>auto simp: orderly_def\<close>)
    then show ?thesis using nc s Some by (auto simp: WithClient_def close_then_def)
  qed
qed (simp add: WithClient_def)

lemma NewSession_total:
  assumes "settling_conn cn" "reg_inv c"
  obtains r c' e' where "NewSession cn t0 t1 x opts (c, e) = Some (r, (c', e'))" "all_or_nothing c r c'"
proof -
  obtain b c1 e1 where b: "begin_call cn opts (c, e) = (b, (c1, e1))" by (metis prod.exhaust)
  show ?thesis
  proof (cases b)
    case (Inl err)
    have "settles c c1" using begin_settles [OF b] by simp
    then have "all_or_nothing c (Inl err) c1" by (rule all_or_nothing_settled) (rule assms(2))
    then show ?thesis by (rule that [rotated]) (simp add: NewSession_def b Inl)
  next
    case (Inr o1)
    then show ?thesis using call_ok(1) [OF assms, of opts e o1 c1 e1 t0 t1 x] b that by blast
  qed
qed

definition settling_turn :: "'w turn \<Rightarrow> bool" where
  "settling_turn turn \<longleftrightarrow> (\<forall>p blocks. settling (turn p blocks))"

lemma settling_turnD: "settling_turn turn \<Longrightarrow> turn p blocks ce = (r, ce') \<Longrightarrow> settles (fst ce) (fst ce')"
  unfolding settling_turn_def by (blast intro: settlingD)

lemma settled_orderly: "settles c c' \<Longrightarrow> reg_inv c \<Longrightarrow> \<not> c_closed c \<Longrightarrow> orderly c'"
  by (simp add: settles_def orderly_def)

lemma query_fn_well_behaved:
  assumes "settling_conn cn" "settling_turn turn"
  shows "well_behaved (query_fn cn t0 t1 x turn blocks)"
  unfolding well_behaved_def
proof (intro allI impI)
  fix c :: "'a client" and e :: "'a henv"
  assume c: "reg_inv c \<and> \<not> c_closed c"
  obtain r c1 e1 where n: "NewSession cn t0 t1 x [] (c, e) = Some (r, (c1, e1))" "all_or_nothing c r c1"
    by (rule NewSession_total [OF assms(1), of c t0 t1 x "[]" e]) (use c in blast)+
  have i: "reg_inv c1" "\<not> c_closed c1" using n(2) c by (simp_all add: all_or_nothing_def)
  show "\<exists>r c' e'. query_fn cn t0 t1 x turn blocks (c, e) = Some (r, (c', e')) \<and> orderly c'"
  proof (cases r)
    case (Inl err)
    then show ?thesis using n(1) i by (simp add: query_fn_def orderly_def)
  next
    case (Inr p)
    obtain r2 c2 e2 where t: "turn p blocks (c1, e1) = (r2, (c2, e2))" by (metis prod.exhaust)
    have "settles c1 c2" using settling_turnD [OF assms(2) t] by simp
    then have "orderly c2" by (rule settled_orderly) (use i in simp_all)
    then show ?thesis using n(1) t Inr by (simp add: query_fn_def)
  qed
qed

lemma QueryContent_closed:
  assumes "quiet_start cn" "settling_conn cn" "settling_turn turn"
  shows "\<exists>r oc e'. QueryContent cn ask d t0 t1 ctxErr x turn blocks opts h e = Some (r, oc, e') \<and>
    (case oc of None \<Rightarrow> \<exists>err. r = Inl err | Some c \<Rightarrow> c_closed c \<and> c_sessions c = [])"
proof (cases "blocks = [] \<or> ctxErr \<noteq> None")
  case True
  then show ?thesis by (auto simp: QueryContent_def WithClient_def)
next
  case False
  let ?f = "query_fn cn t0 t1 x turn blocks"
  have q: "QueryContent cn ask d t0 t1 ctxErr x turn blocks opts h e = WithClient cn ask d None (Some ?f) opts h e"
    using False by (simp add: QueryContent_def)
  note w = WithClient_closes [OF assms(1) query_fn_well_behaved [OF assms(2,3), of t0 t1 x blocks], of ask d opts h e]
  show ?thesis
  proof (cases "NewClient cn opts h")
    case (Inl err)
    then show ?thesis using w q by simp
  next
    case (Inr c)
    then obtain r c' e' where r: "WithClient cn ask d None (Some ?f) opts h e = Some (r, Some c', e')"
      and "case Start cn ask d (c, e) of
           (Some err, (c1, e1)) \<Rightarrow> r = Inl (errorf_s_w ''opencodesdk: Client.Start'' err) \<and> all_closed c1 c'
         | (None, ce1) \<Rightarrow> (\<exists>c2 e2. ?f ce1 = Some (r, (c2, e2)) \<and> all_closed c2 c')"
      using w by auto
    then have "c_closed c' \<and> c_sessions c' = []" by (auto simp: all_closed_def split: prod.splits option.splits)
    then show ?thesis using q r by simp
  qed
qed

text \<open>
  C5: A query leaves nothing running. On an agent whose connection and turns leave the registry alone,
  QueryContent, called with a live context, never panics; unless no client could be made (a refused Prometheus registerer), it
  returns with its client closed and no session registered; when the session was created, its result
  is the turn's and the session is closed.
\<close>

theorem query_leaves_nothing_running:
  assumes "quiet_start cn" and "settling_conn cn" and "settling_turn turn" and "blocks \<noteq> []"
  shows "case NewClient cn opts h of
      Inl err \<Rightarrow> QueryContent cn ask d t0 t1 None x turn blocks opts h e =
        Some (Inl (errorf_s_w ''opencodesdk: NewClient'' err), None, e)
    | Inr c \<Rightarrow> \<exists>r c' e'. QueryContent cn ask d t0 t1 None x turn blocks opts h e = Some (r, Some c', e') \<and>
        c_closed c' \<and> c_sessions c' = [] \<and>
        (\<forall>ce1 p ce2. Start cn ask d (c, e) = (None, ce1) \<and> NewSession cn t0 t1 x [] ce1 = Some (Inr p, ce2) \<longrightarrow>
           r = fst (turn p blocks ce2) \<and> s_closed (c_store c' p))"
proof (cases "NewClient cn opts h")
  case nc: (Inr c)
  let ?f = "query_fn cn t0 t1 x turn blocks"
  obtain sr c1 e1 where s: "Start cn ask d (c, e) = (sr, (c1, e1))" by (metis prod.exhaust)
  have i: "reg_inv c1" "\<not> c_closed c1" using started_fresh [OF assms(1) nc s] by simp_all
  show ?thesis
  proof (cases sr)
    case (Some err)
    obtain y c' e' where "Close cn (c1, e1) = Some (y, (c', e'))" "all_closed c1 c'"
      by (rule Close_orderly [OF assms(1), of c1 e1]) (use i in \<open>auto simp: orderly_def\<close>)
    then show ?thesis using nc s Some assms(4) by (simp add: QueryContent_def WithClient_def close_then_def all_closed_def)
  next
    case None
    obtain r c2 e2 where n: "NewSession cn t0 t1 x [] (c1, e1) = Some (r, (c2, e2))" "all_or_nothing c1 r c2"
      by (rule NewSession_total [OF assms(2) i(1), of t0 t1 x "[]" e1]) blast
    obtain fr c3 e3 where f: "?f (c1, e1) = Some (fr, (c3, e3))" "orderly c3"
      using query_fn_well_behaved [OF assms(2,3), of t0 t1 x blocks] i unfolding well_behaved_def by blast
    obtain y c' e' where cl: "Close cn (c3, e3) = Some (y, (c', e'))" "all_closed c3 c'"
      by (rule Close_orderly [OF assms(1) f(2), of e3]) blast
    have q: "QueryContent cn ask d t0 t1 None x turn blocks opts h e = Some (fr, Some c', e')"
      using nc s None assms(4) f(1) cl(1) by (simp add: QueryContent_def WithClient_def close_then_def)
    have "fr = fst (turn p blocks (c2, e2)) \<and> s_closed (c_store c' p)" if "r = Inr p" for p
    proof -
      have t: "turn p blocks (c2, e2) = (fr, (c3, e3))" using f(1) n(1) that by (simp add: query_fn_def)
      have "settles c2 c3" using settling_turnD [OF assms(3) t] by simp
      moreover have "live p c2" using n(2) that by (auto simp: all_or_nothing_def)
      ultimately have "live p c3" by (simp add: settles_live)
      then have "(s_id (c_store c3 p), p) \<in> set (c_sessions c3)" by (auto simp: live_def lookupSession_def dest: map_of_SomeD)
      then show ?thesis using cl(2) t by (auto simp: all_closed_def)
    qed
    then show ?thesis using nc q cl(2) s None n(1) by (auto simp: all_closed_def)
  qed
qed (use assms(4) in \<open>simp add: QueryContent_def WithClient_def\<close>)

text \<open>An agent that serves sessions, and a turn that answers at once.\<close>

definition agent :: "nat conn" where
  "agent = serving_conn\<lparr>cn_initialize := (\<lambda>_ ce. (Inr \<lparr>ir_Caps = c_caps (fst ce), ir_AuthMethods = [], ir_ProtocolVersion = 1, ir_AgentInfo = None\<rparr>, ce)),
     cn_discover := (\<lambda>ce. (Inr (''/bin/opencode'', ''1.14.20''), ce))\<rparr>"

definition empty_result :: QueryResult where
  "empty_result = \<lparr>qr_SessionID = ''s1'', qr_AssistantText = ''hi'', qr_StopReason = ''end_turn'', qr_Usage = None, qr_Notifications = []\<rparr>"

definition quick_turn :: "nat turn" where
  "quick_turn p blocks ce = (Inr empty_result, ce)"

lemma agent_ok: "quiet_start agent" "settling_conn agent" "settling_turn quick_turn"
  by (simp_all add: quiet_start_def quiet_def settling_conn_def settling_turn_def settling_def agent_def serving_conn_def
      demo_conn_def quick_turn_def)

lemma agent_client: "\<exists>c. NewClient agent [] h = Inr c"
  by (simp add: NewClient_def resolveMeterProvider_def apply_options_def defaultOptions_def Let_def)

theorem query_leaves_nothing_running_witness:
  "\<exists>r c' e'. QueryContent agent demo_ask 0 0 0 None None quick_turn [text_block ''hello''] [] demo_heap demo_env = Some (r, Some c', e') \<and>
     c_closed c' \<and> c_sessions c' = []"
proof -
  obtain c where "NewClient agent [] demo_heap = Inr c" using agent_client by blast
  then show ?thesis
    using query_leaves_nothing_running [OF agent_ok, of "[text_block ''hello'']" demo_ask 0 0 0 None "[]" demo_heap demo_env]
    by auto
qed

theorem WithClient_closes_witness:
  "\<exists>r c' e'. WithClient agent demo_ask 0 None (Some (query_fn agent 0 0 None quick_turn [text_block ''hello''])) [] demo_heap demo_env =
     Some (r, Some c', e') \<and> c_closed c'"
proof -
  let ?f = "query_fn agent 0 0 None quick_turn [text_block ''hello'']"
  obtain c where c: "NewClient agent [] demo_heap = Inr c" using agent_client by blast
  have "case NewClient agent [] demo_heap of
      Inl err \<Rightarrow> True
    | Inr c \<Rightarrow> \<exists>r c' e'. WithClient agent demo_ask 0 None (Some ?f) [] demo_heap demo_env = Some (r, Some c', e') \<and> c_closed c'"
    using WithClient_closes [OF agent_ok(1) query_fn_well_behaved [OF agent_ok(2,3)], of demo_ask 0 0 0 None "[text_block ''hello'']" "[]"
        demo_heap demo_env]
    by (fastforce simp: c all_closed_def split: option.splits prod.splits)
  then show ?thesis by (simp add: c)
qed

section \<open>A turn\<close>

text \<open>
  The draining goroutine: it listens until it sees the stop signal, then drains what is queued; while
  it captures a notification it has read the slice and not yet written it (the flag says whether it
  has seen the signal). The calling goroutine: in \<open>Prompt\<close>; back from it; in its own append, with
  the slice it has read; in the grace period; it has closed \<open>stop\<close>; it has received from \<open>done\<close>.
  \<open>tr_ctx\<close>: the context is done; \<open>tr_answered\<close>: what ends the request of \<open>Prompt\<close> has come, the agent's
  answer or the loss of the connection.
\<close>

datatype drain_pc = Listening | Draining | Capturing SessionNotification "SessionNotification list" bool | Drained

datatype main_pc = InPrompt | Prompted | Appending "SessionNotification list" | Waiting | Stopped | Returned

record turn_state =
  tr_chan :: "SessionNotification chan"
  tr_notes :: "SessionNotification list"
  tr_text :: string
  tr_ctx :: bool
  tr_answered :: bool
  tr_main :: main_pc
  tr_drain :: drain_pc

definition turn_start :: "SessionNotification chan \<Rightarrow> turn_state" where
  "turn_start ch = \<lparr>tr_chan = ch, tr_notes = [], tr_text = [], tr_ctx = False, tr_answered = False, tr_main = InPrompt, tr_drain = Listening\<rparr>"

definition agent_text :: "SessionNotification \<Rightarrow> string" where
  "agent_text n = (case su_AgentMessageChunk (sn_Update n) of None \<Rightarrow> [] | Some k \<Rightarrow> str_or (cb_Text (ck_Content k)))"

text \<open>What the caller appends itself when the result of \<open>Prompt\<close> carries a structured payload.\<close>

definition payload_of :: "goerr + PromptResult \<Rightarrow> json option" where
  "payload_of res = (case res of Inl _ \<Rightarrow> None | Inr r \<Rightarrow> meta_get (res_Meta r) structuredOutputMetaKey)"

definition payload_note :: "json \<Rightarrow> SessionNotification" where
  "payload_note p = \<lparr>sn_SessionId = [], sn_Update = no_update, sn_Meta = Some [(structuredOutputMetaKey, p)]\<rparr>"

text \<open>
  \<open>Prompt\<close> blocks until its request is over; it can also return, with an error, because the context is
  done.
\<close>

definition prompt_over :: "goerr + PromptResult \<Rightarrow> turn_state \<Rightarrow> bool" where
  "prompt_over res s \<longleftrightarrow> tr_answered s \<or> tr_ctx s \<and> isl res"

text \<open>
  One step of the turn, for a \<open>Prompt\<close> that returns \<open>res\<close> if it returns. The label tells whose step it
  is: one of the two goroutines' own, the delivery of a notification, or another step of the
  surroundings (the channel is closed, the context cancelled, the request answered). That the grace
  period passes is no step of the surroundings, since a timer needs nobody.
\<close>

datatype turn_label = Own | Arrives SessionNotification | Outside

inductive turn_step :: "goerr + PromptResult \<Rightarrow> turn_state \<Rightarrow> turn_label \<Rightarrow> turn_state \<Rightarrow> bool"
  for res where
  arrive: "chan_try_send n (tr_chan s) = Sent ch \<Longrightarrow> turn_step res s (Arrives n) (s\<lparr>tr_chan := ch\<rparr>)"
| closing: "chan_close (tr_chan s) = Some ch \<Longrightarrow> turn_step res s Outside (s\<lparr>tr_chan := ch\<rparr>)"
| cancelled: "turn_step res s Outside (s\<lparr>tr_ctx := True\<rparr>)"
| answered: "turn_step res s Outside (s\<lparr>tr_answered := True\<rparr>)"
| listen: "tr_drain s = Listening \<Longrightarrow> chan_try_recv (tr_chan s) = Some (Some n, ch) \<Longrightarrow>
    turn_step res s Own (s\<lparr>tr_chan := ch, tr_drain := Capturing n (tr_notes s) False\<rparr>)"
| listen_closed: "tr_drain s = Listening \<Longrightarrow> chan_try_recv (tr_chan s) = Some (None, ch) \<Longrightarrow>
    turn_step res s Own (s\<lparr>tr_drain := Drained\<rparr>)"
| listen_ctx: "tr_drain s = Listening \<Longrightarrow> tr_ctx s \<Longrightarrow> turn_step res s Own (s\<lparr>tr_drain := Drained\<rparr>)"
| listen_stop: "tr_drain s = Listening \<Longrightarrow> tr_main s = Stopped \<Longrightarrow> turn_step res s Own (s\<lparr>tr_drain := Draining\<rparr>)"
| drain: "tr_drain s = Draining \<Longrightarrow> chan_try_recv (tr_chan s) = Some (Some n, ch) \<Longrightarrow>
    turn_step res s Own (s\<lparr>tr_chan := ch, tr_drain := Capturing n (tr_notes s) True\<rparr>)"
| drain_end: "tr_drain s = Draining \<Longrightarrow> (\<forall>n ch. chan_try_recv (tr_chan s) \<noteq> Some (Some n, ch)) \<Longrightarrow>
    turn_step res s Own (s\<lparr>tr_drain := Drained\<rparr>)"
| captured: "tr_drain s = Capturing n old seen \<Longrightarrow>
    turn_step res s Own (s\<lparr>tr_notes := old @ [n], tr_text := tr_text s @ agent_text n,
      tr_drain := (if seen then Draining else Listening)\<rparr>)"
| prompted: "tr_main s = InPrompt \<Longrightarrow> prompt_over res s \<Longrightarrow> turn_step res s Own (s\<lparr>tr_main := Prompted\<rparr>)"
| no_payload: "tr_main s = Prompted \<Longrightarrow> payload_of res = None \<Longrightarrow> turn_step res s Own (s\<lparr>tr_main := Waiting\<rparr>)"
| payload: "tr_main s = Prompted \<Longrightarrow> payload_of res = Some p \<Longrightarrow>
    turn_step res s Own (s\<lparr>tr_main := Appending (tr_notes s)\<rparr>)"
| appended: "tr_main s = Appending old \<Longrightarrow> payload_of res = Some p \<Longrightarrow>
    turn_step res s Own (s\<lparr>tr_notes := old @ [payload_note p], tr_main := Waiting\<rparr>)"
| stop: "tr_main s = Waiting \<Longrightarrow> turn_step res s Own (s\<lparr>tr_main := Stopped\<rparr>)"
| return: "tr_main s = Stopped \<Longrightarrow> tr_drain s = Drained \<Longrightarrow> turn_step res s Own (s\<lparr>tr_main := Returned\<rparr>)"

definition opt_notes :: "turn_label \<Rightarrow> SessionNotification list" where
  "opt_notes l = (case l of Arrives n \<Rightarrow> [n] | _ \<Rightarrow> [])"

inductive turn_run :: "goerr + PromptResult \<Rightarrow> turn_state \<Rightarrow> SessionNotification list \<Rightarrow> turn_state \<Rightarrow> bool"
  for res s where
  start: "turn_run res s [] s"
| step: "turn_run res s ns s1 \<Longrightarrow> turn_step res s1 l s2 \<Longrightarrow> turn_run res s (ns @ opt_notes l) s2"

definition runTurn_result :: "string \<Rightarrow> goerr + PromptResult \<Rightarrow> turn_state \<Rightarrow> goerr + QueryResult" where
  "runTurn_result sid res s =
     (case res of
        Inl err \<Rightarrow> Inl err
      | Inr r \<Rightarrow> Inr \<lparr>qr_SessionID = sid, qr_AssistantText = tr_text s, qr_StopReason = res_StopReason r,
          qr_Usage = res_Usage r, qr_Notifications = tr_notes s\<rparr>)"

text \<open>What has been received and not yet written.\<close>

fun in_hand :: "drain_pc \<Rightarrow> SessionNotification list" where
  "in_hand (Capturing n _ _) = [n]"
| "in_hand _ = []"

text \<open>
  Without a payload of its own the caller never writes the slice, so nothing interferes: the slice
  together with the notification in hand is what was received, in order.
\<close>

definition turn_inv :: "turn_state \<Rightarrow> SessionNotification list \<Rightarrow> turn_state \<Rightarrow> bool" where
  "turn_inv s0 ns s \<longleftrightarrow>
     ch_buf (tr_chan s0) @ ns = tr_notes s @ in_hand (tr_drain s) @ ch_buf (tr_chan s) \<and>
     tr_text s = concat (map agent_text (tr_notes s)) \<and>
     (\<forall>n old seen. tr_drain s = Capturing n old seen \<longrightarrow> old = tr_notes s) \<and>
     (\<forall>old. tr_main s \<noteq> Appending old) \<and> (tr_main s = Returned \<longrightarrow> tr_drain s = Drained)"

lemma try_send_buf: "chan_try_send n c = Sent c' \<Longrightarrow> ch_buf c' = ch_buf c @ [n]"
  by (auto simp: chan_try_send_def split: if_splits)

lemma close_buf: "chan_close c = Some c' \<Longrightarrow> ch_buf c' = ch_buf c"
  by (auto simp: chan_close_def split: if_splits)

lemma turn_step_inv:
  assumes "payload_of res = None" "turn_step res s l s'" "turn_inv s0 ns s"
  shows "turn_inv s0 (ns @ opt_notes l) s'"
  using assms(2,1,3)
  by cases (auto simp: turn_inv_def opt_notes_def try_send_buf close_buf dest!: ch.recv_contents)

lemma turn_run_inv:
  assumes "turn_run res s0 ns s" "payload_of res = None" "turn_inv s0 [] s0"
  shows "turn_inv s0 ns s"
  using assms(1)
proof induction
  case start
  show ?case by (rule assms(3))
next
  case (step ns s1 l s2)
  then show ?case using turn_step_inv [OF assms(2)] by blast
qed

text \<open>
  C12: A turn aggregates what the session delivered: at every moment of a turn whose result carries no
  structured payload, what was in the channel when it began followed by what arrived since is the list
  of notifications captured so far, the one in hand and what is still queued, in this order; and the
  assistant text is the text of the agent chunks among those captured. When the turn returns, none is in hand.
\<close>

theorem runTurn_aggregates:
  assumes "turn_run res (turn_start chn) ns s" and "payload_of res = None"
  shows "ch_buf chn @ ns = tr_notes s @ in_hand (tr_drain s) @ ch_buf (tr_chan s) \<and>
    tr_text s = concat (map agent_text (tr_notes s)) \<and> (tr_main s = Returned \<longrightarrow> in_hand (tr_drain s) = [])"
proof -
  have "turn_inv (turn_start chn) [] (turn_start chn)" by (simp add: turn_inv_def turn_start_def)
  from turn_run_inv [OF assms this] show ?thesis by (simp add: turn_inv_def) (simp add: turn_start_def)
qed

theorem runTurn_aggregates_witness:
  "\<exists>s. turn_run (Inl (ENew ''x'')) (turn_start (chan_new 4)) [replayed ''a''] s \<and> tr_drain s = Listening \<and>
     [replayed ''a''] = tr_notes s @ ch_buf (tr_chan s) \<and> tr_text s = concat (map agent_text (tr_notes s))"
proof -
  let ?res = "Inl (ENew ''x'') :: goerr + PromptResult"
  let ?s0 = "turn_start (chan_new 4)"
  let ?ch = "(chan_new 4)\<lparr>ch_buf := [replayed ''a'']\<rparr>"
  have "chan_try_send (replayed ''a'') (tr_chan ?s0) = Sent ?ch"
    by (simp add: chan_try_send_def turn_start_def chan_new_def)
  from turn_run.step [OF turn_run.start turn_step.arrive [OF this]]
  have r: "turn_run ?res ?s0 [replayed ''a''] (?s0\<lparr>tr_chan := ?ch\<rparr>)" by (simp add: opt_notes_def)
  have "payload_of ?res = None" by (simp add: payload_of_def)
  from runTurn_aggregates [OF r this] r show ?thesis
    by (intro exI [of _ "?s0\<lparr>tr_chan := ?ch\<rparr>"]) (simp add: turn_start_def chan_new_def)
qed

section \<open>A turn does not get stuck\<close>

lemma turn_run_trans:
  assumes "turn_run res s1 ms s2" "turn_run res s ns s1"
  shows "turn_run res s (ns @ ms) s2"
  using assms(1)
proof induction
  case start
  then show ?case using assms(2) by simp
next
  case (step ms s2 l s3)
  from turn_run.step [OF step.IH step.hyps(2)] show ?case by simp
qed

lemma quiet_step: "turn_step res s l s' \<Longrightarrow> opt_notes l = [] \<Longrightarrow> turn_run res s' ns s'' \<Longrightarrow> turn_run res s ns s''"
  using turn_run_trans [of res s' ns s'' s "[]"] turn_run.step [OF turn_run.start, of res s l s'] by simp

lemma own_notes [simp]: "opt_notes Own = []" "opt_notes Outside = []" "opt_notes (Arrives n) = [n]"
  by (simp_all add: opt_notes_def)

text \<open>
  A run with the owner of every step. The goroutines have a bounded number of steps: three for each
  notification that is queued, and what is left of the two of them.
\<close>

inductive turn_trace :: "goerr + PromptResult \<Rightarrow> turn_state \<Rightarrow> turn_label list \<Rightarrow> turn_state \<Rightarrow> bool" for res where
  nothing: "turn_trace res s [] s"
| more: "turn_step res s l s1 \<Longrightarrow> turn_trace res s1 ls s2 \<Longrightarrow> turn_trace res s (l # ls) s2"

definition own_steps :: "turn_label list \<Rightarrow> nat" where
  "own_steps ls = length (filter (\<lambda>l. l = Own) ls)"

definition arrivals :: "turn_label list \<Rightarrow> SessionNotification list" where
  "arrivals ls = concat (map opt_notes ls)"

fun drain_left :: "drain_pc \<Rightarrow> nat" where
  "drain_left Drained = 0"
| "drain_left Draining = 1"
| "drain_left Listening = 2"
| "drain_left (Capturing _ _ _) = 3"

fun main_left :: "main_pc \<Rightarrow> nat" where
  "main_left Returned = 0"
| "main_left Stopped = 1"
| "main_left Waiting = 2"
| "main_left (Appending _) = 3"
| "main_left Prompted = 4"
| "main_left InPrompt = 5"

definition turn_left :: "turn_state \<Rightarrow> nat" where
  "turn_left s = 3 * length (ch_buf (tr_chan s)) + drain_left (tr_drain s) + main_left (tr_main s)"

lemma step_left:
  "turn_step res s l s' \<Longrightarrow> (if l = Own then 1 else 0) + turn_left s' \<le> turn_left s + 3 * length (opt_notes l)"
  by (cases rule: turn_step.cases)
    (auto simp: turn_left_def try_send_buf close_buf dest!: ch.recv_contents)

lemma trace_left: "turn_trace res s ls s' \<Longrightarrow> own_steps ls + turn_left s' \<le> turn_left s + 3 * length (arrivals ls)"
proof (induction rule: turn_trace.induct)
  case (more s l s1 ls s2)
  then show ?case using step_left [OF more.hyps(1)] by (auto simp: own_steps_def arrivals_def)
qed (simp add: own_steps_def)

lemma trace_run: "turn_trace res s ls s' \<Longrightarrow> turn_run res s0 ns s \<Longrightarrow> turn_run res s0 (ns @ arrivals ls) s'"
proof (induction arbitrary: ns rule: turn_trace.induct)
  case (more s l s1 ls s2)
  from more.IH [OF turn_run.step [OF more.prems more.hyps(1)]] show ?case by (simp add: arrivals_def)
qed (simp add: arrivals_def)

lemma appending_payload:
  "turn_run res (turn_start chn) ns s \<Longrightarrow> tr_main s = Appending old \<Longrightarrow> payload_of res \<noteq> None"
proof (induction arbitrary: old rule: turn_run.induct)
  case (step ns s1 l s2)
  from step.hyps(2) step.IH step.prems show ?case by cases auto
qed (simp add: turn_start_def)

text \<open>\<open>Prompt\<close> is the only thing a turn waits for.\<close>

definition in_the_prompt :: "goerr + PromptResult \<Rightarrow> turn_state \<Rightarrow> bool" where
  "in_the_prompt res s \<longleftrightarrow> tr_main s = InPrompt \<and> \<not> prompt_over res s"

lemma stopped_moves:
  assumes "tr_main s = Stopped"
  shows "\<exists>s'. turn_step res s Own s'"
proof (cases "tr_drain s")
  case Draining
  then show ?thesis
    by (cases "\<exists>n ch. chan_try_recv (tr_chan s) = Some (Some n, ch)") (blast intro: turn_step.intros)+
qed (use assms in \<open>blast intro: turn_step.intros\<close>)+

lemma turn_moves:
  assumes "turn_run res (turn_start chn) ns s" "tr_main s \<noteq> Returned" "\<not> in_the_prompt res s"
  shows "\<exists>s'. turn_step res s Own s'"
proof (cases "tr_main s")
  case InPrompt
  then have "prompt_over res s" using assms(3) by (simp add: in_the_prompt_def)
  with InPrompt show ?thesis by (blast intro: turn_step.intros)
next
  case Prompted
  then show ?thesis by (cases "payload_of res") (blast intro: turn_step.intros)+
next
  case (Appending old)
  then obtain p where "payload_of res = Some p" using appending_payload [OF assms(1)] by blast
  with Appending show ?thesis by (blast intro: turn_step.intros)
next
  case Stopped
  then show ?thesis by (rule stopped_moves)
qed (use assms(2) in \<open>blast intro: turn_step.intros\<close>)+

lemma out_of_the_prompt: "turn_step res s Own s' \<Longrightarrow> \<not> in_the_prompt res s \<Longrightarrow> \<not> in_the_prompt res s'"
  by (cases rule: turn_step.cases) (auto simp: in_the_prompt_def prompt_over_def)

lemma turn_finishes:
  assumes "turn_run res (turn_start chn) ns s" "\<not> in_the_prompt res s"
  shows "\<exists>ls s'. set ls \<subseteq> {Own} \<and> turn_trace res s ls s' \<and> tr_main s' = Returned"
  using assms
proof (induction "turn_left s" arbitrary: s ns rule: less_induct)
  case less
  show ?case
  proof (cases "tr_main s = Returned")
    case True
    then show ?thesis by (intro exI [of _ "[]"] exI [of _ s]) (simp add: turn_trace.nothing)
  next
    case False
    then obtain s1 where s1: "turn_step res s Own s1" using turn_moves [OF less.prems(1)] less.prems(2) by blast
    have "turn_left s1 < turn_left s" using step_left [OF s1] by simp
    from less.hyps [OF this turn_run.step [OF less.prems(1) s1] out_of_the_prompt [OF s1 less.prems(2)]]
    obtain ls s' where "set ls \<subseteq> {Own}" "turn_trace res s1 ls s'" "tr_main s' = Returned" by blast
    with turn_trace.more [OF s1] show ?thesis by (intro exI [of _ "Own # ls"] exI [of _ s']) simp
  qed
qed

lemma stays_in_the_prompt:
  "turn_trace res s ls s' \<Longrightarrow> in_the_prompt res s \<Longrightarrow> Outside \<notin> set ls \<Longrightarrow> in_the_prompt res s'"
proof (induction rule: turn_trace.induct)
  case (more s l s1 ls s2)
  have "in_the_prompt res s1" using more.hyps(1) more.prems
    by (cases rule: turn_step.cases) (auto simp: in_the_prompt_def prompt_over_def)
  with more show ?case by simp
qed

text \<open>
  C15: A turn waits for nothing but its prompt. \<open>Prompt\<close> blocks until the agent answers, the connection
  is lost or the context is done (the connection is documented to give up a request whose context is),
  and as long as none of these has happened the turn stays in it, whatever arrives. From any reachable state in which the prompt has returned or can return (whatever has
  arrived, whether or not the channel was closed or the context cancelled) the two goroutines get to
  the end by steps of their own: they can always take one until the turn has returned, and along any
  schedule they take only so many, a number fixed by the state and three more for each notification
  that still arrives. So the calling goroutine never waits in vain for the draining one, nor that one
  for the session.
\<close>

theorem runTurn_can_finish:
  assumes "turn_run res (turn_start chn) ns s" and "turn_trace res s ls s'"
  shows "own_steps ls + turn_left s' \<le> turn_left s + 3 * length (arrivals ls) \<and>
    (if in_the_prompt res s' then tr_main s' = InPrompt
     else (tr_main s' \<noteq> Returned \<longrightarrow> (\<exists>s''. turn_step res s' Own s'')) \<and>
       (\<exists>ms s''. set ms \<subseteq> {Own} \<and> turn_trace res s' ms s'' \<and> tr_main s'' = Returned)) \<and>
    (in_the_prompt res s \<and> Outside \<notin> set ls \<longrightarrow> in_the_prompt res s')"
proof -
  note run = trace_run [OF assms(2,1)]
  have "tr_main s' \<noteq> Returned \<Longrightarrow> \<not> in_the_prompt res s' \<Longrightarrow> \<exists>s''. turn_step res s' Own s''"
    using turn_moves [OF run] by blast
  with trace_left [OF assms(2)] turn_finishes [OF run] stays_in_the_prompt [OF assms(2)] show ?thesis
    by (simp add: in_the_prompt_def)
qed

theorem runTurn_can_finish_witness:
  "\<exists>s s' ms. in_the_prompt (Inr \<lparr>res_StopReason = ''end_turn'', res_Usage = None, res_Meta = None\<rparr>) (turn_start (chan_new 4)) \<and>
     turn_trace (Inr \<lparr>res_StopReason = ''end_turn'', res_Usage = None, res_Meta = None\<rparr>) (turn_start (chan_new 4)) [Outside] s \<and>
     set ms \<subseteq> {Own} \<and>
     turn_trace (Inr \<lparr>res_StopReason = ''end_turn'', res_Usage = None, res_Meta = None\<rparr>) s ms s' \<and> tr_main s' = Returned"
proof -
  let ?res = "Inr \<lparr>res_StopReason = ''end_turn'', res_Usage = None, res_Meta = None\<rparr>"
  let ?s = "(turn_start (chan_new 4))\<lparr>tr_answered := True\<rparr>"
  have tr: "turn_trace ?res (turn_start (chan_new 4)) [Outside] ?s"
    by (rule turn_trace.more [OF turn_step.answered turn_trace.nothing])
  moreover have "in_the_prompt ?res (turn_start (chan_new 4))" "\<not> in_the_prompt ?res ?s"
    by (simp_all add: in_the_prompt_def prompt_over_def turn_start_def)
  moreover from runTurn_can_finish [OF turn_run.start tr] this(2)
  obtain ms s' where "set ms \<subseteq> {Own}" "turn_trace ?res ?s ms s'" "tr_main s' = Returned" by (auto split: if_splits)
  ultimately show ?thesis by blast
qed

text \<open>
  Once the caller has appended, a draining goroutine that holds no stale slice only adds to it.
\<close>

definition past_append :: "SessionNotification list \<Rightarrow> turn_state \<Rightarrow> bool" where
  "past_append ns s \<longleftrightarrow> prefix ns (tr_notes s) \<and> tr_main s \<in> {Waiting, Stopped, Returned} \<and>
     (\<forall>n old seen. tr_drain s = Capturing n old seen \<longrightarrow> prefix ns old)"

lemma past_append_step: "turn_step res s l s' \<Longrightarrow> past_append ns s \<Longrightarrow> past_append ns s'"
  by (cases rule: turn_step.cases) (auto simp: past_append_def intro: prefix_prefix split: if_splits)

lemma past_append_run: "turn_run res s ms s' \<Longrightarrow> past_append ns s \<Longrightarrow> past_append ns s'"
  by (induction rule: turn_run.induct) (auto intro: past_append_step)

lemma undisturbed_append:
  assumes "tr_main s = Prompted" "payload_of res = Some p"
  shows "turn_run res s [] (s\<lparr>tr_notes := tr_notes s @ [payload_note p], tr_main := Waiting\<rparr>)"
proof -
  have 1: "turn_step res s Own (s\<lparr>tr_main := Appending (tr_notes s)\<rparr>)" by (rule turn_step.payload [OF assms])
  have 2: "turn_step res (s\<lparr>tr_main := Appending (tr_notes s)\<rparr>) Own
      (s\<lparr>tr_main := Appending (tr_notes s), tr_notes := tr_notes s @ [payload_note p], tr_main := Waiting\<rparr>)"
    by (rule turn_step.appended [OF _ assms(2)]) simp
  show ?thesis using quiet_step [OF 1 _ quiet_step [OF 2 _ turn_run.start]] by simp
qed

text \<open>
  The structured payload can get lost: the caller appends it to the slice the draining goroutine is
  still writing. In the run below that goroutine has read the empty slice when the caller appends the
  payload, and then writes its own result over it; the query returns without the payload.
\<close>

theorem payload_can_be_lost:
  assumes "payload_of res = Some p" "tr_chan (turn_start chn) = \<lparr>ch_buf = [n], ch_cap = 4, ch_closed = False\<rparr>"
  shows "\<exists>s. turn_run res (turn_start chn) [] s \<and> tr_main s = Returned \<and> tr_notes s = [n]"
proof -
  let ?ch = "\<lparr>ch_buf = [], ch_cap = 4, ch_closed = False\<rparr> :: SessionNotification chan"
  let ?s0 = "turn_start chn"
  let ?s1 = "?s0\<lparr>tr_chan := ?ch, tr_drain := Capturing n [] False\<rparr>"
  let ?s1a = "?s1\<lparr>tr_answered := True\<rparr>"
  let ?s2 = "?s1a\<lparr>tr_main := Prompted\<rparr>"
  let ?s3 = "?s2\<lparr>tr_main := Appending []\<rparr>"
  let ?s4 = "?s3\<lparr>tr_notes := [] @ [payload_note p], tr_main := Waiting\<rparr>"
  let ?s5 = "?s4\<lparr>tr_notes := [] @ [n], tr_text := tr_text ?s4 @ agent_text n, tr_drain := (if False then Draining else Listening)\<rparr>"
  let ?s6 = "?s5\<lparr>tr_main := Stopped\<rparr>"
  let ?s7 = "?s6\<lparr>tr_drain := Draining\<rparr>"
  let ?s8 = "?s7\<lparr>tr_drain := Drained\<rparr>"
  let ?s9 = "?s8\<lparr>tr_main := Returned\<rparr>"
  have c: "chan_try_recv (tr_chan ?s0) = Some (Some n, ?ch)" using assms(2) by (simp add: chan_try_recv_def)
  have 1: "turn_step res ?s0 Own ?s1"
    using turn_step.listen [OF _ c, of res] by (simp add: turn_start_def)
  have a: "turn_step res ?s1 Outside ?s1a" by (rule turn_step.answered)
  have 2: "turn_step res ?s1a Own ?s2" by (rule turn_step.prompted) (simp_all add: turn_start_def prompt_over_def)
  have 3: "turn_step res ?s2 Own ?s3"
    using turn_step.payload [OF _ assms(1), of ?s2] by (simp add: turn_start_def)
  have 4: "turn_step res ?s3 Own ?s4" by (rule turn_step.appended [OF _ assms(1)]) simp
  have 5: "turn_step res ?s4 Own ?s5" by (rule turn_step.captured) simp
  have 6: "turn_step res ?s5 Own ?s6" by (rule turn_step.stop) simp
  have 7: "turn_step res ?s6 Own ?s7" by (rule turn_step.listen_stop) simp_all
  have 8: "turn_step res ?s7 Own ?s8" by (rule turn_step.drain_end) (simp_all add: chan_try_recv_def)
  have 9: "turn_step res ?s8 Own ?s9" by (rule turn_step.return) simp_all
  have "turn_run res ?s0 [] ?s9"
    by (rule quiet_step [OF 1 own_notes(1)], rule quiet_step [OF a own_notes(2)], rule quiet_step [OF 2 own_notes(1)],
        rule quiet_step [OF 3 own_notes(1)], rule quiet_step [OF 4 own_notes(1)], rule quiet_step [OF 5 own_notes(1)],
        rule quiet_step [OF 6 own_notes(1)], rule quiet_step [OF 7 own_notes(1)], rule quiet_step [OF 8 own_notes(1)],
        rule quiet_step [OF 9 own_notes(1)], rule turn_run.start)
  then show ?thesis by (intro exI [of _ ?s9]) simp
qed

end
