(* ===== verification/RetryQuery.thy ===== *)
theory RetryQuery
  imports Retry Query
begin

text \<open>
  \<open>ResilientQuery\<close> (\<open>resilient.go\<close>) with the queries it makes (\<open>query.go\<close>): the world of the loop is the
  environment and, for each query so far, its result and the client it has left behind.
\<close>

section \<open>A retried query\<close>






section \<open>What the attempts leave behind\<close>











end
