(* ===== verification/Locking.thy ===== *)
theory Locking
  imports GoBase
begin

text \<open>
  The mutexes of the SDK. A piece of code is the sequence of lock operations it makes; the code of the
  user that is called back at a point is a parameter there. Goroutines take and release locks in any
  order the locks allow. Waiting for anything else (an answer of the agent, a timer) is not in the
  model. A second \<open>Lock\<close> of a mutex by the goroutine that holds it blocks, as in Go.
\<close>

section \<open>Locks and goroutines\<close>

datatype lock =
    ClientMu
  | BridgeMu
  | SessionsMu
  | SessionMu nat
  | HooksMu
  | HealthMu
  | TurnsMu nat
  | CaptureMu
  | BudgetMu
  | CostMu

datatype lock_mode = Exclusive | Shared

datatype act = Acquire lock_mode lock | Release lock

type_synonym code = "act list"
type_synonym goroutine = "(lock \<times> lock_mode) list \<times> code"

fun drop_lock :: "lock \<Rightarrow> (lock \<times> lock_mode) list \<Rightarrow> (lock \<times> lock_mode) list" where
  "drop_lock l [] = []"
| "drop_lock l (x # h) = (if fst x = l then h else x # drop_lock l h)"

definition free_for :: "goroutine list \<Rightarrow> lock_mode \<Rightarrow> lock \<Rightarrow> bool" where
  "free_for s m l =
     (case m of
        Exclusive \<Rightarrow> list_all (\<lambda>g. l \<notin> fst ` set (fst g)) s
      | Shared \<Rightarrow> list_all (\<lambda>g. (l, Exclusive) \<notin> set (fst g)) s)"

text \<open>\<open>None\<close>: the goroutine has ended, or is blocked.\<close>

definition take_turn :: "goroutine list \<Rightarrow> nat \<Rightarrow> goroutine list option" where
  "take_turn s i =
     (case s ! i of
        (h, []) \<Rightarrow> None
      | (h, Acquire m l # as) \<Rightarrow> if free_for s m l then Some (s[i := ((l, m) # h, as)]) else None
      | (h, Release l # as) \<Rightarrow> if l \<in> fst ` set h then Some (s[i := (drop_lock l h, as)]) else None)"

inductive lock_step :: "goroutine list \<Rightarrow> goroutine list \<Rightarrow> bool" where
  "i < length s \<Longrightarrow> take_turn s i = Some s' \<Longrightarrow> lock_step s s'"

inductive_cases lock_stepE: "lock_step s s'"

text \<open>
  A writer that waits for a reader-writer lock keeps new readers out; \<open>unopposed\<close> says that no
  goroutine is about to be such a writer, so that a turn is certain not to block.
\<close>

definition wants :: "lock_mode \<Rightarrow> lock \<Rightarrow> goroutine \<Rightarrow> bool" where
  "wants m l g = (case snd g of Acquire m' l' # _ \<Rightarrow> m' = m \<and> l' = l | _ \<Rightarrow> False)"

definition unopposed :: "goroutine list \<Rightarrow> nat \<Rightarrow> bool" where
  "unopposed s i =
     (case snd (s ! i) of
        Acquire Shared l # _ \<Rightarrow> list_all (\<lambda>j. j = i \<or> \<not> wants Exclusive l (s ! j)) [0..<length s]
      | _ \<Rightarrow> True)"

definition certain :: "goroutine list \<Rightarrow> nat \<Rightarrow> bool" where
  "certain s i \<longleftrightarrow> take_turn s i \<noteq> None \<and> unopposed s i"

definition all_ended :: "goroutine list \<Rightarrow> bool" where
  "all_ended s \<longleftrightarrow> list_all (\<lambda>g. g = ([], [])) s"

definition goroutines :: "code list \<Rightarrow> goroutine list" where
  "goroutines cs = map (Pair []) cs"

fun schedule :: "nat list \<Rightarrow> goroutine list \<Rightarrow> goroutine list option" where
  "schedule [] s = Some s"
| "schedule (i # is) s = (if i < length s then Option.bind (take_turn s i) (schedule is) else None)"

lemma schedule_steps: "schedule is s = Some s' \<Longrightarrow> lock_step\<^sup>*\<^sup>* s s'"
  by (induction "is" arbitrary: s)
    (auto simp: Option.bind_eq_Some_conv intro: converse_rtranclp_into_rtranclp lock_step.intros split: if_splits)

lemma lock_step_iff: "lock_step s s' \<longleftrightarrow> (\<exists>i < length s. take_turn s i = Some s')"
  by (auto elim: lock_stepE intro: lock_step.intros)

section \<open>The order of the locks\<close>

fun rank :: "lock \<Rightarrow> nat" where
  "rank ClientMu = 1"
| "rank BridgeMu = 2"
| "rank SessionsMu = 3"
| "rank (SessionMu _) = 4"
| "rank HooksMu = 5"
| "rank HealthMu = 5"
| "rank (TurnsMu _) = 5"
| "rank CaptureMu = 5"
| "rank BudgetMu = 6"
| "rank CostMu = 7"

lemma rank_pos: "0 < rank l"
  by (cases l) simp_all

text \<open>Code that takes locks only upwards from those it holds, and releases all it took.\<close>

fun ordered :: "(lock \<times> lock_mode) list \<Rightarrow> code \<Rightarrow> bool" where
  "ordered h [] \<longleftrightarrow> h = []"
| "ordered h (Acquire m l # as) \<longleftrightarrow> list_all (\<lambda>x. rank (fst x) < rank l) h \<and> ordered ((l, m) # h) as"
| "ordered h (Release l # as) \<longleftrightarrow> l \<in> fst ` set h \<and> ordered (drop_lock l h) as"

definition upward :: "nat \<Rightarrow> code \<Rightarrow> bool" where
  "upward n u \<longleftrightarrow> ordered [] u \<and> (\<forall>m l. Acquire m l \<in> set u \<longrightarrow> n < rank l)"

lemma drop_lock_append: "l \<in> fst ` set h \<Longrightarrow> drop_lock l (h @ h') = drop_lock l h @ h'"
  by (induction h) auto

lemma ordered_append:
  "ordered h u \<Longrightarrow> (\<And>m l x. Acquire m l \<in> set u \<Longrightarrow> x \<in> set h' \<Longrightarrow> rank (fst x) < rank l) \<Longrightarrow> ordered h' v \<Longrightarrow>
    ordered (h @ h') (u @ v)"
proof (induction h u rule: ordered.induct)
  case (2 h m l as)
  have "ordered (((l, m) # h) @ h') (as @ v)" by (rule 2(1)) (use 2(2-4) in auto)
  then show ?case using 2(2,3) by (auto simp: list_all_iff)
next
  case (3 h l as)
  have "ordered (drop_lock l h @ h') (as @ v)" by (rule 3(1)) (use 3(2-4) in auto)
  then show ?case using 3(2) by (simp add: drop_lock_append image_Un)
qed simp

lemma upward_Nil [simp, intro]: "upward n []"
  by (simp add: upward_def)

lemma upward_append [intro!]: "upward n u \<Longrightarrow> upward n v \<Longrightarrow> upward n (u @ v)"
  using ordered_append [of "[]" u "[]" v] by (auto simp: upward_def)

lemma upward_concat_map [intro!]: "(\<And>x. x \<in> set xs \<Longrightarrow> upward n (f x)) \<Longrightarrow> upward n (concat (map f xs))"
  by (induction xs) auto

lemma upward_replicate [intro]: "upward n u \<Longrightarrow> upward n (concat (replicate k u))"
  by (induction k) auto

definition critical :: "lock_mode \<Rightarrow> lock \<Rightarrow> code \<Rightarrow> code" where
  "critical m l u = Acquire m l # u @ [Release l]"

lemma upward_critical [intro]:
  assumes "n < rank l" "upward (rank l) u"
  shows "upward n (critical m l u)"
proof -
  have "ordered ([] @ [(l, m)]) (u @ [Release l])"
    by (rule ordered_append) (use assms(2) in \<open>auto simp: upward_def\<close>)
  then show ?thesis using assms by (auto simp: upward_def critical_def dest: less_trans)
qed

lemma upward_weaken: "upward k u \<Longrightarrow> n \<le> k \<Longrightarrow> upward n u"
  by (auto simp: upward_def dest: le_less_trans)

section \<open>No deadlock\<close>

definition disciplined :: "goroutine list \<Rightarrow> bool" where
  "disciplined s \<longleftrightarrow> list_all (\<lambda>(h, u). ordered h u) s"

text \<open>A lock held exclusively is held by nobody else.\<close>

definition exclusion :: "goroutine list \<Rightarrow> bool" where
  "exclusion s \<longleftrightarrow> (\<forall>i < length s. \<forall>j < length s. i \<noteq> j \<longrightarrow>
     (\<forall>l. (l, Exclusive) \<in> set (fst (s ! i)) \<longrightarrow> l \<notin> fst ` set (fst (s ! j))))"

definition remaining :: "goroutine list \<Rightarrow> nat" where
  "remaining s = sum_list (map (length \<circ> snd) s)"

lemma take_turn_Some:
  assumes "take_turn s i = Some s'"
  obtains m l h as where "s ! i = (h, Acquire m l # as)" "free_for s m l" "s' = s[i := ((l, m) # h, as)]"
  | l h as where "s ! i = (h, Release l # as)" "l \<in> fst ` set h" "s' = s[i := (drop_lock l h, as)]"
  using assms by (auto simp: take_turn_def split: prod.splits list.splits act.splits if_splits)

lemma drop_lock_subset: "set (drop_lock l h) \<subseteq> set h"
  by (induction h) auto

lemma list_all_update: "list_all P s \<Longrightarrow> P x \<Longrightarrow> list_all P (s[i := x])"
  by (auto simp: list_all_iff dest: set_update_subset_insert [THEN subsetD])

lemma step_disciplined: "lock_step s s' \<Longrightarrow> disciplined s \<Longrightarrow> disciplined s'"
proof (induction rule: lock_step.induct)
  case (1 i s s')
  have o: "ordered h u" if "s ! i = (h, u)" for h u
    using 1(1,3) that unfolding disciplined_def by (metis case_prodD list_all_length)
  from 1(2) show ?case
    by (cases rule: take_turn_Some) (use 1(3) o in \<open>auto simp: disciplined_def intro!: list_all_update\<close>)
qed

lemma step_exclusion: "lock_step s s' \<Longrightarrow> exclusion s \<Longrightarrow> exclusion s'"
proof (induction rule: lock_step.induct)
  case (1 i s s')
  note il = 1(1)
  from 1(2) show ?case
  proof (cases rule: take_turn_Some)
    case (1 m l h as)
    have free: "l \<notin> fst ` set (fst (s ! j))" if "j < length s" "m = Exclusive" for j
      using 1(2) that by (simp add: free_for_def list_all_length)
    have read: "(l, Exclusive) \<notin> set (fst (s ! j))" if "j < length s" for j
      using 1(2) that by (cases m) (force simp: free_for_def list_all_length)+
    show ?thesis unfolding exclusion_def
    proof (intro allI impI)
      fix a b k
      assume ab: "a < length s'" "b < length s'" "a \<noteq> b" "(k, Exclusive) \<in> set (fst (s' ! a))"
      then have old: "(k, Exclusive) \<in> set (fst (s ! a)) \<Longrightarrow> k \<notin> fst ` set (fst (s ! b))"
        using \<open>exclusion s\<close> 1(3) by (simp add: exclusion_def)
      show "k \<notin> fst ` set (fst (s' ! b))"
        using ab old free [of b] read [of a] 1(1,3) il by (cases "a = i"; cases "b = i") (auto simp: image_iff)
    qed
  next
    case (2 l h as)
    have sub: "set (fst (s' ! a)) \<subseteq> set (fst (s ! a))" if "a < length s" for a
      using 2(1,3) that drop_lock_subset [of l h] by (cases "a = i") auto
    have len: "length s' = length s" using 2(3) by simp
    show ?thesis unfolding exclusion_def
    proof (intro allI impI)
      fix a b k
      assume ab: "a < length s'" "b < length s'" "a \<noteq> b" "(k, Exclusive) \<in> set (fst (s' ! a))"
      have "(k, Exclusive) \<in> set (fst (s ! a))" using sub [of a] ab(1,4) len by auto
      then have "k \<notin> fst ` set (fst (s ! b))" using \<open>exclusion s\<close> ab(1-3) len by (simp add: exclusion_def)
      moreover have "fst ` set (fst (s' ! b)) \<subseteq> fst ` set (fst (s ! b))" by (rule image_mono) (use sub ab(2) len in simp)
      ultimately show "k \<notin> fst ` set (fst (s' ! b))" by blast
    qed
  qed
qed

lemma step_remaining: "lock_step s s' \<Longrightarrow> Suc (remaining s') = remaining s"
proof (induction rule: lock_step.induct)
  case (1 i s s')
  have r: "Suc (remaining (s[i := (h', as)])) = remaining s" if "s ! i = (h, a # as)" for h h' a as
  proof -
    have "s = take i s @ s ! i # drop (Suc i) s" using 1(1) by (rule id_take_nth_drop)
    then have "remaining s = remaining (take i s @ (h, a # as) # drop (Suc i) s)" using that by simp
    moreover have "s[i := (h', as)] = take i s @ (h', as) # drop (Suc i) s" using 1(1) by (rule upd_conv_take_nth_drop)
    ultimately show ?thesis by (simp add: remaining_def)
  qed
  from 1(2) show ?case by (cases rule: take_turn_Some) (auto simp: r)
qed

text \<open>Somebody who does not hold every lock he needs waits for a lock that is ranked higher than all he holds.\<close>

lemma progress:
  assumes d: "disciplined s" and u: "\<not> all_ended s"
  shows "\<exists>i < length s. certain s i"
proof (rule ccontr)
  assume stuck: "\<not> (\<exists>i < length s. certain s i)"
  have o: "ordered (fst (s ! j)) (snd (s ! j))" if "j < length s" for j
    using d that by (auto simp: disciplined_def list_all_length case_prod_beta)
  define U where "U = {i. i < length s \<and> s ! i \<noteq> ([], [])}"
  have waits: "\<exists>m l as. snd (s ! i) = Acquire m l # as \<and> list_all (\<lambda>x. rank (fst x) < rank l) (fst (s ! i)) \<and>
      (\<exists>j \<in> U. l \<in> fst ` set (fst (s ! j)))" if i: "i \<in> U" for i
  proof -
    have il: "i < length s" "\<not> certain s i" "s ! i \<noteq> ([], [])" using i stuck by (auto simp: U_def)
    obtain h as where s: "s ! i = (h, as)" by (metis prod.exhaust)
    have holder: "\<exists>j \<in> U. l \<in> fst ` set (fst (s ! j))" if "\<not> free_for s m l" for m l
      using that by (cases m) (force simp: free_for_def list_all_length U_def)+
    show ?thesis
    proof (cases as)
      case Nil
      then show ?thesis using o [OF il(1)] il(3) s by simp
    next
      case (Cons a as')
      show ?thesis
      proof (cases a)
        case (Release l)
        then have "take_turn s i \<noteq> None \<and> unopposed s i"
          using o [OF il(1)] s Cons by (simp add: take_turn_def unopposed_def)
        then show ?thesis using il(2) by (simp add: certain_def)
      next
        case (Acquire m l)
        have r: "list_all (\<lambda>x. rank (fst x) < rank l) (fst (s ! i))" using o [OF il(1)] s Cons Acquire by simp
        have "\<exists>j \<in> U. l \<in> fst ` set (fst (s ! j))"
        proof (cases "free_for s m l")
          case True
          then have "take_turn s i \<noteq> None" using s Cons Acquire by (simp add: take_turn_def)
          then have "\<not> unopposed s i" using il(2) by (simp add: certain_def)
          then obtain j where j: "j < length s" "j \<noteq> i" "wants Exclusive l (s ! j)"
            using s Cons Acquire by (cases m) (auto simp: unopposed_def list_all_iff)
          then obtain hj asj where sj: "s ! j = (hj, Acquire Exclusive l # asj)"
            by (cases "s ! j") (auto simp: wants_def split: list.splits act.splits)
          have "\<not> certain s j" using stuck j(1) by blast
          then have "\<not> free_for s Exclusive l" using sj by (auto simp: certain_def take_turn_def unopposed_def)
          then show ?thesis by (rule holder)
        qed (rule holder)
        then show ?thesis using s Cons Acquire r by auto
      qed
    qed
  qed
  define want where "want = (\<lambda>i. case snd (s ! i) of Acquire m l # _ \<Rightarrow> rank l | _ \<Rightarrow> 0)"
  have "U \<noteq> {}" using u by (auto simp: all_ended_def list_all_length U_def)
  moreover have fin: "finite U" by (simp add: U_def)
  ultimately obtain i where i: "i \<in> U" "\<And>j. j \<in> U \<Longrightarrow> want j \<le> want i"
    using Max_in [of "want ` U"] Max_ge [of "want ` U"] by (metis empty_is_image finite_imageI imageE image_eqI)
  obtain m l as j where l: "snd (s ! i) = Acquire m l # as" "j \<in> U" "l \<in> fst ` set (fst (s ! j))" using waits [OF i(1)] by blast
  obtain m' l' as' where "snd (s ! j) = Acquire m' l' # as'" "list_all (\<lambda>x. rank (fst x) < rank l') (fst (s ! j))"
    using waits [OF l(2)] by blast
  then have "want i < want j" using l(1,3) by (auto simp: want_def list_all_iff)
  then show False using i(2) [OF l(2)] by simp
qed

lemma can_end: "disciplined s \<Longrightarrow> \<exists>s'. lock_step\<^sup>*\<^sup>* s s' \<and> all_ended s'"
proof (induction "remaining s" arbitrary: s rule: less_induct)
  case less
  show ?case
  proof (cases "all_ended s")
    case False
    obtain i s1 where "i < length s" "take_turn s i = Some s1"
      using progress [OF less.prems False] by (auto simp: certain_def)
    then have st: "lock_step s s1" by (rule lock_step.intros)
    moreover have "remaining s1 < remaining s" using step_remaining [OF st] by simp
    ultimately obtain s' where "lock_step\<^sup>*\<^sup>* s1 s'" "all_ended s'"
      using less.hyps [OF _ step_disciplined [OF st less.prems]] by blast
    then show ?thesis using st by (meson converse_rtranclp_into_rtranclp)
  qed blast
qed

lemma steps_keep: "lock_step\<^sup>*\<^sup>* s s' \<Longrightarrow> disciplined s \<and> exclusion s \<Longrightarrow> disciplined s' \<and> exclusion s'"
  by (induction rule: rtranclp_induct) (auto dest: step_disciplined step_exclusion)

section \<open>The locks of the SDK's operations\<close>

text \<open>
  \<open>critical Exclusive l u\<close> is a section between \<open>Lock\<close> and \<open>Unlock\<close> in which \<open>u\<close> is done. First the hooks:
  the matchers are copied under the dispatcher's lock, the callbacks run outside it; without hooks
  there is no dispatcher.
\<close>

definition dispatch_locks :: "code option \<Rightarrow> code" where
  "dispatch_locks d = (case d of None \<Rightarrow> [] | Some callbacks \<Rightarrow> critical Shared HooksMu [] @ callbacks)"

definition recordUsageUpdate_locks :: code where
  "recordUsageUpdate_locks = critical Exclusive CostMu []"

definition Status_locks :: code where
  "Status_locks = critical Shared BudgetMu (critical Exclusive CostMu [])"

definition capture_locks :: code where
  "capture_locks = critical Exclusive CaptureMu []"

text \<open>Most methods of a session take its lock for a few assignments.\<close>

definition session_section :: "nat \<Rightarrow> code" where
  "session_section p = critical Exclusive (SessionMu p) []"

text \<open>
  \<open>deliver\<close>: the tool-call hooks and the drop callback run while the lock is held, the subscribers run between
  the two sections; \<open>None\<close> is a session that is closed already.
\<close>

record delivery =
  dv_session :: nat
  dv_hooks :: "code list"
  dv_rest :: "(code \<times> code) option"

definition deliver_locks :: "delivery \<Rightarrow> code" where
  "deliver_locks v =
     critical Exclusive (SessionMu (dv_session v)) (concat (map (dispatch_locks \<circ> Some) (dv_hooks v))) @
     (case dv_rest v of
        None \<Rightarrow> []
      | Some (subs, onDrop) \<Rightarrow> subs @ critical Exclusive (SessionMu (dv_session v)) onDrop)"

definition maxTurns_locks :: "nat \<Rightarrow> bool \<Rightarrow> bool \<Rightarrow> code" where
  "maxTurns_locks p hasId reached =
     (if hasId then critical Exclusive (TurnsMu p) [] else []) @ (if reached then session_section p else [])"

definition budget_handler_locks :: "nat \<Rightarrow> bool \<Rightarrow> bool \<Rightarrow> code" where
  "budget_handler_locks p auto exceeded =
     recordUsageUpdate_locks @ (if auto then Status_locks @ (if exceeded then session_section p else []) else [])"

text \<open>
  \<open>Prompt\<close>: refused before its request, or answered with an error or a result; \<open>schema\<close> says whether a structured
  answer is captured. Its watcher is another goroutine, with one section of the session.
\<close>

definition Prompt_locks :: "nat \<Rightarrow> code option \<Rightarrow> bool \<Rightarrow> bool option \<Rightarrow> code option \<Rightarrow> code \<Rightarrow> code" where
  "Prompt_locks p submit schema outcome stop onComplete =
     dispatch_locks submit @
     (case outcome of
        None \<Rightarrow> []
      | Some ok \<Rightarrow>
          session_section p @ (if ok then if schema then capture_locks else [] else session_section p) @
          dispatch_locks stop @ onComplete)"

text \<open>The client's operations.\<close>

definition ensureStarted_locks :: code where
  "ensureStarted_locks = critical Exclusive ClientMu []"

definition lookupSession_locks :: code where
  "lookupSession_locks = critical Exclusive SessionsMu []"

definition registerSession_locks :: "delivery list \<Rightarrow> code" where
  "registerSession_locks pending = critical Exclusive SessionsMu [] @ concat (map deliver_locks pending)"

definition teardownSession_locks :: "nat \<Rightarrow> code option \<Rightarrow> code" where
  "teardownSession_locks p ended = critical Exclusive SessionsMu [] @ session_section p @ dispatch_locks ended"

definition routeSessionUpdate_locks :: "delivery option \<Rightarrow> code" where
  "routeSessionUpdate_locks v = critical Exclusive SessionsMu [] @ (case v of None \<Rightarrow> [] | Some d \<Rightarrow> deliver_locks d)"

definition CancelAll_locks :: "nat list \<Rightarrow> code" where
  "CancelAll_locks ps = critical Shared SessionsMu [] @ concat (map session_section ps)"

text \<open>A request of the agent: a hook before, the user's callback, a hook after.\<close>

definition request_locks :: "code option \<Rightarrow> code \<Rightarrow> code option \<Rightarrow> code" where
  "request_locks before callback after = dispatch_locks before @ callback @ dispatch_locks after"

text \<open>\<open>UnstableSetModel\<close>: the request fails, or its answer updates a session or not.\<close>

definition UnstableSetModel_locks :: "nat option option \<Rightarrow> code" where
  "UnstableSetModel_locks outcome =
     ensureStarted_locks @
     (case outcome of
        None \<Rightarrow> []
      | Some q \<Rightarrow> lookupSession_locks @ (case q of None \<Rightarrow> [] | Some p \<Rightarrow> session_section p))"

datatype effort_path = EffortIgnored | ProbeFailed | NoVariantFits | VariantKept | VariantSet "nat option option"

definition applyEffort_locks :: "nat \<Rightarrow> effort_path \<Rightarrow> code" where
  "applyEffort_locks p e =
     (case e of
        EffortIgnored \<Rightarrow> []
      | ProbeFailed \<Rightarrow> ensureStarted_locks
      | NoVariantFits \<Rightarrow> ensureStarted_locks @ session_section p
      | VariantKept \<Rightarrow> ensureStarted_locks @ session_section p @ session_section p
      | VariantSet outcome \<Rightarrow>
          ensureStarted_locks @ session_section p @ UnstableSetModel_locks outcome @
          (if outcome = None then [] else session_section p @ session_section p))"

text \<open>Which parts of the configuration are applied; a failed one is the last.\<close>

record config_path =
  cp_model :: bool
  cp_agent :: bool
  cp_currentModel :: bool
  cp_effort :: effort_path
  cp_maxTurns :: bool

definition applySessionConfig_locks :: "nat \<Rightarrow> config_path \<Rightarrow> code" where
  "applySessionConfig_locks p cp =
     (if cp_model cp then session_section p else []) @ (if cp_agent cp then session_section p else []) @
     (if cp_currentModel cp then session_section p else []) @ applyEffort_locks p (cp_effort cp) @
     (if cp_maxTurns cp then session_section p else [])"

datatype open_end = CallRefused | ConfigFailed config_path "code option" | SessionOpened config_path bool "code option"

definition opened_locks :: "nat \<Rightarrow> open_end \<Rightarrow> code" where
  "opened_locks p oe =
     (case oe of
        CallRefused \<Rightarrow> []
      | ConfigFailed cp ended \<Rightarrow> applySessionConfig_locks p cp @ teardownSession_locks p ended
      | SessionOpened cp tracker started \<Rightarrow>
          applySessionConfig_locks p cp @ (if tracker then session_section p else []) @ dispatch_locks started)"

definition begin_locks :: "bool \<Rightarrow> code" where
  "begin_locks bridge = ensureStarted_locks @ (if bridge then critical Exclusive BridgeMu [] else [])"

definition login_locks :: "bool \<Rightarrow> code" where
  "login_locks login = (if login then critical Exclusive ClientMu [] else [])"

definition NewSession_locks :: "nat \<Rightarrow> bool \<Rightarrow> bool \<Rightarrow> delivery list \<Rightarrow> open_end \<Rightarrow> code" where
  "NewSession_locks p bridge login pending oe =
     begin_locks bridge @ login_locks login @
     (if oe = CallRefused then [] else registerSession_locks pending) @ opened_locks p oe"

text \<open>\<open>LoadSession\<close> registers before its request, and tears down after a failed one.\<close>

definition LoadSession_locks :: "nat \<Rightarrow> bool \<Rightarrow> bool \<Rightarrow> delivery list \<Rightarrow> code option \<Rightarrow> open_end \<Rightarrow> code" where
  "LoadSession_locks p bridge login pending ended oe =
     begin_locks bridge @ registerSession_locks pending @ login_locks login @
     (if oe = CallRefused then teardownSession_locks p ended else opened_locks p oe)"

text \<open>\<open>Start\<close> holds the client's lock throughout; \<open>transport\<close> is the code of a custom transport's factory.\<close>

definition Start_locks :: "bool \<Rightarrow> code \<Rightarrow> code" where
  "Start_locks bridge transport =
     critical Exclusive ClientMu ((if bridge then critical Exclusive BridgeMu [] else []) @ transport)"

definition close_all_locks :: "nat list \<Rightarrow> code" where
  "close_all_locks ps = critical Exclusive SessionsMu (concat (map session_section ps))"

definition Close_locks :: "nat list \<Rightarrow> code list \<Rightarrow> code \<Rightarrow> bool \<Rightarrow> code" where
  "Close_locks ps ended transport bridge =
     critical Exclusive ClientMu [] @ close_all_locks ps @ concat (map (dispatch_locks \<circ> Some) ended) @ transport @
     (if bridge then critical Exclusive BridgeMu [] else [])"

definition watchSubprocess_locks :: "nat list \<Rightarrow> code" where
  "watchSubprocess_locks ps =
     critical Exclusive ClientMu [] @ critical Exclusive HealthMu [] @ critical Exclusive HealthMu [] @
     close_all_locks ps @ critical Exclusive ClientMu []"

section \<open>The goroutines of a program that uses the SDK\<close>

text \<open>
  \<open>sdk u\<close>: code that calls operations of the SDK in any order; a callback may do the same, except where it
  is called under a lock: there it may only take locks above that one, such as those of a cost or
  budget tracker. A \<open>Close\<close> of a closed client, and the watcher of a subprocess that finds it closing, only
  look, as \<open>ensureStarted\<close> does.
\<close>

definition calm :: "lock \<Rightarrow> code \<Rightarrow> bool" where
  "calm l u = upward (rank l) u"

definition calm_delivery :: "delivery \<Rightarrow> bool" where
  "calm_delivery v \<longleftrightarrow> list_all (calm (SessionMu (dv_session v))) (dv_hooks v) \<and>
     (case dv_rest v of None \<Rightarrow> True | Some (_, onDrop) \<Rightarrow> calm (SessionMu (dv_session v)) onDrop)"

definition subscribers :: "delivery \<Rightarrow> code" where
  "subscribers v = (case dv_rest v of None \<Rightarrow> [] | Some (subs, _) \<Rightarrow> subs)"

definition callback :: "code option \<Rightarrow> code" where
  "callback d = (case d of None \<Rightarrow> [] | Some u \<Rightarrow> u)"

definition open_callback :: "open_end \<Rightarrow> code" where
  "open_callback oe =
     (case oe of CallRefused \<Rightarrow> [] | ConfigFailed _ d \<Rightarrow> callback d | SessionOpened _ _ d \<Rightarrow> callback d)"

inductive sdk :: "code \<Rightarrow> bool" where
  idle: "sdk []"
| seq: "sdk u \<Longrightarrow> sdk v \<Longrightarrow> sdk (u @ v)"
| usage: "sdk recordUsageUpdate_locks"
| status: "sdk Status_locks"
| capture: "sdk capture_locks"
| section_of: "sdk (session_section p)"
| turns: "sdk (maxTurns_locks p hasId reached)"
| budget: "sdk (budget_handler_locks p auto exceeded)"
| prompt: "sdk (callback submit) \<Longrightarrow> sdk (callback stop) \<Longrightarrow> sdk onComplete \<Longrightarrow>
    sdk (Prompt_locks p submit schema outcome stop onComplete)"
| client: "sdk ensureStarted_locks"
| request: "sdk (callback before) \<Longrightarrow> sdk u \<Longrightarrow> sdk (callback after) \<Longrightarrow> sdk (request_locks before u after)"
| route: "(\<And>v. d = Some v \<Longrightarrow> calm_delivery v \<and> sdk (subscribers v)) \<Longrightarrow> sdk (routeSessionUpdate_locks d)"
| cancel_all: "sdk (CancelAll_locks ps)"
| set_model: "sdk (UnstableSetModel_locks outcome)"
| new_session: "(\<And>v. v \<in> set pending \<Longrightarrow> calm_delivery v \<and> sdk (subscribers v)) \<Longrightarrow> sdk (open_callback oe) \<Longrightarrow>
    sdk (NewSession_locks p bridge login pending oe)"
| load_session: "(\<And>v. v \<in> set pending \<Longrightarrow> calm_delivery v \<and> sdk (subscribers v)) \<Longrightarrow> sdk (callback ended) \<Longrightarrow>
    sdk (open_callback oe) \<Longrightarrow> sdk (LoadSession_locks p bridge login pending ended oe)"
| start: "calm ClientMu transport \<Longrightarrow> sdk (Start_locks bridge transport)"
| close: "(\<And>u. u \<in> set ended \<Longrightarrow> sdk u) \<Longrightarrow> sdk transport \<Longrightarrow> sdk (Close_locks ps ended transport bridge)"
| crash: "sdk (watchSubprocess_locks ps)"

lemma upward_section [intro]: "n < 4 \<Longrightarrow> upward n (session_section p)"
  unfolding session_section_def by (rule upward_critical) simp_all

lemma upward_dispatch: "n < 5 \<Longrightarrow> upward n (callback d) \<Longrightarrow> upward n (dispatch_locks d)"
  by (cases d) (auto simp: dispatch_locks_def callback_def intro!: upward_append upward_critical)

lemma upward_leaf [intro]: "upward 0 (critical m l [])"
  by (rule upward_critical) (simp_all add: rank_pos)

lemma upward_close_all [intro]: "n < 3 \<Longrightarrow> upward n (close_all_locks ps)"
  unfolding close_all_locks_def by (intro upward_critical upward_concat_map upward_section) simp_all

lemma upward_deliver:
  assumes "calm_delivery v" "upward 0 (subscribers v)"
  shows "upward 0 (deliver_locks v)"
proof -
  have h: "upward 4 (dispatch_locks (Some u))" if "u \<in> set (dv_hooks v)" for u
    by (rule upward_dispatch) (use assms(1) that in \<open>simp_all add: calm_delivery_def calm_def list_all_iff callback_def\<close>)
  show ?thesis
    using assms h
    by (cases "dv_rest v") (auto simp: deliver_locks_def calm_delivery_def calm_def subscribers_def intro!: upward_critical)
qed

lemma upward_register: "(\<And>v. v \<in> set pending \<Longrightarrow> calm_delivery v \<and> upward 0 (subscribers v)) \<Longrightarrow> upward 0 (registerSession_locks pending)"
  by (auto simp: registerSession_locks_def intro: upward_deliver)

lemma upward_teardown: "upward 0 (callback d) \<Longrightarrow> upward 0 (teardownSession_locks p d)"
  by (auto simp: teardownSession_locks_def intro: upward_dispatch)

lemma upward_set_model: "upward 0 (UnstableSetModel_locks outcome)"
  by (auto simp: UnstableSetModel_locks_def ensureStarted_locks_def lookupSession_locks_def split: option.splits)

lemma upward_config: "upward 0 (applySessionConfig_locks p cp)"
  by (cases "cp_effort cp")
    (auto simp: applySessionConfig_locks_def applyEffort_locks_def ensureStarted_locks_def upward_set_model)

lemma upward_opened: "upward 0 (open_callback oe) \<Longrightarrow> upward 0 (opened_locks p oe)"
  by (cases oe) (auto simp: opened_locks_def open_callback_def intro: upward_config upward_teardown upward_dispatch)

lemma upward_begin: "upward 0 (begin_locks bridge)" "upward 0 (login_locks login)"
  by (auto simp: begin_locks_def login_locks_def ensureStarted_locks_def)

lemma upward_Status: "upward 0 Status_locks"
  unfolding Status_locks_def by (intro upward_critical) simp_all

lemma sdk_upward: "sdk u \<Longrightarrow> upward 0 u"
proof (induction rule: sdk.induct)
  case (route d)
  then show ?case by (cases d) (auto simp: routeSessionUpdate_locks_def intro: upward_deliver)
next
  case (start transport bridge)
  have "upward 1 (if bridge then critical Exclusive BridgeMu [] else [])" by (auto intro: upward_critical)
  then show ?case using start unfolding Start_locks_def calm_def by (intro upward_critical upward_append) simp_all
next
  case (prompt submit stop onComplete p schema outcome)
  then show ?case by (auto simp: Prompt_locks_def capture_locks_def intro: upward_dispatch split: option.splits)
next
  case (new_session pending oe p bridge login)
  then show ?case by (auto simp: NewSession_locks_def intro: upward_begin upward_register upward_opened)
next
  case (load_session pending ended oe p bridge login)
  then show ?case by (auto simp: LoadSession_locks_def intro: upward_begin upward_register upward_opened upward_teardown)
next
  case (close ended transport ps bridge)
  have "upward 0 (dispatch_locks (Some u))" if "u \<in> set ended" for u
    by (rule upward_dispatch) (use close that in \<open>simp_all add: callback_def\<close>)
  then show ?case using close(4) by (auto simp: Close_locks_def)
qed (auto simp: recordUsageUpdate_locks_def capture_locks_def maxTurns_locks_def ensureStarted_locks_def CancelAll_locks_def
    watchSubprocess_locks_def request_locks_def budget_handler_locks_def intro: upward_dispatch upward_set_model upward_Status)

lemma sdk_disciplined: "list_all sdk cs \<Longrightarrow> disciplined (goroutines cs)"
  using sdk_upward by (auto simp: disciplined_def goroutines_def list_all_iff upward_def)

lemma exclusion_start: "exclusion (goroutines cs)"
  by (simp add: exclusion_def goroutines_def)

text \<open>
  C6: The SDK does not deadlock: however many goroutines call its operations, and however their lock operations
  interleave, a lock held exclusively has one holder, and as long as a goroutine has not ended there is one
  whose next lock operation is certain to succeed, even if waiting writers keep readers out; all
  can run to their end, and no run goes on for ever. This holds whatever callbacks do outside the
  locks, where they may call the SDK again; callbacks under a session's lock, and the
  factory of a custom transport under the client's, must be calm.
\<close>

theorem sdk_never_deadlocks:
  assumes "list_all sdk cs" and "lock_step\<^sup>*\<^sup>* (goroutines cs) s"
  shows "exclusion s \<and> (all_ended s \<or> (\<exists>i < length s. certain s i)) \<and> (\<exists>s'. lock_step\<^sup>*\<^sup>* s s' \<and> all_ended s') \<and>
    (\<forall>s'. lock_step s s' \<longrightarrow> remaining s' < remaining s)"
proof -
  have "disciplined s \<and> exclusion s"
    using steps_keep [OF assms(2)] sdk_disciplined [OF assms(1)] exclusion_start by blast
  then show ?thesis using progress [of s] can_end [of s] step_remaining [of s] by (metis lessI)
qed

text \<open>A tool call whose hook reads the budget, and a failing prompt, while the client is closed.\<close>

definition busy :: "code list" where
  "busy = [routeSessionUpdate_locks (Some \<lparr>dv_session = 0, dv_hooks = [Status_locks], dv_rest = Some (CancelAll_locks [0], [])\<rparr>),
     Close_locks [0] [[]] [] True, Prompt_locks 0 None False (Some False) None []]"

theorem sdk_never_deadlocks_witness:
  "\<exists>s. lock_step\<^sup>*\<^sup>* (goroutines busy) s \<and> all_ended s \<and> exclusion s"
proof -
  have "upward 4 Status_locks" unfolding Status_locks_def by (intro upward_critical) simp_all
  then have "list_all sdk busy"
    by (auto simp: busy_def calm_delivery_def calm_def subscribers_def callback_def intro!: sdk.route sdk.cancel_all sdk.close sdk.prompt sdk.idle)
  from sdk_never_deadlocks [OF this] show ?thesis by (metis rtranclp.rtrancl_refl rtranclp_trans)
qed

section \<open>Callbacks under the lock\<close>

text \<open>
  Nothing tells the author of a hook that a tool-call hook runs under the lock of its session. One that
  cancels the session blocks for ever, and one that opens another session can block with a concurrent
  \<open>Close\<close>, each waiting for the lock the other holds.
\<close>

definition stuck :: "goroutine list \<Rightarrow> bool" where
  "stuck s \<longleftrightarrow> \<not> all_ended s \<and> (\<forall>s'. \<not> lock_step s s')"

definition tool_call :: "nat \<Rightarrow> code \<Rightarrow> code" where
  "tool_call p hook = routeSessionUpdate_locks (Some \<lparr>dv_session = p, dv_hooks = [hook], dv_rest = Some ([], [])\<rparr>)"

lemma stuck_code: "stuck s \<longleftrightarrow> \<not> all_ended s \<and> list_all (\<lambda>i. take_turn s i = None) [0..<length s]"
  by (auto simp: stuck_def lock_step_iff list_all_iff simp flip: not_Some_eq)

theorem reentrant_hook_deadlocks:
  "(\<exists>s. lock_step\<^sup>*\<^sup>* (goroutines [tool_call p (session_section p)]) s \<and> stuck s) \<and>
   (\<exists>s. lock_step\<^sup>*\<^sup>* (goroutines [tool_call p (registerSession_locks []), Close_locks [p] ended transport bridge]) s \<and> stuck s)"
proof -
  let ?a = "[tool_call p (session_section p)]"
    and ?b = "[tool_call p (registerSession_locks []), Close_locks [p] ended transport bridge]"
  note defs = goroutines_def tool_call_def session_section_def critical_def routeSessionUpdate_locks_def deliver_locks_def
    dispatch_locks_def take_turn_def free_for_def registerSession_locks_def Close_locks_def close_all_locks_def
  obtain s where "schedule [0, 0, 0, 0, 0] (goroutines ?a) = Some s" "stuck s"
    by (simp add: defs stuck_code all_ended_def)
  moreover obtain s' where "schedule [0, 0, 0, 0, 0, 1, 1, 1] (goroutines ?b) = Some s'" "stuck s'"
    by (simp add: defs stuck_code all_ended_def)
  ultimately show ?thesis using schedule_steps by blast
qed

end
