(* ===== verification/Process.thy ===== *)
theory Process
  imports SessionOps
begin

text \<open>
  The opencode binary: finding it and checking its version (\<open>internal/cli\<close>), the command line,
  environment and pipes of the subprocess and the bookkeeping of its exit (\<open>internal/subprocess\<close>),
  and the model the TUI was last used with (\<open>internal/tuimodel\<close>).

  What the operating system does is a parameter: where a program is found, what
  \<open>opencode --version\<close> prints, which pipe or start fails.
\<close>

section \<open>Versions\<close>

datatype version = Version (v_major: int) (v_minor: int) (v_patch: int)

instantiation version :: linorder
begin

fun less_version :: "version \<Rightarrow> version \<Rightarrow> bool" where
  "Version a b c < Version a' b' c' \<longleftrightarrow> a < a' \<or> a = a' \<and> (b < b' \<or> b = b' \<and> c < c')"

definition less_eq_version :: "version \<Rightarrow> version \<Rightarrow> bool" where
  "less_eq_version v w \<longleftrightarrow> v < w \<or> v = w"

instance
proof
  fix x y z :: version
  show "(x < y) = (x \<le> y \<and> \<not> y \<le> x)"
    by (cases x; cases y) (auto simp: less_eq_version_def)
  show "x \<le> x" by (simp add: less_eq_version_def)
  show "x \<le> y \<Longrightarrow> y \<le> z \<Longrightarrow> x \<le> z"
    by (cases x; cases y; cases z) (auto simp: less_eq_version_def)
  show "x \<le> y \<Longrightarrow> y \<le> x \<Longrightarrow> x = y"
    by (cases x; cases y) (auto simp: less_eq_version_def)
  show "x \<le> y \<or> y \<le> x"
    by (cases x; cases y) (auto simp: less_eq_version_def)
qed

end

text \<open>\<open>strings.SplitN\<close> for a positive limit, and \<open>strconv.Atoi\<close>.\<close>

definition split_n :: "nat \<Rightarrow> char \<Rightarrow> string \<Rightarrow> string list" where
  "split_n n c s =
     (let ps = split_on c s
      in if length ps \<le> n then ps else take (n - 1) ps @ [join_with [c] (drop (n - 1) ps)])"

definition atoi_error :: "string \<Rightarrow> string \<Rightarrow> goerr" where
  "atoi_error s why = ENew (''strconv.Atoi: parsing '' @ go_quote s @ '': '' @ why)"

definition atoi :: "string \<Rightarrow> goerr + int" where
  "atoi s =
     (let (neg, ds) = (if has_prefix s ''-'' then (True, tl s)
                       else if has_prefix s ''+'' then (False, tl s) else (False, s))
      in if ds = [] \<or> \<not> list_all is_digit ds then Inl (atoi_error s ''invalid syntax'')
         else (let n = (if neg then - int (digits_value ds) else int (digits_value ds))
               in if in_i64 n then Inr n else Inl (atoi_error s ''value out of range'')))"

fun parse_components :: "string \<Rightarrow> nat \<Rightarrow> nat \<Rightarrow> string list \<Rightarrow> goerr + int list" where
  "parse_components v i 0 parts = Inr []"
| "parse_components v i (Suc k) [] = Inr (replicate (Suc k) 0)"
| "parse_components v i (Suc k) (p # ps) =
     (case atoi p of
        Inl err \<Rightarrow> Inl (errorf_s_w (''component '' @ itoa (int i) @ '' of '' @ go_quote v) err)
      | Inr n \<Rightarrow> (case parse_components v (i + 1) k ps of Inl err \<Rightarrow> Inl err | Inr ns \<Rightarrow> Inr (n # ns)))"

definition version_core :: "string \<Rightarrow> string" where
  "version_core v =
     (let t = trim_space v; t' = (if has_prefix t ''v'' then tl t else t)
      in takeWhile (\<lambda>c. c \<noteq> CHR ''-'' \<and> c \<noteq> CHR ''+'') t')"

definition parseVersion :: "string \<Rightarrow> goerr + int list" where
  "parseVersion v = parse_components (version_core v) 0 3 (split_n 4 (CHR ''.'') (version_core v))"

fun compare_components :: "int list \<Rightarrow> int list \<Rightarrow> bool" where
  "compare_components (g # gs) (f # fs) = (if g \<noteq> f then g > f else compare_components gs fs)"
| "compare_components _ _ = True"

definition atLeast_version :: "string \<Rightarrow> string \<Rightarrow> goerr + bool" where
  "atLeast_version got minimum =
     (case parseVersion got of
        Inl err \<Rightarrow> Inl (errorf_s_w ''parse got'' err)
      | Inr g \<Rightarrow>
          (case parseVersion minimum of
             Inl err \<Rightarrow> Inl (errorf_s_w ''parse floor'' err)
           | Inr f \<Rightarrow> Inr (compare_components g f)))"

section \<open>Discovery\<close>

definition MinimumCLIVersion :: string where "MinimumCLIVersion = ''1.14.20''"

record Discoverer =
  di_Path :: string
  di_SkipVersionCheck :: bool
  di_MinimumVersion :: string

record process_env =
  pe_lookPath :: "string \<Rightarrow> goerr + string"
  pe_runVersion :: "string \<Rightarrow> string \<times> goerr option"
  pe_environ :: "string list"
  pe_pipe :: "nat \<Rightarrow> goerr option"
  pe_start :: "string \<Rightarrow> string list \<Rightarrow> string list \<Rightarrow> string \<Rightarrow> goerr option"

definition resolvePath :: "process_env \<Rightarrow> Discoverer \<Rightarrow> goerr + string" where
  "resolvePath pe d =
     (if di_Path d \<noteq> []
      then (case pe_lookPath pe (di_Path d) of
              Inl err \<Rightarrow> Inl (errorf_w_s (ESent CliErrNotFound) (di_Path d @ '': '' @ err_msg err))
            | Inr _ \<Rightarrow> Inr (di_Path d))
      else (case pe_lookPath pe ''opencode'' of
              Inl err \<Rightarrow> Inl (errorf_w_s (ESent CliErrNotFound) (err_msg err))
            | Inr p \<Rightarrow> Inr p))"

definition probeVersion :: "process_env \<Rightarrow> string \<Rightarrow> goerr + string" where
  "probeVersion pe path =
     (case pe_runVersion pe path of
        (out, Some err) \<Rightarrow>
          Inl (EWrap (path @ '' --version: '' @ err_msg err @ '' (output: '' @ go_quote out @ '')'') [err])
      | (out, None) \<Rightarrow>
          (let first = trim_space (hd (split_n 2 (CHR 0x0A) out))
           in if first = [] then Inl (ENew (path @ '' --version: empty output'')) else Inr first))"

definition Discover :: "process_env \<Rightarrow> Discoverer \<Rightarrow> goerr + string \<times> string" where
  "Discover pe d =
     (case resolvePath pe d of
        Inl err \<Rightarrow> Inl err
      | Inr path \<Rightarrow>
          (case probeVersion pe path of
             Inl err \<Rightarrow> Inl (errorf_s_w ''probing opencode version'' err)
           | Inr version \<Rightarrow>
               if di_SkipVersionCheck d \<or> di_MinimumVersion d = [] then Inr (path, version)
               else (case atLeast_version version (di_MinimumVersion d) of
                  Inl err \<Rightarrow> Inl (errorf_s_w (''comparing opencode version '' @ go_quote version @
                      '' against minimum '' @ go_quote (di_MinimumVersion d)) err)
                | Inr ok \<Rightarrow>
                    if \<not> ok then Inl (errorf_w_s (ESent CliErrUnsupportedVersion)
                      (''found '' @ version @ '', require >= '' @ di_MinimumVersion d))
                    else Inr (path, version))))"

section \<open>The version check is the order on versions\<close>

fun to_version :: "int list \<Rightarrow> version" where
  "to_version [a, b, c] = Version a b c"
| "to_version _ = Version 0 0 0"

definition version_of :: "string \<Rightarrow> version option" where
  "version_of s = (case parseVersion s of Inl _ \<Rightarrow> None | Inr ns \<Rightarrow> Some (to_version ns))"

lemma parse_components_length: "parse_components v i k ps = Inr ns \<Longrightarrow> length ns = k"
  by (induction v i k ps arbitrary: ns rule: parse_components.induct) (auto split: sum.splits)

lemma parseVersion_length: "parseVersion s = Inr ns \<Longrightarrow> \<exists>a b c. ns = [a, b, c]"
proof -
  assume "parseVersion s = Inr ns"
  then have "length ns = 3" unfolding parseVersion_def by (rule parse_components_length)
  then show ?thesis by (auto simp: numeral_3_eq_3 length_Suc_conv)
qed

lemma compare_components_order: "compare_components [a, b, c] [a', b', c'] \<longleftrightarrow> Version a' b' c' \<le> Version a b c"
  by (auto simp: less_eq_version_def)

lemma atLeast_order:
  assumes "version_of got = Some g" "version_of minimum = Some f"
  shows "atLeast_version got minimum = Inr (f \<le> g)"
  using assms parseVersion_length
  by (auto simp: version_of_def atLeast_version_def compare_components_order simp del: compare_components.simps
      split: sum.splits dest!: parseVersion_length)

lemma minimum_version: "version_of MinimumCLIVersion = Some (Version 1 14 20)"
  by code_simp

text \<open>The check is a total order on the versions that parse.\<close>

lemma atLeast_refl: "version_of u = Some a \<Longrightarrow> atLeast_version u u = Inr True"
  by (simp add: atLeast_order)

lemma atLeast_trans:
  assumes "version_of u = Some a" "version_of v = Some b" "version_of w = Some c"
    and "atLeast_version u v = Inr True" "atLeast_version v w = Inr True"
  shows "atLeast_version u w = Inr True"
  using assms by (simp add: atLeast_order)

section \<open>Spawning\<close>

record spawn_config =
  sc_Path :: string
  sc_Args :: "string list"
  sc_Env :: "(string \<times> string) list"
  sc_Cwd :: string

text \<open>The name of an entry of \<open>os.Environ\<close>; the loop of \<open>buildEnv\<close> that indexes the names.\<close>

definition env_key :: "string \<Rightarrow> string option" where
  "env_key kv = (if CHR ''='' \<in> set kv then Some (takeWhile (\<lambda>c. c \<noteq> CHR ''='') kv) else None)"

fun env_index :: "nat \<Rightarrow> string list \<Rightarrow> (string \<times> nat) list \<Rightarrow> (string \<times> nat) list" where
  "env_index i [] idx = idx"
| "env_index i (kv # env) idx =
     env_index (i + 1) env (case env_key kv of None \<Rightarrow> idx | Some k \<Rightarrow> amap_put k i idx)"

definition overlay_one :: "(string \<times> nat) list \<Rightarrow> string \<times> string \<Rightarrow> string list \<Rightarrow> string list" where
  "overlay_one idx kv env =
     (let entry = fst kv @ ''='' @ snd kv
      in case map_of idx (fst kv) of Some i \<Rightarrow> env[i := entry] | None \<Rightarrow> env @ [entry])"

definition buildEnv :: "string list \<Rightarrow> (string \<times> string) list \<Rightarrow> string list" where
  "buildEnv environ overlay =
     (if overlay = [] then environ
      else fold (overlay_one (env_index 0 environ [])) overlay environ)"

definition spawn_args :: "spawn_config \<Rightarrow> string list" where
  "spawn_args cfg =
     [''acp'', ''--hostname'', ''127.0.0.1'', ''--port'', ''0''] @
     (if sc_Cwd cfg \<noteq> [] then [''--cwd'', sc_Cwd cfg] else []) @ sc_Args cfg"

text \<open>\<open>Spawn\<close> with the pipes (0 stdin, 1 stdout, 2 stderr) that are open when it returns.\<close>

definition Spawn :: "process_env \<Rightarrow> spawn_config \<Rightarrow> goerr option \<times> nat list" where
  "Spawn pe cfg =
     (if sc_Path cfg = [] then (Some (ENew ''subprocess: Config.Path is required''), [])
      else case pe_pipe pe 0 of
        Some err \<Rightarrow> (Some (errorf_s_w ''creating stdin pipe'' err), [])
      | None \<Rightarrow>
          (case pe_pipe pe 1 of
             Some err \<Rightarrow> (Some (errorf_s_w ''creating stdout pipe'' err), remove1 0 [0])
           | None \<Rightarrow>
               (case pe_pipe pe 2 of
                  Some err \<Rightarrow> (Some (errorf_s_w ''creating stderr pipe'' err), remove1 1 (remove1 0 [0, 1]))
                | None \<Rightarrow>
                    (case pe_start pe (sc_Path cfg) (spawn_args cfg) (buildEnv (pe_environ pe) (sc_Env cfg)) (sc_Cwd cfg) of
                       Some err \<Rightarrow>
                         (Some (errorf_s_w ''starting opencode acp'' err), remove1 2 (remove1 1 (remove1 0 [0, 1, 2])))
                     | None \<Rightarrow> (None, [0, 1, 2])))))"

text \<open>The connection of a client whose subprocess is started this way.\<close>

definition with_process :: "process_env \<Rightarrow> string \<Rightarrow> 'w conn \<Rightarrow> 'w conn" where
  "with_process pe tui cn = cn\<lparr>
     cn_discover := (\<lambda>ce. (Discover pe \<lparr>di_Path = o_cliPath (c_opts (fst ce)),
        di_SkipVersionCheck = o_skipVersionCheck (c_opts (fst ce)), di_MinimumVersion = MinimumCLIVersion\<rparr>, ce)),
     cn_spawn := (\<lambda>path args env ce. (fst (Spawn pe \<lparr>sc_Path = path, sc_Args = args, sc_Env = env,
        sc_Cwd = o_cwd (c_opts (fst ce))\<rparr>), ce)),
     cn_tui := tui\<rparr>"

text \<open>
  C35: The version gate. When the binary is found and reports a version, building the transport
  spawns it exactly if the version check is off or the version is at least 1.14.20 in the
  lexicographic order; otherwise it fails with ErrUnsupportedCLIVersion without spawning anything
  (the outcome does not depend on what the spawn would do) and leaves the client as it was. A spawned
  subprocess has an open span, a failed spawn has none left.
\<close>

theorem version_gate:
  assumes "\<not> o_customTransport (c_opts c)" "resolvePath pe \<lparr>di_Path = o_cliPath (c_opts c),
      di_SkipVersionCheck = o_skipVersionCheck (c_opts c), di_MinimumVersion = MinimumCLIVersion\<rparr> = Inr path"
    and "probeVersion pe path = Inr found" "version_of found = Some v"
  shows "case buildTransport (with_process pe tui cn) (c, e) of (r, (c', e')) \<Rightarrow>
    if o_skipVersionCheck (c_opts c) \<or> Version 1 14 20 \<le> v
    then (case fst (Spawn pe \<lparr>sc_Path = path, sc_Args = subprocessArgs c, sc_Env = subprocessEnv c, sc_Cwd = o_cwd (c_opts c)\<rparr>) of
            None \<Rightarrow> r = None \<and> c' = c\<lparr>c_subprocessSpan := Some (length (he_spans e))\<rparr> \<and>
              he_obs e' = RecordCLISpawn ''started'' (he_obs e) \<and>
              open_spans (he_spans e') = insert (length (he_spans e)) (open_spans (he_spans e))
          | Some err \<Rightarrow> r = Some (errorf_s_w ''spawning opencode acp'' err) \<and> c' = c\<lparr>c_subprocessSpan := None\<rparr> \<and>
              he_obs e' = RecordCLISpawn ''error'' (he_obs e) \<and> open_spans (he_spans e') = open_spans (he_spans e))
    else (\<exists>err. r = Some err \<and> errors_is err ErrUnsupportedCLIVersion) \<and> (c', e') = (c, e)"
proof -
  have not_open: "length (he_spans x) \<notin> open_spans (he_spans x)" for x :: "'a henv" by (simp add: open_spans_def)
  have min: "MinimumCLIVersion \<noteq> []" by (simp add: MinimumCLIVersion_def)
  have a: "atLeast_version found MinimumCLIVersion = Inr (Version 1 14 20 \<le> v)"
    using atLeast_order [OF assms(4) minimum_version] .
  show ?thesis
    using assms(1-3) a min not_open [of e]
    by (cases "fst (Spawn pe \<lparr>sc_Path = path, sc_Args = subprocessArgs c, sc_Env = subprocessEnv c, sc_Cwd = o_cwd (c_opts c)\<rparr>)")
      (simp_all add: buildTransport_def with_process_def Discover_def discover_error_def subprocess_span_open
        split_def)
qed

definition demo_process :: "string \<Rightarrow> process_env" where
  "demo_process out = \<lparr>pe_lookPath = (\<lambda>p. Inr (''/bin/'' @ p)), pe_runVersion = (\<lambda>_. (out, None)),
     pe_environ = [''A=1'', ''HOME=/h''], pe_pipe = (\<lambda>_. None), pe_start = (\<lambda>_ _ _ _. None)\<rparr>"

theorem version_gate_witness:
  "\<exists>err. fst (buildTransport (with_process (demo_process ''1.9.30'') [] demo_conn) (newClient (demo_options, demo_heap), demo_env))
     = Some err \<and> errors_is err ErrUnsupportedCLIVersion"
proof -
  let ?c = "newClient (demo_options, demo_heap)"
  have o: "c_opts ?c = demo_options" by (simp add: newClient_sel)
  have d: "o_cliPath demo_options = []" "\<not> o_customTransport demo_options" "\<not> o_skipVersionCheck demo_options"
    by (simp_all add: demo_options_def defaultOptions_def)
  have v: "version_of ''1.9.30'' = Some (Version 1 9 30)" by code_simp
  have p: "probeVersion (demo_process ''1.9.30'') ''/bin/opencode'' = Inr ''1.9.30''"
  proof -
    have "trim_space (hd (split_n 2 (CHR 0x0A) ''1.9.30'')) = ''1.9.30''" by code_simp
    then show ?thesis by (simp add: probeVersion_def demo_process_def)
  qed
  have "\<not> o_customTransport (c_opts ?c)" "\<not> o_skipVersionCheck (c_opts ?c)"
    and "resolvePath (demo_process ''1.9.30'') \<lparr>di_Path = o_cliPath (c_opts ?c),
      di_SkipVersionCheck = o_skipVersionCheck (c_opts ?c), di_MinimumVersion = MinimumCLIVersion\<rparr> = Inr ''/bin/opencode''"
    by (simp_all add: o d resolvePath_def demo_process_def)
  with version_gate [where c = ?c and pe = "demo_process ''1.9.30''" and path = "''/bin/opencode''" and found = "''1.9.30''"
      and v = "Version 1 9 30" and tui = "[]" and cn = demo_conn and e = demo_env] v p
  show ?thesis by (auto simp: less_eq_version_def split: prod.splits)
qed

section \<open>The environment of the subprocess\<close>

text \<open>What a program started with an environment finds under a name: the last entry counts.\<close>

definition env_get :: "string list \<Rightarrow> string \<Rightarrow> string option" where
  "env_get env k =
     (let hits = filter (\<lambda>kv. env_key kv = Some k) env
      in if hits = [] then None else Some (drop (Suc (length k)) (last hits)))"

definition idx_ok :: "(string \<times> nat) list \<Rightarrow> string \<Rightarrow> string list \<Rightarrow> bool" where
  "idx_ok idx k env \<longleftrightarrow>
     (case map_of idx k of
        Some i \<Rightarrow> i < length env \<and> env_key (env ! i) = Some k \<and> (\<forall>x \<in> set (drop (Suc i) env). env_key x \<noteq> Some k)
      | None \<Rightarrow> True)"

lemma idx_ok_keys:
  "idx_ok idx k env \<longleftrightarrow>
     (case map_of idx k of
        Some i \<Rightarrow> i < length (map env_key env) \<and> map env_key env ! i = Some k \<and>
          Some k \<notin> set (drop (Suc i) (map env_key env))
      | None \<Rightarrow> True)"
  by (force simp: idx_ok_def drop_map split: option.splits)

lemma env_key_entry: "CHR ''='' \<notin> set k \<Longrightarrow> env_key (k @ ''='' @ v) = Some k"
  by (auto simp: env_key_def takeWhile_append)

lemma idx_ok_snoc:
  "idx_ok idx k env \<Longrightarrow> env_key kv \<noteq> Some k \<Longrightarrow> idx_ok idx k (env @ [kv])"
  by (auto simp: idx_ok_def nth_append split: option.splits)

lemma env_index_ok:
  "\<forall>k. idx_ok idx k pre \<Longrightarrow> idx_ok (env_index (length pre) env idx) k (pre @ env)"
proof (induction env arbitrary: pre idx)
  case (Cons kv env)
  define idx' where "idx' = (case env_key kv of None \<Rightarrow> idx | Some k \<Rightarrow> amap_put k (length pre) idx)"
  have "\<forall>k. idx_ok idx' k (pre @ [kv])"
  proof
    fix k
    show "idx_ok idx' k (pre @ [kv])"
    proof (cases "env_key kv = Some k")
      case True
      then show ?thesis by (simp add: idx'_def idx_ok_def)
    next
      case False
      with Cons.prems have "idx_ok idx k (pre @ [kv])" by (simp add: idx_ok_snoc)
      with False show ?thesis by (auto simp: idx'_def idx_ok_def split: option.splits)
    qed
  qed
  from Cons.IH [OF this] show ?case by (simp add: idx'_def)
qed simp

lemma env_split: "i < length env \<Longrightarrow> env = take i env @ env ! i # drop (Suc i) env"
  by (rule id_take_nth_drop)

lemma overlay_one_get:
  assumes "idx_ok idx k env" "CHR ''='' \<notin> set k"
  shows "env_get (overlay_one idx (k, v) env) k' = (if k' = k then Some v else env_get env k')"
proof (cases "map_of idx k")
  case None
  with assms(2) show ?thesis by (auto simp: overlay_one_def Let_def env_get_def env_key_entry simp del: append_Cons)
next
  case (Some i)
  with assms(1) have i: "i < length env" "env_key (env ! i) = Some k"
    "filter (\<lambda>kv. env_key kv = Some k) (drop (Suc i) env) = []"
    by (auto simp: idx_ok_def filter_empty_conv)
  have u: "overlay_one idx (k, v) env = take i env @ (k @ ''='' @ v) # drop (Suc i) env"
    using Some i(1) by (simp add: overlay_one_def Let_def upd_conv_take_nth_drop)
  show ?thesis
  proof (cases "k' = k")
    case True
    then show ?thesis using i(3) assms(2) by (simp add: u env_get_def env_key_entry Let_def del: append_Cons)
  next
    case False
    have "filter (\<lambda>kv. env_key kv = Some k') (overlay_one idx (k, v) env) = filter (\<lambda>kv. env_key kv = Some k') env"
      using False i(2) assms(2) by (subst (2) env_split [OF i(1)]) (simp add: u env_key_entry del: append_Cons)
    with False show ?thesis by (simp add: env_get_def)
  qed
qed

lemma overlay_one_ok:
  assumes "idx_ok idx k env" "idx_ok idx k' env" "k' \<noteq> k" "CHR ''='' \<notin> set k"
  shows "idx_ok idx k' (overlay_one idx (k, v) env)"
proof (cases "map_of idx k")
  case None
  with assms show ?thesis by (simp add: overlay_one_def Let_def env_key_entry idx_ok_snoc del: append_Cons)
next
  case (Some j)
  with assms(1) have j: "j < length env" "env_key (env ! j) = Some k" by (auto simp: idx_ok_def)
  have "env_key x = env_key y" if "x = k @ ''='' @ v" "y = env ! j" for x y
    using that j assms(4) by (simp add: env_key_entry del: append_Cons)
  then have m: "map env_key (env[j := k @ ''='' @ v]) = map env_key env"
    using j by (simp add: map_update list_update_same_conv del: append_Cons)
  have "idx_ok idx k' (env[j := k @ ''='' @ v])"
    using assms(2) unfolding idx_ok_keys m .
  then show ?thesis using Some by (simp add: overlay_one_def Let_def)
qed

text \<open>
  The environment of the subprocess is the inherited one with the overlay on top: under every
  name the program finds the overlay's value when there is one and what it would have inherited
  otherwise (with duplicate entries in the inherited environment, the last one counts, before and
  after).
\<close>

theorem buildEnv_overlay:
  assumes "distinct (map fst overlay)" "list_all (\<lambda>kv. CHR ''='' \<notin> set (fst kv)) overlay"
  shows "env_get (buildEnv environ overlay) k =
    (case map_of overlay k of Some v \<Rightarrow> Some v | None \<Rightarrow> env_get environ k)"
proof -
  have "(\<forall>k \<in> fst ` set overlay. idx_ok idx k env) \<Longrightarrow>
      env_get (fold (overlay_one idx) overlay env) k =
        (case map_of overlay k of Some v \<Rightarrow> Some v | None \<Rightarrow> env_get env k)" for idx env
    using assms
  proof (induction overlay arbitrary: env)
    case (Cons kv overlay)
    obtain k1 v where kv: "kv = (k1, v)" by (cases kv)
    have ok: "idx_ok idx k1 env" "CHR ''='' \<notin> set k1" using Cons.prems kv by auto
    have "\<forall>k \<in> fst ` set overlay. idx_ok idx k (overlay_one idx (k1, v) env)"
      using Cons.prems kv ok by (auto intro!: overlay_one_ok)
    with Cons kv have "env_get (fold (overlay_one idx) overlay (overlay_one idx (k1, v) env)) k =
        (case map_of overlay k of Some w \<Rightarrow> Some w | None \<Rightarrow> env_get (overlay_one idx (k1, v) env) k)"
      by simp
    moreover have "k = k1 \<Longrightarrow> map_of overlay k = None" using Cons.prems(2) kv by (simp add: map_of_eq_None_iff)
    ultimately show ?case using kv by (auto simp: overlay_one_get [OF ok] split: option.splits)
  qed simp
  moreover have "idx_ok (env_index 0 environ []) k environ" for k
    using env_index_ok [of "[]" "[]" environ k] by (simp add: idx_ok_def)
  ultimately show ?thesis by (simp add: buildEnv_def)
qed

theorem buildEnv_overlay_witness:
  "env_get (buildEnv [''A=1'', ''HOME=/h''] [(''A'', ''2''), (''B'', ''3'')]) ''A'' = Some ''2'' \<and>
   env_get (buildEnv [''A=1'', ''HOME=/h''] [(''A'', ''2''), (''B'', ''3'')]) ''HOME'' = env_get [''A=1'', ''HOME=/h''] ''HOME''"
  by (simp add: buildEnv_overlay)

section \<open>A failed spawn leaves nothing open\<close>

lemma Spawn_pipes: "Spawn pe cfg = (r, pipes) \<Longrightarrow> pipes = (if r = None then [0, 1, 2] else [])"
  by (auto simp: Spawn_def split: if_splits option.splits)

section \<open>The exit of the subprocess\<close>

record process =
  pr_shuttingDown :: bool
  pr_exited :: bool
  pr_exitSet :: bool
  pr_exitErr :: "goerr option"
  pr_waitErr :: "goerr option option"
  pr_killed :: bool
  pr_closed :: bool
  pr_closeErr :: "goerr option"

definition spawned :: process where
  "spawned = \<lparr>pr_shuttingDown = False, pr_exited = False, pr_exitSet = False, pr_exitErr = None,
     pr_waitErr = None, pr_killed = False, pr_closed = False, pr_closeErr = None\<rparr>"

text \<open>\<open>succeeded\<close> says of an exit error that its process state is a success.\<close>

definition isNormalTermination :: "(goerr \<Rightarrow> bool) \<Rightarrow> goerr option \<Rightarrow> bool" where
  "isNormalTermination succeeded err = (case err of None \<Rightarrow> True | Some e \<Rightarrow> succeeded e)"

definition setExitErr :: "(goerr \<Rightarrow> bool) \<Rightarrow> goerr option \<Rightarrow> process \<Rightarrow> process" where
  "setExitErr succeeded err p =
     (if pr_exitSet p then p
      else
        (let p1 = p\<lparr>pr_exitSet := True\<rparr>
         in if pr_shuttingDown p1 then p1
            else if err \<noteq> None \<and> \<not> isNormalTermination succeeded err then p1\<lparr>pr_exitErr := err\<rparr> else p1))"

definition ExitErr :: "process \<Rightarrow> goerr option" where
  "ExitErr p = (if pr_exited p then pr_exitErr p else None)"

definition stuck_error :: goerr where
  "stuck_error = ENew ''opencode acp did not exit after SIGKILL''"

text \<open>
  The steps of the two goroutines: the wait returns, \<open>Close\<close> begins (once), finds the process
  reaped, kills it after the first timeout and gives up after the second.
\<close>

inductive proc_step :: "(goerr \<Rightarrow> bool) \<Rightarrow> process \<Rightarrow> process \<Rightarrow> bool" for succeeded where
  wait_returns: "\<not> pr_exited p \<Longrightarrow>
     proc_step succeeded p ((setExitErr succeeded err p)\<lparr>pr_exited := True, pr_waitErr := Some err\<rparr>)"
| close_begins: "\<not> pr_shuttingDown p \<Longrightarrow> proc_step succeeded p (p\<lparr>pr_shuttingDown := True\<rparr>)"
| close_reaps: "pr_shuttingDown p \<Longrightarrow> \<not> pr_closed p \<Longrightarrow> pr_waitErr p = Some err \<Longrightarrow>
     proc_step succeeded p (p\<lparr>pr_waitErr := None, pr_closed := True\<rparr>)"
| close_kills: "pr_shuttingDown p \<Longrightarrow> \<not> pr_closed p \<Longrightarrow> \<not> pr_killed p \<Longrightarrow>
     proc_step succeeded p (p\<lparr>pr_killed := True\<rparr>)"
| close_gives_up: "pr_shuttingDown p \<Longrightarrow> \<not> pr_closed p \<Longrightarrow> pr_killed p \<Longrightarrow>
     proc_step succeeded p (p\<lparr>pr_closeErr := Some stuck_error, pr_closed := True\<rparr>)"

inductive_cases proc_stepE: "proc_step succeeded p q"

inductive proc_run :: "(goerr \<Rightarrow> bool) \<Rightarrow> process \<Rightarrow> bool" for succeeded where
  start: "proc_run succeeded spawned"
| step: "proc_run succeeded p \<Longrightarrow> proc_step succeeded p q \<Longrightarrow> proc_run succeeded q"

definition proc_inv :: "(goerr \<Rightarrow> bool) \<Rightarrow> process \<Rightarrow> bool" where
  "proc_inv succeeded p \<longleftrightarrow> (pr_exitSet p = pr_exited p) \<and> (pr_exitErr p \<noteq> None \<longrightarrow> pr_exited p) \<and>
     (\<forall>e. pr_exitErr p = Some e \<longrightarrow> \<not> succeeded e) \<and>
     (pr_waitErr p \<noteq> None \<longrightarrow> pr_exited p) \<and> (pr_killed p \<longrightarrow> pr_shuttingDown p) \<and>
     (pr_closed p \<longrightarrow> pr_shuttingDown p \<and> (pr_exited p \<or> pr_closeErr p \<noteq> None)) \<and>
     (pr_closeErr p \<noteq> None \<longrightarrow> pr_closed p \<and> pr_killed p)"

lemma proc_inv_spawned: "proc_inv succeeded spawned"
  by (simp add: proc_inv_def spawned_def)

lemma proc_inv_step: "proc_step succeeded p q \<Longrightarrow> proc_inv succeeded p \<Longrightarrow> proc_inv succeeded q"
  by (erule proc_stepE) (auto simp: proc_inv_def setExitErr_def isNormalTermination_def Let_def)

lemma proc_run_inv: "proc_run succeeded p \<Longrightarrow> proc_inv succeeded p"
  by (induction rule: proc_run.induct) (auto simp: proc_inv_spawned intro: proc_inv_step)

text \<open>An exit error is never changed, and none appears once a shutdown has begun.\<close>

lemma exit_error_stable:
  "proc_step succeeded p q \<Longrightarrow> proc_inv succeeded p \<Longrightarrow>
     (pr_exited p \<or> pr_shuttingDown p \<longrightarrow> ExitErr q = ExitErr p) \<and> (pr_shuttingDown p \<longrightarrow> pr_shuttingDown q) \<and>
     (pr_exited p \<longrightarrow> pr_exited q)"
  by (erule proc_stepE) (auto simp: proc_inv_def setExitErr_def ExitErr_def Let_def)

text \<open>
  C37: What counts as a crash. In every reachable state of a subprocess an exit error is only
  reported for a process that has exited abnormally; a process that \<open>Close\<close> began to shut down
  before it exited never reports one, whatever it was killed with; and \<open>Close\<close> ends only with the
  process reaped or, after a SIGKILL that did not help, with an error.
\<close>

theorem exit_reporting:
  assumes "proc_run succeeded p"
  shows "(\<forall>e. ExitErr p = Some e \<longrightarrow> pr_exited p \<and> \<not> succeeded e) \<and>
    (pr_closed p \<longrightarrow> pr_exited p \<or> pr_killed p \<and> pr_closeErr p \<noteq> None) \<and>
    (\<forall>q. (proc_step succeeded)\<^sup>*\<^sup>* p q \<and> (pr_exited p \<or> pr_shuttingDown p) \<longrightarrow> ExitErr q = ExitErr p)"
proof -
  have i: "proc_inv succeeded p" using assms by (rule proc_run_inv)
  have "ExitErr q = ExitErr p \<and> (pr_exited q \<or> pr_shuttingDown q) \<and> proc_inv succeeded q"
    if "(proc_step succeeded)\<^sup>*\<^sup>* p q" "pr_exited p \<or> pr_shuttingDown p" for q
    using that
  proof (induction rule: rtranclp_induct)
    case (step q r)
    then have q: "ExitErr q = ExitErr p" "pr_exited q \<or> pr_shuttingDown q" "proc_inv succeeded q" by blast+
    with exit_error_stable [OF step.hyps(2) q(3)] proc_inv_step [OF step.hyps(2) q(3)] show ?case by metis
  qed (use i in simp)
  then have "\<forall>q. (proc_step succeeded)\<^sup>*\<^sup>* p q \<and> (pr_exited p \<or> pr_shuttingDown p) \<longrightarrow> ExitErr q = ExitErr p" by blast
  moreover have "\<forall>e. ExitErr p = Some e \<longrightarrow> pr_exited p \<and> \<not> succeeded e"
    "pr_closed p \<longrightarrow> pr_exited p \<or> pr_killed p \<and> pr_closeErr p \<noteq> None"
    using i by (auto simp: proc_inv_def ExitErr_def)
  ultimately show ?thesis by blast
qed

theorem exit_reporting_witness:
  "\<exists>p. proc_run (\<lambda>_. False) p \<and> pr_shuttingDown p \<and> pr_exited p \<and> ExitErr p = None"
proof -
  let ?q = "spawned\<lparr>pr_shuttingDown := True\<rparr>"
  let ?r = "(setExitErr (\<lambda>_. False) (Some (ENew ''signal: killed'')) ?q)\<lparr>pr_exited := True, pr_waitErr := Some (Some (ENew ''signal: killed''))\<rparr>"
  have q: "proc_run (\<lambda>_. False) ?q"
    by (rule proc_run.step [OF proc_run.start close_begins]) (simp add: spawned_def)
  have s: "proc_step (\<lambda>_. False) ?q ?r"
    by (rule wait_returns) (simp add: spawned_def)
  have e: "ExitErr ?q = None" "pr_exited ?r" "pr_shuttingDown ?r"
    by (simp_all add: ExitErr_def spawned_def setExitErr_def Let_def)
  have "pr_shuttingDown ?q" by simp
  with exit_reporting [OF q] r_into_rtranclp [of "proc_step (\<lambda>_. False)", OF s] have "ExitErr ?r = ExitErr ?q" by blast
  then have "ExitErr ?r = None" using e(1) by simp
  with proc_run.step [OF q s] e show ?thesis by blast
qed

section \<open>The model of the TUI\<close>

record tui_file =
  tf_Recent :: "(string \<times> string) list"
  tf_Variant :: "(string \<times> string) list"

definition statePath :: "os \<Rightarrow> string" where
  "statePath s =
     (if os_getenv ''XDG_STATE_HOME'' s \<noteq> []
      then path_join [os_getenv ''XDG_STATE_HOME'' s, ''opencode'', ''model.json'']
      else case os_home s of
        None \<Rightarrow> []
      | Some home \<Rightarrow> path_join [home, ''.local'', ''state'', ''opencode'', ''model.json''])"

definition tui_model :: "tui_file \<Rightarrow> string" where
  "tui_model f =
     (case tf_Recent f of
        [] \<Rightarrow> []
      | (provider, model) # _ \<Rightarrow>
          if provider = [] \<or> model = [] then []
          else
            (let base = provider @ ''/'' @ model; v = str_or (map_of (tf_Variant f) base)
             in if v \<noteq> [] \<and> v \<noteq> ''default'' then base @ ''/'' @ v else base))"

text \<open>\<open>decode\<close> is \<open>json.Unmarshal\<close> into the file's two fields.\<close>

definition Resolve :: "(string \<Rightarrow> tui_file option) \<Rightarrow> os \<Rightarrow> string" where
  "Resolve decode s =
     (if statePath s = [] then []
      else case os_read (statePath s) s of
        Inl _ \<Rightarrow> []
      | Inr raw \<Rightarrow> (case decode raw of None \<Rightarrow> [] | Some f \<Rightarrow> tui_model f))"

text \<open>
  The model a new session defaults to always has the form \<open>provider/model\<close> or
  \<open>provider/model/variant\<close>, and an unusable file gives none.
\<close>

lemma tui_model_shape:
  "tui_model f = [] \<or> (\<exists>p m rest. tui_model f = p @ ''/'' @ m @ rest \<and> p \<noteq> [] \<and> m \<noteq> [])"
proof (cases "tf_Recent f")
  case (Cons x xs)
  obtain a b where x: "x = (a, b)" by (cases x)
  have "\<exists>p m rest. a @ ''/'' @ b @ r = p @ ''/'' @ m @ rest \<and> p \<noteq> [] \<and> m \<noteq> []" if "a \<noteq> []" "b \<noteq> []" for r
    using that by blast
  from this [of "[]"] this show ?thesis using Cons x by (auto simp: tui_model_def Let_def simp del: append_Cons)
qed (simp add: tui_model_def)

lemma Resolve_shape:
  "Resolve decode s = [] \<or> (\<exists>p m rest. Resolve decode s = p @ ''/'' @ m @ rest \<and> p \<noteq> [] \<and> m \<noteq> [])"
  using tui_model_shape by (simp add: Resolve_def split: sum.splits option.splits)

lemma Resolve_unreadable: "os_fail s OpRead (statePath s) = Some err \<Longrightarrow> Resolve decode s = []"
  by (simp add: Resolve_def os_read_def)

end
