(* ===== verification/Base64.thy ===== *)
theory Base64
  imports GoBase
begin

text \<open>
  \<open>encoding/base64\<close> as the program uses it: \<open>StdEncoding\<close> for the data of blocks and \<open>RawURLEncoding\<close> for
  the bearer token of the tool bridge. Both are one encoder over an alphabet, with or without padding;
  the locale states what an alphabet owes for the decoder to undo the encoder.
\<close>

section \<open>The encoder\<close>

definition StdAlphabet :: string where
  "StdAlphabet = ''ABCDEFGHIJKLMNOPQRSTUVWXYZabcdefghijklmnopqrstuvwxyz0123456789+/''"

definition URLAlphabet :: string where
  "URLAlphabet = ''ABCDEFGHIJKLMNOPQRSTUVWXYZabcdefghijklmnopqrstuvwxyz0123456789-_''"

definition padding :: "bool \<Rightarrow> nat \<Rightarrow> string" where
  "padding pad n = (if pad then replicate n (CHR ''='') else [])"

fun b64_encode :: "string \<Rightarrow> bool \<Rightarrow> nat list \<Rightarrow> string" where
  "b64_encode al pad [] = []"
| "b64_encode al pad [a] = [al ! (a div 4), al ! ((a mod 4) * 16)] @ padding pad 2"
| "b64_encode al pad [a, b] =
     [al ! (a div 4), al ! ((a mod 4) * 16 + b div 16), al ! ((b mod 16) * 4)] @ padding pad 1"
| "b64_encode al pad (a # b # c # rest) =
     al ! (a div 4) # al ! ((a mod 4) * 16 + b div 16) # al ! ((b mod 16) * 4 + c div 64)
       # al ! (c mod 64) # b64_encode al pad rest"

definition StdEncodeToString :: "string \<Rightarrow> string" where
  "StdEncodeToString data = b64_encode StdAlphabet True (map char_code data)"

definition RawURLEncodeToString :: "string \<Rightarrow> string" where
  "RawURLEncodeToString data = b64_encode URLAlphabet False (map char_code data)"

section \<open>The decoder\<close>

text \<open>What the receiver applies (RFC 4648, sections 4 and 5).\<close>

definition b64_value :: "string \<Rightarrow> char \<Rightarrow> nat option" where
  "b64_value al c = map_of (zip al [0..<64]) c"

definition b64_pair :: "string \<Rightarrow> char \<Rightarrow> char \<Rightarrow> nat list option" where
  "b64_pair al w x =
     (case (b64_value al w, b64_value al x) of (Some p, Some q) \<Rightarrow> Some [p * 4 + q div 16] | _ \<Rightarrow> None)"

definition b64_triple :: "string \<Rightarrow> char \<Rightarrow> char \<Rightarrow> char \<Rightarrow> nat list option" where
  "b64_triple al w x y =
     (case (b64_value al w, b64_value al x, b64_value al y) of
        (Some p, Some q, Some r) \<Rightarrow> Some [p * 4 + q div 16, (q mod 16) * 16 + r div 4] | _ \<Rightarrow> None)"

fun b64_decode :: "string \<Rightarrow> bool \<Rightarrow> string \<Rightarrow> nat list option" where
  "b64_decode al pad [] = Some []"
| "b64_decode al pad [w] = None"
| "b64_decode al pad [w, x] = (if pad then None else b64_pair al w x)"
| "b64_decode al pad [w, x, y] = (if pad then None else b64_triple al w x y)"
| "b64_decode al pad (w # x # y # z # rest) =
     (if pad \<and> z = CHR ''=''
      then if rest \<noteq> [] then None else if y = CHR ''='' then b64_pair al w x else b64_triple al w x y
      else (case (b64_value al w, b64_value al x, b64_value al y, b64_value al z, b64_decode al pad rest) of
              (Some p, Some q, Some r, Some t, Some bs) \<Rightarrow>
                Some ((p * 4 + q div 16) # ((q mod 16) * 16 + r div 4) # ((r mod 4) * 64 + t) # bs)
            | _ \<Rightarrow> None))"

definition StdDecodeString :: "string \<Rightarrow> string option" where
  "StdDecodeString s = map_option (map char_of) (b64_decode StdAlphabet True s)"

section \<open>The round trip\<close>

lemma bytes_induct [case_names none one two more]:
  fixes bs :: "nat list"
  assumes "P []" "\<And>a. P [a]" "\<And>a b. P [a, b]" "\<And>a b c rest. P rest \<Longrightarrow> P (a # b # c # rest)"
  shows "P bs"
  by (rule b64_encode.induct [where P = "\<lambda>_ _. P"]) (simp_all add: assms)

lemma b64_bounds:
  fixes a b c :: nat
  shows "a < 256 \<Longrightarrow> a div 4 < 64" "b < 256 \<Longrightarrow> (a mod 4) * 16 + b div 16 < 64"
    "c < 256 \<Longrightarrow> (b mod 16) * 4 + c div 64 < 64"
proof -
  have m: "a mod 4 < 4" "b mod 16 < 16" by simp_all
  show "a < 256 \<Longrightarrow> a div 4 < 64" by (simp add: div_less_iff_less_mult)
  show "b < 256 \<Longrightarrow> (a mod 4) * 16 + b div 16 < 64" using m(1) div_less_iff_less_mult [of 16 b 16] by simp
  show "c < 256 \<Longrightarrow> (b mod 16) * 4 + c div 64 < 64" using m(2) div_less_iff_less_mult [of 64 c 4] by simp
qed

lemma b64_high_bits:
  fixes b c :: nat
  shows "b < 256 \<Longrightarrow> b div 16 < 16" "c < 256 \<Longrightarrow> c div 64 < 4"
  by (simp_all add: div_less_iff_less_mult)

locale alphabet =
  fixes digit :: "nat \<Rightarrow> char"
    and al :: string
  assumes digit: "digit n = al ! n"
    and digit_value: "n < 64 \<Longrightarrow> b64_value al (digit n) = Some n"
    and digit_pad: "n < 64 \<Longrightarrow> digit n \<noteq> CHR ''=''"
begin

lemma value_nth [simp]: "n < 64 \<Longrightarrow> b64_value al (al ! n) = Some n"
  using digit_value digit by simp

lemma nth_pad [simp]: "n < 64 \<Longrightarrow> al ! n \<noteq> CHR ''=''"
  using digit_pad digit by metis

lemma roundtrip: "\<forall>b \<in> set bs. b < 256 \<Longrightarrow> b64_decode al pad (b64_encode al pad bs) = Some bs"
proof (induction bs rule: bytes_induct)
  case (one a)
  then have "a div 4 < 64" "(a mod 4) * 16 < 64" using b64_bounds(2) [of 0 a] by (simp_all add: b64_bounds)
  then show ?case by (simp add: padding_def b64_pair_def numeral_2_eq_2)
next
  case (two a b)
  then have "a div 4 < 64" "(a mod 4) * 16 + b div 16 < 64" "(b mod 16) * 4 < 64"
    using b64_bounds(3) [of 0 b] by (simp_all add: b64_bounds)
  moreover have "b div 16 < 16" using two by (simp add: b64_high_bits)
  ultimately show ?case by (simp add: padding_def b64_triple_def)
next
  case (more a b c rest)
  let ?n1 = "a div 4" and ?n2 = "(a mod 4) * 16 + b div 16" and ?n3 = "(b mod 16) * 4 + c div 64" and ?n4 = "c mod 64"
  from more.prems have n: "?n1 < 64" "?n2 < 64" "?n3 < 64" "?n4 < 64" by (simp_all add: b64_bounds)
  have v: "b64_value al (al ! ?n1) = Some ?n1" "b64_value al (al ! ?n2) = Some ?n2" "b64_value al (al ! ?n3) = Some ?n3"
    "b64_value al (al ! ?n4) = Some ?n4" "al ! ?n4 \<noteq> CHR ''=''"
    by (rule value_nth [OF n(1)] value_nth [OF n(2)] value_nth [OF n(3)] value_nth [OF n(4)] nth_pad [OF n(4)])+
  have ih: "b64_decode al pad (b64_encode al pad rest) = Some rest" using more by simp
  have b: "?n1 * 4 + ?n2 div 16 = a" "(?n2 mod 16) * 16 + ?n3 div 4 = b" "(?n3 mod 4) * 64 + ?n4 = c"
    using more.prems b64_high_bits(1) [of b] b64_high_bits(2) [of c] by simp_all
  show ?case by (simp only: b64_encode.simps b64_decode.simps v ih b simp_thms if_False prod.case option.case)
qed simp

lemma encode_inj:
  assumes "\<forall>b \<in> set bs. b < 256" "\<forall>b \<in> set cs. b < 256" "b64_encode al pad bs = b64_encode al pad cs"
  shows "bs = cs"
  using roundtrip [OF assms(1), of pad] roundtrip [OF assms(2), of pad] assms(3) by (metis option.inject)

lemma encode_digits: "\<forall>b \<in> set bs. b < 256 \<Longrightarrow> set (b64_encode al False bs) \<subseteq> (!) al ` {..<64}"
proof (induction bs rule: bytes_induct)
  case (one a)
  then have "a div 4 < 64" "(a mod 4) * 16 < 64" using b64_bounds(2) [of 0 a] by (simp_all add: b64_bounds)
  then show ?case using one by (auto simp: padding_def)
next
  case (two a b)
  then have "a div 4 < 64" "(a mod 4) * 16 + b div 16 < 64" "(b mod 16) * 4 < 64"
    using b64_bounds(3) [of 0 b] by (simp_all add: b64_bounds)
  then show ?case using two by (auto simp: padding_def)
next
  case (more a b c rest)
  then have "a div 4 < 64" "(a mod 4) * 16 + b div 16 < 64" "(b mod 16) * 4 + c div 64 < 64" "c mod 64 < 64"
    by (simp_all add: b64_bounds)
  then show ?case using more by auto
qed simp

end

definition std_digit :: "nat \<Rightarrow> char" where "std_digit n = StdAlphabet ! n"

definition url_digit :: "nat \<Rightarrow> char" where "url_digit n = URLAlphabet ! n"

interpretation std: alphabet std_digit StdAlphabet
proof
  have "list_all (\<lambda>n. b64_value StdAlphabet (std_digit n) = Some n \<and> std_digit n \<noteq> CHR ''='') [0..<64]" by code_simp
  then show "n < 64 \<Longrightarrow> b64_value StdAlphabet (std_digit n) = Some n" "n < 64 \<Longrightarrow> std_digit n \<noteq> CHR ''=''" for n
    by (simp_all add: list_all_iff)
qed (simp add: std_digit_def)

interpretation url: alphabet url_digit URLAlphabet
proof
  have "list_all (\<lambda>n. b64_value URLAlphabet (url_digit n) = Some n \<and> url_digit n \<noteq> CHR ''='') [0..<64]" by code_simp
  then show "n < 64 \<Longrightarrow> b64_value URLAlphabet (url_digit n) = Some n" "n < 64 \<Longrightarrow> url_digit n \<noteq> CHR ''=''" for n
    by (simp_all add: list_all_iff)
qed (simp add: url_digit_def)

lemma char_codes_bytes: "\<forall>b \<in> set (map char_code data). b < 256"
  by (auto simp: char_code_def)

lemma map_char_code_inj: "map char_code xs = map char_code ys \<longleftrightarrow> xs = ys"
  by (rule inj_map_eq_map) (simp add: inj_def char_code_def)

lemma StdDecode_Encode: "StdDecodeString (StdEncodeToString data) = Some data"
  using std.roundtrip [OF char_codes_bytes, of True data]
  by (simp add: StdDecodeString_def StdEncodeToString_def char_code_def o_def)

lemma RawURLEncode_inj: "RawURLEncodeToString xs = RawURLEncodeToString ys \<longleftrightarrow> xs = ys"
  using url.encode_inj [OF char_codes_bytes char_codes_bytes, of False xs ys]
  by (auto simp: RawURLEncodeToString_def map_char_code_inj)

lemma RawURLEncode_length: "length (b64_encode al False bs) = (4 * length bs + 2) div 3"
  by (induction bs rule: bytes_induct) (simp_all add: padding_def)

lemma RawURLEncode_chars: "c \<in> set (RawURLEncodeToString data) \<Longrightarrow> c \<in> set URLAlphabet"
proof -
  assume "c \<in> set (RawURLEncodeToString data)"
  then obtain n where "n < 64" "c = URLAlphabet ! n"
    using url.encode_digits [OF char_codes_bytes, of data] by (auto simp: RawURLEncodeToString_def)
  moreover have "length URLAlphabet = 64" by (simp add: URLAlphabet_def)
  ultimately show ?thesis by simp
qed

end
