(* ===== verification/Bridge.thy ===== *)
theory Bridge
  imports Process Base64
begin

text \<open>
  The tool bridge (\<open>internal/mcp/bridge\<close>): the loopback server opencode calls the client's tools
  through, its bearer check, the coercion of arguments, the dispatch of a tool call with its
  measurement, and what a tool can do while it runs (\<open>elicit.go\<close>, \<open>mcp_helpers.go\<close>).

  The MCP protocol itself is a library; a request is what it hands to the SDK: a path, the
  Authorization header, the name of a tool and its arguments. \<open>unmarshal\<close> and \<open>remarshal\<close> are the
  JSON codec of arguments that do not arrive as a map.
\<close>

section \<open>The server\<close>

record bridge =
  br_token :: string
  br_url :: string
  br_started :: bool
  br_closed :: bool
  br_serving :: bool

text \<open>\<open>rand\<close> is what \<open>rand.Read\<close> gives for 32 bytes; \<open>listen\<close> the address the listener got.\<close>

definition randomToken :: "goerr + string \<Rightarrow> goerr + string" where
  "randomToken rand = (case rand of Inl err \<Rightarrow> Inl err | Inr buf \<Rightarrow> Inr (RawURLEncodeToString buf))"

definition bridge_New :: "goerr + string \<Rightarrow> goerr + bridge" where
  "bridge_New rand =
     (case randomToken rand of
        Inl err \<Rightarrow> Inl (errorf_s_w ''generating bearer token'' err)
      | Inr token \<Rightarrow> Inr \<lparr>br_token = token, br_url = [], br_started = False, br_closed = False, br_serving = False\<rparr>)"

definition bridge_Start :: "goerr + string \<Rightarrow> bridge \<Rightarrow> goerr option \<times> bridge" where
  "bridge_Start listen b =
     (if br_started b then (Some (ENew ''bridge: already started''), b)
      else if br_closed b then (Some (ENew ''bridge: closed''), b)
      else case listen of
        Inl err \<Rightarrow> (Some (errorf_s_w ''listen on loopback'' err), b)
      | Inr addr \<Rightarrow> (None, b\<lparr>br_url := ''http://'' @ addr @ ''/mcp'', br_started := True, br_serving := True\<rparr>))"

definition bridge_Close :: "goerr option \<Rightarrow> bridge \<Rightarrow> goerr option \<times> bridge" where
  "bridge_Close shutdownErr b =
     (if br_closed b then (None, b) else (shutdownErr, b\<lparr>br_closed := True, br_serving := False\<rparr>))"

section \<open>A tool call\<close>

datatype arguments = ArgsNil | ArgsMap payload | ArgsRaw string | ArgsOther json

definition coerceArguments :: "(string \<Rightarrow> goerr + payload) \<Rightarrow> (json \<Rightarrow> goerr + string) \<Rightarrow> arguments \<Rightarrow>
    goerr + payload" where
  "coerceArguments unmarshal remarshal args =
     (case args of
        ArgsNil \<Rightarrow> Inr []
      | ArgsMap m \<Rightarrow> Inr m
      | ArgsRaw raw \<Rightarrow>
          (if raw = [] then Inr []
           else case unmarshal raw of
             Inl err \<Rightarrow> Inl (errorf_s_w ''unmarshal arguments'' err) | Inr m \<Rightarrow> Inr m)
      | ArgsOther v \<Rightarrow>
          (case remarshal v of
             Inl err \<Rightarrow> Inl (errorf_s_w ''re-marshal arguments'' err)
           | Inr raw \<Rightarrow>
               (case unmarshal raw of
                  Inl err \<Rightarrow> Inl (errorf_s_w ''unmarshal arguments'' err) | Inr m \<Rightarrow> Inr m)))"

record CallToolResult =
  ctr_Content :: "string list"
  ctr_Structured :: "json option"
  ctr_IsError :: bool

definition error_result :: "goerr \<Rightarrow> CallToolResult" where
  "error_result err = \<lparr>ctr_Content = [err_msg err], ctr_Structured = None, ctr_IsError = True\<rparr>"

definition output_result :: "ToolOutput \<Rightarrow> CallToolResult" where
  "output_result out =
     \<lparr>ctr_Content = (if to_Text out = [] then [] else [to_Text out]), ctr_Structured = to_Structured out,
      ctr_IsError = to_IsError out\<rparr>"

definition record_call :: "string \<Rightarrow> string \<Rightarrow> 'w ce \<Rightarrow> 'w ce" where
  "record_call tool status ce = (fst ce, on_obs (RecordMCPBridge tool status) (snd ce))"

text \<open>The handler \<open>addTool\<close> registers.\<close>

definition call_tool :: "(string \<Rightarrow> goerr + payload) \<Rightarrow> (json \<Rightarrow> goerr + string) \<Rightarrow> 'w ToolDef \<Rightarrow>
    arguments \<Rightarrow> 'w ce \<Rightarrow> CallToolResult \<times> 'w ce" where
  "call_tool unmarshal remarshal def args ce =
     (case coerceArguments unmarshal remarshal args of
        Inl err \<Rightarrow> (error_result err, record_call (td_Name def) ''error'' ce)
      | Inr inp \<Rightarrow>
          (case td_Handler def inp ce of
             (Inr err, ce1) \<Rightarrow> (error_result err, record_call (td_Name def) ''error'' ce1)
           | (Inl None, ce1) \<Rightarrow>
               (\<lparr>ctr_Content = [], ctr_Structured = None, ctr_IsError = False\<rparr>, record_call (td_Name def) ''ok'' ce1)
           | (Inl (Some out), ce1) \<Rightarrow>
               (output_result out,
                record_call (td_Name def) (if to_IsError out then ''app_error'' else ''ok'') ce1)))"

section \<open>A request\<close>

record tool_request =
  tr_Path :: string
  tr_Authorization :: string
  tr_Tool :: string
  tr_Args :: arguments

datatype response = Refused | NotFound | Unauthorized | NoSuchTool | ToolResult CallToolResult

definition requireBearer :: "string \<Rightarrow> string \<Rightarrow> 'r \<times> 's \<Rightarrow> ('s \<Rightarrow> 'r \<times> 's) \<Rightarrow> 's \<Rightarrow> 'r \<times> 's" where
  "requireBearer token header denied serve_next s =
     (if header \<noteq> ''Bearer '' @ token then denied else serve_next s)"

text \<open>The mux: /mcp and everything below /mcp/ goes to the authenticated handler.\<close>

definition serve :: "(string \<Rightarrow> goerr + payload) \<Rightarrow> (json \<Rightarrow> goerr + string) \<Rightarrow> bridge \<Rightarrow> 'w ToolDef list \<Rightarrow>
    tool_request \<Rightarrow> 'w ce \<Rightarrow> response \<times> 'w ce" where
  "serve unmarshal remarshal b defs r ce =
     (if \<not> br_serving b then (Refused, ce)
      else if tr_Path r = ''/mcp'' \<or> has_prefix (tr_Path r) ''/mcp/''
      then requireBearer (br_token b) (tr_Authorization r) (Unauthorized, ce)
        (\<lambda>ce. case find (\<lambda>d. td_Name d = tr_Tool r) (rev defs) of
           None \<Rightarrow> (NoSuchTool, ce)
         | Some d \<Rightarrow>
             (case call_tool unmarshal remarshal d (tr_Args r) ce of (res, ce') \<Rightarrow> (ToolResult res, ce'))) ce
      else (NotFound, ce))"

section \<open>Elicitation from a tool\<close>

record ElicitParams =
  ep_Message :: string
  ep_Mode :: string
  ep_RequestedSchema :: "payload option"
  ep_URL :: string
  ep_ElicitationID :: string
  ep_Meta :: Meta

record ElicitResult =
  er_Action :: string
  er_Content :: "payload option"
  er_Meta :: Meta

definition ErrElicitationUnavailable :: goerr where
  "ErrElicitationUnavailable =
     ENew ''opencodesdk: elicitation unavailable; call Elicit from within a Tool.Execute invocation''"

text \<open>\<open>sess\<close> is the session the context carries, if any: what it answers to an elicitation.\<close>

definition Elicit :: "(ElicitParams \<Rightarrow> 's \<Rightarrow> (goerr + ElicitResult) \<times> 's) option \<Rightarrow> ElicitParams \<Rightarrow> 's \<Rightarrow>
    (goerr + ElicitResult) \<times> 's" where
  "Elicit sess params s =
     (case sess of
        None \<Rightarrow> (Inl ErrElicitationUnavailable, s)
      | Some ask \<Rightarrow>
          (let req = (if ep_Mode params = [] then params\<lparr>ep_Mode := ''form''\<rparr> else params)
           in case ask req s of
                (Inl err, s') \<Rightarrow> (Inl (errorf_s_w ''opencodesdk: elicitation failed'' err), s')
              | (Inr resp, s') \<Rightarrow> (Inr resp, s')))"

section \<open>Helpers for tool authors\<close>

definition TextResult :: "string \<Rightarrow> ToolOutput" where
  "TextResult text = \<lparr>to_Text = text, to_Structured = None, to_IsError = False\<rparr>"

definition ErrorResult :: "string \<Rightarrow> ToolOutput" where
  "ErrorResult message = \<lparr>to_Text = message, to_Structured = None, to_IsError = True\<rparr>"

definition type_schema :: "string \<Rightarrow> (string \<times> json) list" where
  "type_schema t = [(''type'', JStr t)]"

definition simpleSchemaEntry :: "string \<Rightarrow> payload" where
  "simpleSchemaEntry kind =
     (let k = to_lower (trim_space kind)
      in if k = ''string'' then type_schema ''string''
         else if k \<in> {''int'', ''int64'', ''integer''} then type_schema ''integer''
         else if k \<in> {''float'', ''float64'', ''number''} then type_schema ''number''
         else if k \<in> {''bool'', ''boolean''} then type_schema ''boolean''
         else if k = ''[]string'' then type_schema ''array'' @ [(''items'', JObj (type_schema ''string''))]
         else if k = ''object'' then type_schema ''object''
         else if k = ''any'' \<or> k = [] then []
         else type_schema kind)"

text \<open>The fields in the order the map is ranged over.\<close>

definition SimpleSchema :: "(string \<times> string) list \<Rightarrow> payload" where
  "SimpleSchema fs =
     [(''type'', JStr ''object''),
      (''properties'', JObj (map (\<lambda>(name, kind). (name, JObj (simpleSchemaEntry kind))) fs))] @
     (if fs = [] then [] else [(''required'', JArr (map (JStr \<circ> fst) fs))])"

section \<open>Who gets through\<close>

definition under_mcp :: "string \<Rightarrow> bool" where
  "under_mcp p \<longleftrightarrow> p = ''/mcp'' \<or> has_prefix p ''/mcp/''"

text \<open>
  Nothing happens without the token. A request to a bridge that is not serving (not started, or
  closed), or outside /mcp, or whose Authorization header is not exactly ``Bearer'' and the token of
  this bridge, runs no tool, leaves the client untouched and measures nothing, whatever the tools
  are and whatever it asks for.
\<close>

theorem bridge_guard:
  assumes "\<not> (br_serving b \<and> under_mcp (tr_Path r) \<and> tr_Authorization r = ''Bearer '' @ br_token b)"
  shows "serve unmarshal remarshal b defs r ce =
    (if \<not> br_serving b then Refused else if \<not> under_mcp (tr_Path r) then NotFound else Unauthorized, ce)"
  using assms by (auto simp: serve_def requireBearer_def under_mcp_def)

definition demo_bridge :: bridge where
  "demo_bridge = \<lparr>br_token = ''t0k'', br_url = ''http://127.0.0.1:1/mcp'', br_started = True, br_closed = False, br_serving = True\<rparr>"

definition no_codec :: "string \<Rightarrow> goerr + payload" where
  "no_codec raw = Inl (ENew ''invalid JSON'')"

theorem bridge_guard_witness:
  "serve no_codec (\<lambda>_. Inr []) demo_bridge [demo_ask]
     \<lparr>tr_Path = ''/mcp'', tr_Authorization = ''Bearer t0k '', tr_Tool = ''AskUserQuestion'', tr_Args = ArgsNil\<rparr>
     (started_client, demo_env) = (Unauthorized, (started_client, demo_env))"
  by (subst bridge_guard) (simp_all add: demo_bridge_def under_mcp_def)

text \<open>A bridge serves exactly between a successful start and its first close.\<close>

lemma bridge_life:
  assumes "bridge_New rand = Inr b0"
  shows "\<not> br_serving b0 \<and>
    (\<forall>addr. bridge_Start (Inr addr) b0 = (None, b0\<lparr>br_url := ''http://'' @ addr @ ''/mcp'', br_started := True, br_serving := True\<rparr>)) \<and>
    (\<forall>b. br_started b \<longrightarrow> fst (bridge_Start l b) \<noteq> None \<and> snd (bridge_Start l b) = b) \<and>
    (\<forall>b err. \<not> br_serving b \<or> \<not> br_closed b \<longrightarrow> \<not> br_serving (snd (bridge_Close err b))) \<and>
    (\<forall>b err l. fst (bridge_Start l (snd (bridge_Close err b))) \<noteq> None \<or> br_closed (snd (bridge_Close err b)) = False)"
  using assms by (auto simp: bridge_New_def bridge_Start_def bridge_Close_def split: sum.splits)

section \<open>What a call reports\<close>

text \<open>
  Every tool call is answered and measured once. Whatever the tool does, the call is answered
  with a result and never with a protocol error; the last thing it does is one measurement under
  the tool's name, and its status agrees with the result: ok when the result is no error, app_error
  when the tool itself flagged one, error when the arguments could not be read or the tool failed,
  and then the result carries the failure's text.
\<close>

theorem tool_calls_measured:
  "\<exists>res c' e' ob status. call_tool unmarshal remarshal d args (c, e) = (res, (c', e')) \<and>
     he_obs e' = RecordMCPBridge (td_Name d) status ob \<and>
     (case coerceArguments unmarshal remarshal args of
        Inl err \<Rightarrow> status = ''error'' \<and> res = error_result err \<and> ob = he_obs e \<and> c' = c
      | Inr inp \<Rightarrow>
          ob = he_obs (snd (snd (td_Handler d inp (c, e)))) \<and> c' = fst (snd (td_Handler d inp (c, e))) \<and>
          (case fst (td_Handler d inp (c, e)) of
             Inr err \<Rightarrow> status = ''error'' \<and> ctr_IsError res \<and> ctr_Content res = [err_msg err]
           | Inl out \<Rightarrow> status = (if ctr_IsError res then ''app_error'' else ''ok'')))"
proof (cases "coerceArguments unmarshal remarshal args")
  case (Inl err)
  then show ?thesis by (simp add: call_tool_def record_call_def on_obs_def error_result_def)
next
  case (Inr inp)
  obtain r c1 e1 where h: "td_Handler d inp (c, e) = (r, (c1, e1))" by (metis prod.exhaust)
  show ?thesis
  proof (cases r)
    case (Inl out)
    then show ?thesis
      using Inr h by (cases out) (auto simp: call_tool_def record_call_def on_obs_def output_result_def)
  next
    case (Inr err)
    then show ?thesis
      using \<open>coerceArguments unmarshal remarshal args = Inr inp\<close> h
      by (simp add: call_tool_def record_call_def on_obs_def error_result_def)
  qed
qed

section \<open>From the session request to the tool\<close>

definition with_bridge :: "goerr + string \<Rightarrow> goerr + string \<Rightarrow> 'w conn \<Rightarrow> 'w conn" where
  "with_bridge rand listen cn = cn\<lparr>
     cn_newBridge := (\<lambda>names ce. (case bridge_New rand of Inl err \<Rightarrow> Some err | Inr _ \<Rightarrow> None, ce)),
     cn_startBridge := (\<lambda>ce. (case bridge_New rand of
          Inl err \<Rightarrow> Inl err
        | Inr b0 \<Rightarrow> (case bridge_Start listen b0 of
            (Some err, _) \<Rightarrow> Inl err | (None, b) \<Rightarrow> Inr (br_url b, br_token b)), ce))\<rparr>"

lemma bridge_entry_first:
  "\<exists>rest. o_mcpServers (fst (mergeOptions (Some (url, token)) tui opts oh)) = bridgeMcpServerEntry url token # rest"
  by (cases "fold apply_opt opts (copy_env oh)")
    (simp add: mergeOptions_def normalizeMcpServerSlices_def bridgeMcpServerEntry_def Let_def)

text \<open>
  C23: The credentials a session request carries open the bridge, and nothing else does. Once the
  client's bridge has started, the first MCP server of every session request is the bridge's, and
  the Authorization header advertised in it makes a request to the bridge reach the tools, at /mcp as
  at any path below /mcp/; a request to these paths with any other header is refused as unauthorised,
  and a request to any other path is not found whatever its header, in either case without running a
  tool, changing the client or measuring anything.
  The token keeps all of the 32 random bytes: two bridges have the same credentials only if they drew the
  same bytes, and it is 43 characters that need no escaping in a header.
\<close>

theorem advertised_credentials_open_the_bridge:
  assumes "start_bridge (with_bridge (Inr buf) (Inr addr) cn) names (c, e) = (None, (c', e'))" "names \<noteq> []"
    and "bridge_New (Inr buf) = Inr b0" "b = snd (bridge_Start (Inr addr) b0)" "length buf = 32"
    and "servers = o_mcpServers (fst (mergeOptions (c_bridge c') tui opts oh))"
  shows "\<exists>s ht a. servers = s # tl servers \<and> mcp_Http s = Some ht \<and> mh_Url ht = br_url b \<and>
    Option.bind (mh_Headers ht) (\<lambda>h. map_of h ''Authorization'') = Some a \<and>
    (\<forall>r ce. if under_mcp (tr_Path r) \<and> tr_Authorization r = a
       then fst (serve unmarshal remarshal b defs r ce) \<notin> {Refused, NotFound, Unauthorized}
       else serve unmarshal remarshal b defs r ce = (if under_mcp (tr_Path r) then Unauthorized else NotFound, ce)) \<and>
    (\<forall>buf2 b2. bridge_New (Inr buf2) = Inr b2 \<longrightarrow> (a = ''Bearer '' @ br_token b2 \<longleftrightarrow> buf2 = buf)) \<and>
    length (br_token b) = 43 \<and> set (br_token b) \<subseteq> set URLAlphabet"
proof -
  have b: "bridge_Start (Inr addr) b0 = (None, b)" "br_serving b" "br_token b = RawURLEncodeToString buf"
    using assms(3,4) by (auto simp: bridge_New_def bridge_Start_def randomToken_def split: sum.splits)
  have cb: "c_bridge c' = Some (br_url b, br_token b)"
    using assms(1-3) b(1) by (auto simp: start_bridge_def with_bridge_def)
  define ht where "ht = \<lparr>mh_Name = bridgeMcpName, mh_Url = br_url b, mh_Headers = Some [(''Authorization'', ''Bearer '' @ br_token b)]\<rparr>"
  define s where "s = bridgeMcpServerEntry (br_url b) (br_token b)"
  have s: "servers = s # tl servers" "mcp_Http s = Some ht"
    using bridge_entry_first [of "br_url b" "br_token b" tui opts oh] assms(6) cb
    by (auto simp: s_def ht_def bridgeMcpServerEntry_def)
  have "\<forall>r ce. if under_mcp (tr_Path r) \<and> tr_Authorization r = ''Bearer '' @ br_token b
       then fst (serve unmarshal remarshal b defs r ce) \<notin> {Refused, NotFound, Unauthorized}
       else serve unmarshal remarshal b defs r ce = (if under_mcp (tr_Path r) then Unauthorized else NotFound, ce)"
    using b(2) by (auto simp: serve_def requireBearer_def under_mcp_def split: option.splits prod.splits)
  moreover have "\<forall>buf2 b2. bridge_New (Inr buf2) = Inr b2 \<longrightarrow> (''Bearer '' @ br_token b = ''Bearer '' @ br_token b2 \<longleftrightarrow> buf2 = buf)"
    using RawURLEncode_inj by (auto simp: bridge_New_def randomToken_def b(3))
  moreover have "length (br_token b) = 43" "set (br_token b) \<subseteq> set URLAlphabet"
    using RawURLEncode_length [of URLAlphabet "map char_code buf"] RawURLEncode_chars [of _ buf] assms(5)
    by (auto simp: b(3) RawURLEncodeToString_def)
  ultimately show ?thesis using s
    by (intro exI [of _ s] exI [of _ ht] exI [of _ "''Bearer '' @ br_token b"]) (simp add: ht_def)
qed

definition demo_bytes :: string where "demo_bytes = replicate 32 (CHR 0x00)"

theorem advertised_credentials_open_the_bridge_witness:
  "\<exists>(b :: bridge) s ht. hd (o_mcpServers (fst (mergeOptions (Some (''http://h/mcp'', br_token b)) [] [] (defaultOptions, demo_heap)))) = s \<and>
     mcp_Http s = Some ht \<and> mh_Url ht = ''http://h/mcp'' \<and> length (br_token b) = 43"
proof -
  let ?fresh = "\<lparr>br_token = RawURLEncodeToString demo_bytes, br_url = [], br_started = False, br_closed = False, br_serving = False\<rparr>"
  let ?b = "snd (bridge_Start (Inr ''h'') ?fresh)"
  have n: "bridge_New (Inr demo_bytes) = Inr ?fresh" by (simp add: bridge_New_def randomToken_def)
  have u: "br_url ?b = ''http://h/mcp''" by (simp add: bridge_Start_def)
  obtain c' e' where st: "start_bridge (with_bridge (Inr demo_bytes) (Inr ''h'') demo_conn) [''add''] (started_client, demo_env)
      = (None, (c', e'))" "c_bridge c' = Some (''http://h/mcp'', br_token ?b)"
    by (simp add: start_bridge_def with_bridge_def n bridge_Start_def)
  have len: "length demo_bytes = 32" by (simp add: demo_bytes_def)
  define servers where "servers = o_mcpServers (fst (mergeOptions (c_bridge c') [] [] (defaultOptions, demo_heap)))"
  from advertised_credentials_open_the_bridge [OF st(1) _ n refl len servers_def, of no_codec "\<lambda>_. Inr []" "[]"]
  obtain s ht where w: "servers = s # tl servers" "mcp_Http s = Some ht" "mh_Url ht = br_url ?b" "length (br_token ?b) = 43"
    by blast
  from w(1) have "hd servers = s" by (metis list.sel(1))
  then have "hd (o_mcpServers (fst (mergeOptions (Some (''http://h/mcp'', br_token ?b)) [] [] (defaultOptions, demo_heap)))) = s"
    unfolding servers_def st(2) .
  then show ?thesis using w(2,4) trans [OF w(3) u] by (intro exI [of _ ?b] exI [of _ s] exI [of _ ht] conjI)
qed

lemma assembled_output_tool:
  assumes "assembleBridgeTools ask c = (Inr defs, c1)" "o_outputSchema (c_opts c) = Some schema"
  shows "\<exists>rest. defs = rest @ [structuredOutputBridgeDef schema] \<and> c_capture c1 \<noteq> None"
  using assms by (auto simp: assembleBridgeTools_def Let_def split: sum.splits option.splits if_splits)

text \<open>
  Structured output end to end. With an output schema configured, the tools assembled for the
  bridge answer an authorised call of the structured-output tool by capturing its arguments, so
  that the next drain (which the end of the prompt turn performs) returns exactly the payload the
  agent sent.
\<close>

theorem structured_output_through_the_bridge:
  assumes "assembleBridgeTools ask c = (Inr defs, c1)" "o_outputSchema (c_opts c) = Some schema"
    and "br_serving b" "under_mcp (tr_Path r)" "tr_Authorization r = ''Bearer '' @ br_token b"
    and "tr_Tool r = StructuredOutputToolName" "tr_Args r = ArgsMap p"
  shows "\<exists>res c2 e2 cap. serve unmarshal remarshal b defs r (c1, e) = (ToolResult res, (c2, e2)) \<and>
    \<not> ctr_IsError res \<and> ctr_Structured res = Some (JObj p) \<and>
    c_capture c2 = Some cap \<and> fst (capture_drain cap) = Some p"
proof -
  obtain rest cap0 where d: "defs = rest @ [structuredOutputBridgeDef schema]" "c_capture c1 = Some cap0"
    using assembled_output_tool [OF assms(1,2)] by blast
  then have f: "find (\<lambda>d. td_Name d = StructuredOutputToolName) (rev defs) = Some (structuredOutputBridgeDef schema)"
    by (simp add: structuredOutputBridgeDef_def)
  show ?thesis
    using assms(3-7) d(2)
    by (auto simp: serve_def requireBearer_def under_mcp_def f call_tool_def coerceArguments_def structuredOutputBridgeDef_def
        structured_tool_handler_def capture_store_def capture_drain_def output_result_def record_call_def)
qed

definition schema_client :: "nat client" where
  "schema_client = newClient (defaultOptions\<lparr>o_outputSchema := Some [(''type'', JStr ''object'')]\<rparr>, demo_heap)"

theorem structured_output_through_the_bridge_witness:
  "\<exists>defs c1 c2 e2 cap res. assembleBridgeTools demo_ask schema_client = (Inr defs, c1) \<and>
     serve no_codec (\<lambda>_. Inr []) demo_bridge defs \<lparr>tr_Path = ''/mcp'', tr_Authorization = ''Bearer t0k'',
       tr_Tool = StructuredOutputToolName, tr_Args = ArgsMap [(''x'', JNum 1)]\<rparr> (c1, demo_env) = (ToolResult res, (c2, e2)) \<and>
     c_capture c2 = Some cap \<and> fst (capture_drain cap) = Some [(''x'', JNum 1)]"
proof -
  have o: "o_outputSchema (c_opts schema_client) = Some [(''type'', JStr ''object'')]"
    by (simp add: schema_client_def newClient_sel)
  have "\<exists>defs. fst (assembleBridgeTools demo_ask schema_client) = Inr defs"
    by (simp add: assembleBridgeTools_def o schema_client_def newClient_sel defaultOptions_def Let_def)
  then obtain defs c1 where a: "assembleBridgeTools demo_ask schema_client = (Inr defs, c1)"
    by (metis prod.exhaust fst_conv)
  have "br_serving demo_bridge" "''Bearer t0k'' = ''Bearer '' @ br_token demo_bridge"
    by (simp_all add: demo_bridge_def)
  moreover have "under_mcp ''/mcp''" by (simp add: under_mcp_def)
  ultimately show ?thesis using a structured_output_through_the_bridge [OF a o, of demo_bridge "\<lparr>tr_Path = ''/mcp'', tr_Authorization = ''Bearer t0k'',
       tr_Tool = StructuredOutputToolName, tr_Args = ArgsMap [(''x'', JNum 1)]\<rparr>" "[(''x'', JNum 1)]" no_codec "\<lambda>_. Inr []" demo_env]
    by auto
qed

text \<open>An elicitation without a session fails without asking; with one, the mode defaults to form.\<close>

lemma Elicit_cases:
  "Elicit None params s = (Inl ErrElicitationUnavailable, s)"
  "\<exists>req. ep_Mode req \<noteq> [] \<and> (ep_Mode params \<noteq> [] \<longrightarrow> req = params) \<and> ep_Message req = ep_Message params \<and>
     snd (Elicit (Some ask) params s) = snd (ask req s) \<and>
     (\<forall>resp. fst (Elicit (Some ask) params s) = Inr resp \<longleftrightarrow> fst (ask req s) = Inr resp)"
  by (auto simp: Elicit_def Let_def split: prod.splits sum.splits)
     (rule exI [of _ "params\<lparr>ep_Mode := ''form''\<rparr>"], simp)+

lemma SimpleSchema_requires_every_field:
  "fs \<noteq> [] \<Longrightarrow> map_of (SimpleSchema fs) ''required'' = Some (JArr (map (JStr \<circ> fst) fs)) \<and>
     (\<exists>props. map_of (SimpleSchema fs) ''properties'' = Some (JObj props) \<and> map fst props = map fst fs)"
  by (auto simp: SimpleSchema_def comp_def)

end
