(* ===== verification/UserInput.thy ===== *)
theory UserInput
  imports Bridge
begin

text \<open>
  Questions to the user (\<open>user_input.go\<close>): the implicit AskUserQuestion tool, the decoding of its
  input, the caller's callback and the encoding of the answers.
\<close>

section \<open>Requests and answers\<close>

record QuestionOption =
  qo_Label :: string
  qo_Description :: string

record Question =
  q_ID :: string
  q_Header :: string
  q_Question :: string
  q_MultiSelect :: bool
  q_IsOther :: bool
  q_IsSecret :: bool
  q_Options :: "QuestionOption list"

type_synonym UserInputRequest = "Question list"

text \<open>The answers by question id; a nil answer is \<open>None\<close>.\<close>

type_synonym UserInputResponse = "(string \<times> string list option) list"

type_synonym 'w UserInputCallback = "UserInputRequest \<Rightarrow> 'w \<Rightarrow> (goerr + UserInputResponse option) \<times> 'w"

section \<open>Decoding the input\<close>

definition flag :: "payload \<Rightarrow> string \<Rightarrow> bool" where
  "flag m k = (as_bool (jget m k) = Some True)"

fun parse_options :: "json list \<Rightarrow> QuestionOption list" where
  "parse_options [] = []"
| "parse_options (raw # raws) =
     (case as_obj (Some raw) of
        None \<Rightarrow> parse_options raws
      | Some m \<Rightarrow>
          \<lparr>qo_Label = str_or (as_string (jget m ''label'')),
           qo_Description = str_or (as_string (jget m ''description''))\<rparr> # parse_options raws)"

definition question_id :: "nat \<Rightarrow> payload \<Rightarrow> string" where
  "question_id i m =
     (let given = str_or (as_string (jget m ''id''))
      in if given = [] then ''question_'' @ itoa (int i + 1) else given)"

definition parse_question :: "nat \<Rightarrow> payload \<Rightarrow> Question" where
  "parse_question i m =
     \<lparr>q_ID = question_id i m, q_Header = str_or (as_string (jget m ''header'')),
      q_Question = str_or (as_string (jget m ''question'')),
      q_MultiSelect = (flag m ''multiSelect'' \<or> flag m ''multi_select''),
      q_IsOther = flag m ''isOther'', q_IsSecret = flag m ''isSecret'',
      q_Options = (case as_arr (jget m ''options'') of None \<Rightarrow> [] | Some raws \<Rightarrow> parse_options raws)\<rparr>"

fun parse_questions :: "nat \<Rightarrow> json list \<Rightarrow> Question list" where
  "parse_questions i [] = []"
| "parse_questions i (raw # raws) =
     (case as_obj (Some raw) of
        None \<Rightarrow> parse_questions (i + 1) raws
      | Some m \<Rightarrow> parse_question i m # parse_questions (i + 1) raws)"

definition parseUserInputRequest :: "payload option \<Rightarrow> goerr + UserInputRequest" where
  "parseUserInputRequest inp =
     (case inp of
        None \<Rightarrow> Inl (ENew ''missing tool input'')
      | Some m \<Rightarrow>
          (case as_arr (jget m ''questions'') of
             None \<Rightarrow> Inl (ENew ''missing questions'')
           | Some raws \<Rightarrow>
               if raws = [] then Inl (ENew ''missing questions'')
               else (let qs = parse_questions 0 raws
                     in if qs = [] then Inl (ENew ''no parseable questions'') else Inr qs)))"

section \<open>Encoding the answers\<close>

fun collect_answers :: "UserInputResponse \<Rightarrow> Question list \<Rightarrow> (string \<times> string list) list \<Rightarrow>
    (string \<times> string list) list" where
  "collect_answers answers [] out = out"
| "collect_answers answers (q # qs) out =
     (case map_of answers (q_ID q) of
        Some (Some given) \<Rightarrow>
          (let values = filter (\<lambda>v. v \<noteq> []) given
           in collect_answers answers qs (if values = [] then out else amap_put (q_ID q) values out))
      | _ \<Rightarrow> collect_answers answers qs out)"

definition buildUserInputResultPayload :: "UserInputRequest \<Rightarrow> UserInputResponse option \<Rightarrow> goerr + payload" where
  "buildUserInputResultPayload req resp =
     (case resp of
        None \<Rightarrow> Inl (ENew ''answers cannot be empty'')
      | Some answers \<Rightarrow>
          if answers = [] then Inl (ENew ''answers cannot be empty'')
          else (let out = collect_answers answers req []
                in if out = [] then Inl (ENew ''no valid answers matched question IDs'')
                   else Inr [(''answers'', JObj (map (\<lambda>(k, vs). (k, JArr (map JStr vs))) out))]))"

section \<open>The tool\<close>

definition askUserQuestionDescription :: string where
  "askUserQuestionDescription =
     ''Ask the user structured clarifying questions when their request is ambiguous. '' @
     ''Provide up to a few multiple-choice questions the user can answer quickly. '' @
     ''Each question may include an 'options' list; omit it for free-form prompts. '' @
     ''Prefer this tool over sending a plain-text numbered list in the assistant message.''"

definition described :: "string \<Rightarrow> string \<Rightarrow> json" where
  "described t d = JObj [(''type'', JStr t), (''description'', JStr d)]"

definition askUserQuestionSchema :: payload where
  "askUserQuestionSchema =
     [(''type'', JStr ''object''),
      (''properties'', JObj [(''questions'', JObj
        [(''type'', JStr ''array''), (''minItems'', JNum 1),
         (''description'', JStr ''Ordered list of questions to present to the user.''),
         (''items'', JObj
           [(''type'', JStr ''object''),
            (''properties'', JObj
              [(''id'', described ''string'' ''Stable identifier for correlating answers; optional (SDK assigns one if absent).''),
               (''header'', described ''string'' ''Short, title-cased summary rendered above the question.''),
               (''question'', described ''string'' ''The full question text presented to the user.''),
               (''multiSelect'', described ''boolean'' ''When true, the user may pick more than one option.''),
               (''isOther'', described ''boolean'' ''When true, the user may type a free-form response in place of choosing an option.''),
               (''isSecret'', described ''boolean'' ''When true, the user's response is treated as sensitive and hidden in UIs.''),
               (''options'', JObj
                 [(''type'', JStr ''array''),
                  (''description'', JStr ''Selectable options. Omit for free-form questions.''),
                  (''items'', JObj
                    [(''type'', JStr ''object''),
                     (''properties'', JObj [(''label'', JObj [(''type'', JStr ''string'')]),
                        (''description'', JObj [(''type'', JStr ''string'')])]),
                     (''required'', JArr [JStr ''label''])])])]),
            (''required'', JArr [JStr ''question''])])])]),
      (''required'', JArr [JStr ''questions''])]"

definition ask_handler :: "'w UserInputCallback \<Rightarrow> (payload \<Rightarrow> goerr + string) \<Rightarrow> payload \<Rightarrow> 'w \<Rightarrow>
    (ToolOutput option + goerr) \<times> 'w" where
  "ask_handler cb marshal inp w =
     (case parseUserInputRequest (Some inp) of
        Inl err \<Rightarrow> (Inr (errorf_s_w ''opencodesdk: parsing AskUserQuestion input'' err), w)
      | Inr req \<Rightarrow>
          (case cb req w of
             (Inl err, w') \<Rightarrow> (Inr (errorf_s_w ''opencodesdk: WithOnUserInput callback'' err), w')
           | (Inr resp, w') \<Rightarrow>
               (case buildUserInputResultPayload req resp of
                  Inl err \<Rightarrow> (Inr (errorf_s_w ''opencodesdk: encoding AskUserQuestion response'' err), w')
                | Inr p \<Rightarrow>
                    (case marshal p of
                       Inl err \<Rightarrow> (Inr (errorf_s_w ''opencodesdk: marshaling AskUserQuestion response'' err), w')
                     | Inr text \<Rightarrow>
                         (Inl (Some \<lparr>to_Text = text, to_Structured = Some (JObj p), to_IsError = False\<rparr>), w')))))"

definition askUserQuestionBridgeDef :: "'w UserInputCallback \<Rightarrow> (payload \<Rightarrow> goerr + string) \<Rightarrow> 'w ToolDef" where
  "askUserQuestionBridgeDef cb marshal =
     \<lparr>td_Name = AskUserQuestionToolName, td_Description = askUserQuestionDescription,
      td_Schema = Some askUserQuestionSchema, td_Annotations = None,
      td_Handler = (\<lambda>inp. on_world_ce (ask_handler cb marshal inp))\<rparr>"

section \<open>The answers that get through\<close>

text \<open>The answer to a question: what the callback gave under its id, without empty strings.\<close>

definition answer_for :: "UserInputResponse \<Rightarrow> string \<Rightarrow> string list" where
  "answer_for answers k =
     (case map_of answers k of Some (Some given) \<Rightarrow> filter (\<lambda>v. v \<noteq> []) given | _ \<Rightarrow> [])"

lemma collect_answers_step:
  "collect_answers answers (q # qs) out =
     collect_answers answers qs (if answer_for answers (q_ID q) = [] then out
       else amap_put (q_ID q) (answer_for answers (q_ID q)) out)"
  by (simp add: answer_for_def Let_def split: option.splits)

declare collect_answers.simps(2) [simp del]

lemma collect_answers_spec:
  "map_of (collect_answers answers qs out) k =
     (if k \<in> q_ID ` set qs \<and> answer_for answers k \<noteq> [] then Some (answer_for answers k) else map_of out k)"
  by (induction qs arbitrary: out) (auto simp: collect_answers_step)

lemma collect_answers_ok: "amap_ok out \<Longrightarrow> amap_ok (collect_answers answers qs out)"
  by (induction qs arbitrary: out) (auto simp: collect_answers_step)

lemma map_of_map_snd: "map_of (map (\<lambda>(k, v). (k, f v)) m) k = map_option f (map_of m k)"
  by (induction m) auto

text \<open>
  The answers the agent gets are exactly the answers to its questions. The payload has an entry
  for a question id if and only if the callback gave it a non-empty answer, and the entry is that
  answer without its empty strings; answers to ids nobody asked about are dropped, no id occurs
  twice, and when nothing is left the call fails instead of sending an empty payload.
\<close>

theorem answers_are_filtered:
  "case buildUserInputResultPayload req resp of
     Inl _ \<Rightarrow> (case resp of None \<Rightarrow> True | Some answers \<Rightarrow> \<not> list_ex (\<lambda>q. answer_for answers (q_ID q) \<noteq> []) req)
   | Inr p \<Rightarrow> \<exists>answers m. resp = Some answers \<and> p = [(''answers'', JObj m)] \<and> amap_ok m \<and>
       list_ex (\<lambda>q. answer_for answers (q_ID q) \<noteq> []) req \<and>
       (\<forall>k. map_of m k = (if list_ex (\<lambda>q. q_ID q = k) req \<and> answer_for answers k \<noteq> []
          then Some (JArr (map JStr (answer_for answers k))) else None))"
proof (cases resp)
  case None
  then show ?thesis by (simp add: buildUserInputResultPayload_def)
next
  case (Some answers)
  define out where "out = collect_answers answers req []"
  define m where "m = map (\<lambda>(k, vs). (k, JArr (map JStr vs))) out"
  have k: "map_of m k = (if list_ex (\<lambda>q. q_ID q = k) req \<and> answer_for answers k \<noteq> []
      then Some (JArr (map JStr (answer_for answers k))) else None)" for k
    using collect_answers_spec [of answers req "[]" k]
    by (auto simp: m_def map_of_map_snd out_def list_ex_iff image_iff)
  have e: "out = [] \<longleftrightarrow> \<not> list_ex (\<lambda>q. answer_for answers (q_ID q) \<noteq> []) req"
  proof
    assume "out = []"
    then have "map_of out (q_ID q) = None" for q by simp
    then show "\<not> list_ex (\<lambda>q. answer_for answers (q_ID q) \<noteq> []) req"
      using collect_answers_spec [of answers req "[]"] by (fastforce simp: out_def list_ex_iff split: if_splits)
  next
    assume "\<not> list_ex (\<lambda>q. answer_for answers (q_ID q) \<noteq> []) req"
    then have "map_of out k = None" for k
      using collect_answers_spec [of answers req "[]" k] by (auto simp: out_def list_ex_iff)
    from this [of "fst (hd out)"] show "out = []" by (cases out) auto
  qed
  have "amap_ok m"
    using collect_answers_ok [of "[]" answers req] by (simp add: m_def amap_ok_def out_def comp_def case_prod_unfold)
  moreover have "answers = [] \<Longrightarrow> out = []"
    using e by (auto simp: answer_for_def list_ex_iff)
  ultimately show ?thesis
    using Some k e by (auto simp: buildUserInputResultPayload_def out_def [symmetric] m_def [symmetric] Let_def)
qed

section \<open>The questions that get through\<close>

definition encode_option :: "QuestionOption \<Rightarrow> json" where
  "encode_option opt = JObj [(''label'', JStr (qo_Label opt)), (''description'', JStr (qo_Description opt))]"

definition encode_question :: "Question \<Rightarrow> json" where
  "encode_question q = JObj
     [(''id'', JStr (q_ID q)), (''header'', JStr (q_Header q)), (''question'', JStr (q_Question q)),
      (''multiSelect'', JBool (q_MultiSelect q)), (''isOther'', JBool (q_IsOther q)),
      (''isSecret'', JBool (q_IsSecret q)), (''options'', JArr (map encode_option (q_Options q)))]"

lemma parse_encoded_options: "parse_options (map encode_option opts) = opts"
  by (induction opts) (simp_all add: encode_option_def jget_def)

lemma parse_encoded_question:
  assumes "q_ID q \<noteq> []"
  shows "parse_question i (case encode_question q of JObj m \<Rightarrow> m) = q"
  using assms
  by (simp add: encode_question_def parse_question_def question_id_def jget_def flag_def parse_encoded_options Let_def)

lemma parse_encoded_questions:
  "list_all (\<lambda>q. q_ID q \<noteq> []) qs \<Longrightarrow> parse_questions i (map encode_question qs) = qs"
  using parse_encoded_question by (induction qs arbitrary: i) (auto simp: encode_question_def)

text \<open>
  Questions survive the trip. Questions with ids, encoded the way the advertised schema spells
  their fields, are decoded to exactly themselves, in order, with every option and flag, whatever
  else the input carries beside them.
\<close>

theorem questions_roundtrip:
  assumes "qs \<noteq> []" "list_all (\<lambda>q. q_ID q \<noteq> []) qs"
  shows "parseUserInputRequest (Some ((''questions'', JArr (map encode_question qs)) # rest)) = Inr qs"
  using assms by (simp add: parseUserInputRequest_def jget_def parse_encoded_questions Let_def)

definition demo_question :: Question where
  "demo_question = \<lparr>q_ID = ''q'', q_Header = ''H'', q_Question = ''Which?'', q_MultiSelect = True, q_IsOther = False,
     q_IsSecret = True, q_Options = [\<lparr>qo_Label = ''a'', qo_Description = []\<rparr>]\<rparr>"

theorem questions_roundtrip_witness:
  "parseUserInputRequest (Some [(''questions'', JArr [encode_question demo_question])]) = Inr [demo_question]"
  using questions_roundtrip [of "[demo_question]" "[]"] by (simp add: demo_question_def)

section \<open>Findings\<close>

text \<open>
  The ids the SDK assigns to questions without one are not fresh: a question that names itself
  question_2 and an anonymous second question both get the id question_2, so one answer is taken for
  both and the callback cannot tell them apart.
\<close>

theorem assigned_ids_can_collide:
  "\<exists>a b. parseUserInputRequest (Some [(''questions'', JArr
       [JObj [(''id'', JStr ''question_2''), (''question'', JStr ''Delete the branch?'')],
        JObj [(''question'', JStr ''Keep a backup?'')]])]) = Inr [a, b] \<and> a \<noteq> b \<and> q_ID a = q_ID b"
proof -
  have "nat_digits 2 = ''2''" by code_simp
  then show ?thesis
    by (simp add: parseUserInputRequest_def jget_def parse_question_def question_id_def Let_def flag_def itoa_def)
qed

text \<open>
  Only one of the flags is accepted in snake case, although the decoder is documented to accept both
  spellings of the fields: a question marked is_secret is presented as not secret.
\<close>

theorem snake_case_secret_is_lost:
  "\<exists>q. parseUserInputRequest (Some [(''questions'', JArr
       [JObj [(''question'', JStr ''Token?''), (''is_secret'', JBool True), (''multi_select'', JBool True)]])]) = Inr [q] \<and>
     \<not> q_IsSecret q \<and> q_MultiSelect q"
  by (simp add: parseUserInputRequest_def jget_def parse_question_def Let_def flag_def)


end
