(* ===== verification/SessionStore.thy ===== *)
theory SessionStore
  imports Cost Options
begin

text \<open>
  Reading opencode's own session store (\<open>internal/session/session.go\<close>, \<open>stat_session.go\<close>): the
  SQL texts the SDK builds, the checks around them and the translation of the rows.

  \<open>database/sql\<close> and SQLite are a parameter: \<open>dv_open\<close> opens a data source, \<open>dv_query\<close> runs a text
  with its bound arguments and gives the rows as \<open>Scan\<close> delivers them one after another (each may
  fail) and the error \<open>rows.Err\<close> reports at the end. \<open>answers\<close> is the documented meaning of the
  SELECT statements used here. A \<open>time.Time\<close> in UTC is the number of milliseconds since the epoch.
\<close>

section \<open>Rows\<close>

text \<open>The destinations of \<open>Scan\<close>, in the order of the column list.\<close>

record Columns =
  cl_id :: string
  cl_project_id :: string
  cl_parent_id :: string
  cl_slug :: string
  cl_directory :: string
  cl_title :: string
  cl_version :: string
  cl_share_url :: string
  cl_summary_additions :: "int option"
  cl_summary_deletions :: "int option"
  cl_summary_files :: "int option"
  cl_time_created :: int
  cl_time_updated :: int
  cl_time_compacting :: "int option"
  cl_time_archived :: "int option"
  cl_workspace_id :: string
  cl_message_count :: int

datatype sqlarg = ArgText string | ArgInt int

record driver =
  dv_open :: "string \<Rightarrow> goerr option"
  dv_query :: "string \<Rightarrow> string \<Rightarrow> sqlarg list \<Rightarrow> goerr + ((goerr + Columns) list \<times> goerr option)"

record Row =
  rw_ID :: string
  rw_ProjectID :: string
  rw_ParentID :: string
  rw_Slug :: string
  rw_Directory :: string
  rw_Title :: string
  rw_Version :: string
  rw_ShareURL :: string
  rw_SummaryAdditions :: "int option"
  rw_SummaryDeletions :: "int option"
  rw_SummaryFiles :: "int option"
  rw_CreatedAt :: int
  rw_UpdatedAt :: int
  rw_CompactingAt :: "int option"
  rw_ArchivedAt :: "int option"
  rw_WorkspaceID :: string
  rw_MessageCount :: int

definition scanRow :: "goerr + Columns \<Rightarrow> goerr + Row" where
  "scanRow sc =
     (case sc of
        Inl err \<Rightarrow> Inl err
      | Inr c \<Rightarrow> Inr \<lparr>rw_ID = cl_id c, rw_ProjectID = cl_project_id c, rw_ParentID = cl_parent_id c,
          rw_Slug = cl_slug c, rw_Directory = cl_directory c, rw_Title = cl_title c,
          rw_Version = cl_version c, rw_ShareURL = cl_share_url c,
          rw_SummaryAdditions = cl_summary_additions c, rw_SummaryDeletions = cl_summary_deletions c,
          rw_SummaryFiles = cl_summary_files c, rw_CreatedAt = cl_time_created c,
          rw_UpdatedAt = cl_time_updated c, rw_CompactingAt = cl_time_compacting c,
          rw_ArchivedAt = cl_time_archived c, rw_WorkspaceID = cl_workspace_id c,
          rw_MessageCount = cl_message_count c\<rparr>)"

section \<open>The queries\<close>

definition DatabasePath :: "string \<Rightarrow> string" where
  "DatabasePath dataDir = path_join [dataDir, ''opencode.db'']"

definition selectColumns :: string where
  "selectColumns = join_with ('','' @ [CHR 0x0A, CHR 0x09])
     [''s.id'', ''s.project_id'', ''COALESCE(s.parent_id, '' @ [CHR 0x27, CHR 0x27] @ '')'', ''s.slug'',
      ''s.directory'', ''s.title'', ''s.version'', ''COALESCE(s.share_url, '' @ [CHR 0x27, CHR 0x27] @ '')'',
      ''s.summary_additions'', ''s.summary_deletions'', ''s.summary_files'', ''s.time_created'',
      ''s.time_updated'', ''s.time_compacting'', ''s.time_archived'',
      ''COALESCE(s.workspace_id, '' @ [CHR 0x27, CHR 0x27] @ '')'',
      ''(SELECT COUNT(*) FROM message WHERE session_id = s.id) AS message_count'']"

definition checkDBExists :: "os \<Rightarrow> string \<Rightarrow> goerr option" where
  "checkDBExists s dbPath =
     (case (case os_fail s OpStat dbPath of
              Some e \<Rightarrow> Some e
            | None \<Rightarrow> (case os_files s dbPath of None \<Rightarrow> Some (not_exist_err ''stat'' dbPath) | Some _ \<Rightarrow> None)) of
        None \<Rightarrow> None
      | Some err \<Rightarrow>
          if errors_is err OsErrNotExist
          then Some (errorf_s_w (''database not found at '' @ dbPath) (ESent SessionErrNotFound))
          else Some (errorf_s_w ''stat database'' err))"

definition db_dsn :: "string \<Rightarrow> string" where
  "db_dsn dbPath = ''file:'' @ dbPath @ ''?mode=ro&_busy_timeout=5000''"

definition openRO :: "driver \<Rightarrow> string \<Rightarrow> goerr + string" where
  "openRO dv dbPath =
     (case dv_open dv (db_dsn dbPath) of
        Some err \<Rightarrow> Inl (errorf_s_w ''opening database'' err)
      | None \<Rightarrow> Inr (db_dsn dbPath))"

text \<open>\<open>QueryRowContext\<close> followed by \<open>Scan\<close>: the first row, or \<open>sql.ErrNoRows\<close>.\<close>

definition query_row :: "driver \<Rightarrow> string \<Rightarrow> string \<Rightarrow> sqlarg list \<Rightarrow> goerr + Columns" where
  "query_row dv db text args =
     (case dv_query dv db text args of
        Inl err \<Rightarrow> Inl err
      | Inr (r # _, _) \<Rightarrow> r
      | Inr ([], Some err) \<Rightarrow> Inl err
      | Inr ([], None) \<Rightarrow> Inl (ESent SqlErrNoRows))"

definition lookup_query :: "string \<Rightarrow> string \<Rightarrow> string \<times> sqlarg list" where
  "lookup_query sessionID cwd =
     (let q = ''SELECT '' @ selectColumns @ '' FROM session AS s WHERE s.id = ?''; args = [ArgText sessionID]
      in if cwd \<noteq> [] then (q @ '' AND s.directory = ?'', args @ [ArgText cwd]) else (q, args))"

definition Lookup :: "driver \<Rightarrow> os \<Rightarrow> goerr option \<Rightarrow> string \<Rightarrow> string \<Rightarrow> string \<Rightarrow> goerr + Row" where
  "Lookup dv s ctxErr dbPath sessionID cwd =
     (case ctxErr of Some err \<Rightarrow> Inl err | None \<Rightarrow>
     (case checkDBExists s dbPath of Some err \<Rightarrow> Inl err | None \<Rightarrow>
     (case openRO dv dbPath of Inl err \<Rightarrow> Inl err | Inr db \<Rightarrow>
     (case scanRow (query_row dv db (fst (lookup_query sessionID cwd)) (snd (lookup_query sessionID cwd))) of
        Inr row \<Rightarrow> Inr row
      | Inl err \<Rightarrow>
          if errors_is err SqlErrNoRows
          then Inl (errorf_s_w (''session '' @ sessionID) (ESent SessionErrNotFound))
          else Inl (errorf_s_w ''querying session'' err)))))"

record ListOptions =
  lo_Cwd :: string
  lo_IncludeArchived :: bool
  lo_Limit :: int

definition list_query :: "ListOptions \<Rightarrow> string \<times> sqlarg list" where
  "list_query o1 =
     (let q = ''SELECT '' @ selectColumns @ '' FROM session AS s'';
          (q1, args1) =
            (if lo_Cwd o1 \<noteq> [] \<and> \<not> lo_IncludeArchived o1
             then (q @ '' WHERE s.directory = ? AND s.time_archived IS NULL'', [ArgText (lo_Cwd o1)])
             else if lo_Cwd o1 \<noteq> [] then (q @ '' WHERE s.directory = ?'', [ArgText (lo_Cwd o1)])
             else if \<not> lo_IncludeArchived o1 then (q @ '' WHERE s.time_archived IS NULL'', [])
             else (q, []));
          q2 = q1 @ '' ORDER BY s.time_updated DESC''
      in if 0 < lo_Limit o1 then (q2 @ '' LIMIT ?'', args1 @ [ArgInt (lo_Limit o1)]) else (q2, args1))"

fun scan_rows :: "(goerr + Columns) list \<Rightarrow> goerr + Row list" where
  "scan_rows [] = Inr []"
| "scan_rows (r # rs) =
     (case scanRow r of
        Inl err \<Rightarrow> Inl (errorf_s_w ''scanning session row'' err)
      | Inr row \<Rightarrow> (case scan_rows rs of Inl err \<Rightarrow> Inl err | Inr out \<Rightarrow> Inr (row # out)))"

definition List_rows :: "driver \<Rightarrow> os \<Rightarrow> goerr option \<Rightarrow> string \<Rightarrow> ListOptions \<Rightarrow> goerr + Row list" where
  "List_rows dv s ctxErr dbPath o1 =
     (case ctxErr of Some err \<Rightarrow> Inl err | None \<Rightarrow>
     (case checkDBExists s dbPath of Some err \<Rightarrow> Inl err | None \<Rightarrow>
     (case openRO dv dbPath of Inl err \<Rightarrow> Inl err | Inr db \<Rightarrow>
     (case dv_query dv db (fst (list_query o1)) (snd (list_query o1)) of
        Inl err \<Rightarrow> Inl (errorf_s_w ''querying sessions'' err)
      | Inr (rows, rowsErr) \<Rightarrow>
          (case scan_rows rows of Inl err \<Rightarrow> Inl err | Inr out \<Rightarrow>
          (case rowsErr of
             Some err \<Rightarrow> Inl (errorf_s_w ''iterating session rows'' err)
           | None \<Rightarrow> Inr out))))))"

section \<open>The public calls\<close>

record SessionStat =
  st_SessionID :: string
  st_ProjectID :: string
  st_ParentID :: string
  st_Slug :: string
  st_Directory :: string
  st_Title :: string
  st_Version :: string
  st_ShareURL :: string
  st_SummaryAdditions :: "int option"
  st_SummaryDeletions :: "int option"
  st_SummaryFiles :: "int option"
  st_CreatedAt :: int
  st_UpdatedAt :: int
  st_CompactingAt :: "int option"
  st_ArchivedAt :: "int option"
  st_WorkspaceID :: string
  st_MessageCount :: int

definition Archived :: "SessionStat option \<Rightarrow> bool" where
  "Archived s \<longleftrightarrow> (case s of None \<Rightarrow> False | Some st \<Rightarrow> st_ArchivedAt st \<noteq> None)"

definition rowToSessionStat :: "Row \<Rightarrow> SessionStat" where
  "rowToSessionStat r =
     \<lparr>st_SessionID = rw_ID r, st_ProjectID = rw_ProjectID r, st_ParentID = rw_ParentID r,
      st_Slug = rw_Slug r, st_Directory = rw_Directory r, st_Title = rw_Title r,
      st_Version = rw_Version r, st_ShareURL = rw_ShareURL r,
      st_SummaryAdditions = rw_SummaryAdditions r, st_SummaryDeletions = rw_SummaryDeletions r,
      st_SummaryFiles = rw_SummaryFiles r, st_CreatedAt = rw_CreatedAt r, st_UpdatedAt = rw_UpdatedAt r,
      st_CompactingAt = rw_CompactingAt r, st_ArchivedAt = rw_ArchivedAt r,
      st_WorkspaceID = rw_WorkspaceID r, st_MessageCount = rw_MessageCount r\<rparr>"

text \<open>\<open>ctx1\<close> and \<open>ctx2\<close> are the state of the context at its two tests, \<open>h\<close> the heap of option maps.\<close>

definition StatSession :: "driver \<Rightarrow> os \<Rightarrow> goerr option \<Rightarrow> goerr option \<Rightarrow> string \<Rightarrow> 'w opt list \<Rightarrow>
    'w heap \<Rightarrow> goerr + SessionStat" where
  "StatSession dv s ctx1 ctx2 sessionID opts h =
     (case ctx1 of Some err \<Rightarrow> Inl err | None \<Rightarrow>
      if \<not> sessionIDPattern sessionID then Inl (invalid_id_err sessionID)
      else
        (let o1 = fst (apply_options opts h);
             dbPath = DatabasePath (resolveOpencodeDataDir s (o_opencodeHome o1))
         in (case Lookup dv s ctx2 dbPath sessionID (o_cwd o1) of
               Inl err \<Rightarrow>
                 if errors_is err SessionErrNotFound then Inl (errorf_w_s (ESent ErrSessionNotFound) sessionID)
                 else Inl err
             | Inr row \<Rightarrow> Inr (rowToSessionStat row))))"

record ListSessionsOptions =
  lso_IncludeArchived :: bool
  lso_Limit :: int

definition ListSessions :: "driver \<Rightarrow> os \<Rightarrow> goerr option \<Rightarrow> goerr option \<Rightarrow> ListSessionsOptions \<Rightarrow>
    'w opt list \<Rightarrow> 'w heap \<Rightarrow> goerr + SessionStat list" where
  "ListSessions dv s ctx1 ctx2 lo opts h =
     (case ctx1 of Some err \<Rightarrow> Inl err | None \<Rightarrow>
        (let o1 = fst (apply_options opts h);
             dbPath = DatabasePath (resolveOpencodeDataDir s (o_opencodeHome o1))
         in (case List_rows dv s ctx2 dbPath
                    \<lparr>lo_Cwd = o_cwd o1, lo_IncludeArchived = lso_IncludeArchived lo, lo_Limit = lso_Limit lo\<rparr> of
               Inl err \<Rightarrow>
                 if errors_is err SessionErrNotFound
                 then Inl (errorf_w_s (ESent ErrSessionNotFound) (''opencode.db missing at '' @ dbPath))
                 else Inl err
             | Inr rows \<Rightarrow> Inr (map rowToSessionStat rows))))"

section \<open>What the statements mean\<close>

text \<open>
  The part of SQL the texts lie in: a conjunction of conditions on a session, an optional order by
  the time of the last update and an optional limit, rendered as text; \<open>answers dv db table\<close> says
  that the driver answers each of them, read on \<open>table\<close>.
\<close>

datatype cond = IdIs string | DirIs string | NotArchived

fun cond_text :: "cond \<Rightarrow> string" where
  "cond_text (IdIs _) = ''s.id = ?''"
| "cond_text (DirIs _) = ''s.directory = ?''"
| "cond_text NotArchived = ''s.time_archived IS NULL''"

fun cond_args :: "cond \<Rightarrow> sqlarg list" where
  "cond_args (IdIs i) = [ArgText i]"
| "cond_args (DirIs d) = [ArgText d]"
| "cond_args NotArchived = []"

fun cond_holds :: "cond \<Rightarrow> Columns \<Rightarrow> bool" where
  "cond_holds (IdIs i) r \<longleftrightarrow> cl_id r = i"
| "cond_holds (DirIs d) r \<longleftrightarrow> cl_directory r = d"
| "cond_holds NotArchived r \<longleftrightarrow> cl_time_archived r = None"

definition opt_list :: "'a option \<Rightarrow> 'a list" where
  "opt_list x = (case x of None \<Rightarrow> [] | Some a \<Rightarrow> [a])"

definition conds :: "string option \<Rightarrow> string option \<Rightarrow> bool \<Rightarrow> cond list" where
  "conds i d live = map IdIs (opt_list i) @ map DirIs (opt_list d) @ (if live then [NotArchived] else [])"

definition select_from :: string where
  "select_from = ''SELECT '' @ selectColumns @ '' FROM session AS s''"

definition select_rest :: "cond list \<Rightarrow> bool \<Rightarrow> bool \<Rightarrow> string" where
  "select_rest cs ordered limited =
     (if cs = [] then [] else '' WHERE '' @ join_with '' AND '' (map cond_text cs)) @
     (if ordered then '' ORDER BY s.time_updated DESC'' else []) @ (if limited then '' LIMIT ?'' else [])"

definition newest_first :: "Columns list \<Rightarrow> bool" where
  "newest_first rs \<longleftrightarrow> sorted_wrt (\<lambda>a b. cl_time_updated b \<le> cl_time_updated a) rs"

definition answer_ok :: "Columns list \<Rightarrow> cond list \<Rightarrow> bool \<Rightarrow> int option \<Rightarrow> Columns list \<Rightarrow> bool" where
  "answer_ok table cs ordered cap rs \<longleftrightarrow>
     (\<exists>ys. mset ys = mset (filter (\<lambda>r. \<forall>c \<in> set cs. cond_holds c r) table) \<and>
        (ordered \<longrightarrow> newest_first ys) \<and> rs = (case cap of None \<Rightarrow> ys | Some n \<Rightarrow> take (nat n) ys))"

definition answers :: "driver \<Rightarrow> string \<Rightarrow> Columns list \<Rightarrow> bool" where
  "answers dv db table \<longleftrightarrow> dv_open dv db = None \<and>
     (\<forall>i d live ordered cap. (\<forall>n. cap = Some n \<longrightarrow> 0 < n) \<longrightarrow>
        (\<exists>rs. dv_query dv db (select_from @ select_rest (conds i d live) ordered (cap \<noteq> None))
                (concat (map cond_args (conds i d live)) @ map ArgInt (opt_list cap)) = Inr (map Inr rs, None) \<and>
              answer_ok table (conds i d live) ordered cap rs))"

lemma lookup_query_text:
  "lookup_query sid cwd =
     (let cs = conds (Some sid) (if cwd = [] then None else Some cwd) False
      in (select_from @ select_rest cs False False, concat (map cond_args cs) @ map ArgInt (opt_list None)))"
  by (simp add: lookup_query_def conds_def opt_list_def select_from_def select_rest_def Let_def)

lemma list_query_text:
  "list_query o1 =
     (let cs = conds None (if lo_Cwd o1 = [] then None else Some (lo_Cwd o1)) (\<not> lo_IncludeArchived o1);
          cap = (if 0 < lo_Limit o1 then Some (lo_Limit o1) else None)
      in (select_from @ select_rest cs True (cap \<noteq> None), concat (map cond_args cs) @ map ArgInt (opt_list cap)))"
  by (simp add: list_query_def conds_def opt_list_def select_from_def select_rest_def Let_def)

section \<open>Listing\<close>

definition column_stat :: "Columns \<Rightarrow> SessionStat" where
  "column_stat c = rowToSessionStat (projr (scanRow (Inr c)))"

lemma scanRow_Inr: "scanRow (Inr c) = Inr (projr (scanRow (Inr c)))"
  by (simp add: scanRow_def)

lemma scan_rows_Inr: "scan_rows (map Inr rs) = Inr (map (\<lambda>c. projr (scanRow (Inr c))) rs)"
  by (induction rs) (simp_all add: scanRow_def)

lemma column_stat_sel:
  "st_SessionID (column_stat c) = cl_id c" "st_Directory (column_stat c) = cl_directory c"
  "st_UpdatedAt (column_stat c) = cl_time_updated c" "st_ArchivedAt (column_stat c) = cl_time_archived c"
  "st_CreatedAt (column_stat c) = cl_time_created c" "st_MessageCount (column_stat c) = cl_message_count c"
  by (simp_all add: column_stat_def rowToSessionStat_def scanRow_def)

definition db_present :: "os \<Rightarrow> string \<Rightarrow> bool" where
  "db_present s p \<longleftrightarrow> os_fail s OpStat p = None \<and> os_files s p \<noteq> None"

lemma checkDBExists_present: "db_present s p \<Longrightarrow> checkDBExists s p = None"
  by (auto simp: db_present_def checkDBExists_def)

definition store_path :: "os \<Rightarrow> 'w opt list \<Rightarrow> 'w heap \<Rightarrow> string" where
  "store_path s opts h = DatabasePath (resolveOpencodeDataDir s (o_opencodeHome (fst (apply_options opts h))))"

lemma answers_open: "answers dv db table \<Longrightarrow> dv_open dv db = None"
  by (simp add: answers_def)

lemma answersD:
  assumes "answers dv db table" "\<And>n. cap = Some n \<Longrightarrow> 0 < n"
  obtains rs where
    "dv_query dv db (select_from @ select_rest (conds i d live) ordered (cap \<noteq> None))
       (concat (map cond_args (conds i d live)) @ map ArgInt (opt_list cap)) = Inr (map Inr rs, None)"
    "answer_ok table (conds i d live) ordered cap rs"
  using assms unfolding answers_def by blast

definition wanted :: "string \<Rightarrow> bool \<Rightarrow> Columns \<Rightarrow> bool" where
  "wanted cwd archived r \<longleftrightarrow> (cwd = [] \<or> cl_directory r = cwd) \<and> (archived \<or> cl_time_archived r = None)"

lemma wanted_conds:
  "(\<forall>c \<in> set (conds None (if cwd = [] then None else Some cwd) (\<not> archived)). cond_holds c r) \<longleftrightarrow> wanted cwd archived r"
  by (auto simp: conds_def opt_list_def wanted_def)

lemma List_rows_answered:
  assumes a: "answers dv (db_dsn p) table" and s: "db_present s p"
  obtains rs where
    "List_rows dv s None p o1 = Inr (map (\<lambda>c. projr (scanRow (Inr c))) rs)"
    "answer_ok table (conds None (if lo_Cwd o1 = [] then None else Some (lo_Cwd o1)) (\<not> lo_IncludeArchived o1))
       True (if 0 < lo_Limit o1 then Some (lo_Limit o1) else None) rs"
proof -
  let ?cap = "if 0 < lo_Limit o1 then Some (lo_Limit o1) else None"
  have c: "\<And>n. ?cap = Some n \<Longrightarrow> 0 < n" by (simp split: if_splits)
  obtain rs where q: "dv_query dv (db_dsn p)
       (select_from @ select_rest (conds None (if lo_Cwd o1 = [] then None else Some (lo_Cwd o1)) (\<not> lo_IncludeArchived o1)) True (?cap \<noteq> None))
       (concat (map cond_args (conds None (if lo_Cwd o1 = [] then None else Some (lo_Cwd o1)) (\<not> lo_IncludeArchived o1))) @ map ArgInt (opt_list ?cap)) =
       Inr (map Inr rs, None)"
    and rs2: "answer_ok table (conds None (if lo_Cwd o1 = [] then None else Some (lo_Cwd o1)) (\<not> lo_IncludeArchived o1)) True ?cap rs"
    by (rule answersD [OF a c])
  have rs: "dv_query dv (db_dsn p) (fst (list_query o1)) (snd (list_query o1)) = Inr (map Inr rs, None)"
    by (simp only: list_query_text Let_def fst_conv snd_conv q)
  have "List_rows dv s None p o1 = Inr (map (\<lambda>c. projr (scanRow (Inr c))) rs)"
    using rs by (simp add: List_rows_def checkDBExists_present [OF s] openRO_def answers_open [OF a] scan_rows_Inr)
  then show thesis using rs2 by (rule that)
qed

text \<open>
  C26: ListSessions returns exactly the wanted sessions of the store, the most recently updated first: the
  result together with the sessions left out is the collection of the sessions in the wanted directory
  that are not archived (or all of them, when asked); sessions are left out only because of the limit,
  which is then reached, and none of them was updated after a returned one.
\<close>

theorem ListSessions_exact:
  assumes "answers dv (db_dsn (store_path s opts h)) table" and "db_present s (store_path s opts h)"
  shows "\<exists>got rest. ListSessions dv s None None lo opts h = Inr (map column_stat got) \<and>
    mset (got @ rest) = mset (filter (wanted (o_cwd (fst (apply_options opts h))) (lso_IncludeArchived lo)) table) \<and>
    newest_first (got @ rest) \<and> (rest \<noteq> [] \<longrightarrow> 0 < lso_Limit lo \<and> int (length got) = lso_Limit lo)"
proof -
  let ?cwd = "o_cwd (fst (apply_options opts h))"
  let ?o = "\<lparr>lo_Cwd = ?cwd, lo_IncludeArchived = lso_IncludeArchived lo, lo_Limit = lso_Limit lo\<rparr>"
  obtain rs where rs: "List_rows dv s None (store_path s opts h) ?o = Inr (map (\<lambda>c. projr (scanRow (Inr c))) rs)"
    "answer_ok table (conds None (if ?cwd = [] then None else Some ?cwd) (\<not> lso_IncludeArchived lo))
       True (if 0 < lso_Limit lo then Some (lso_Limit lo) else None) rs"
    by (rule List_rows_answered [OF assms, of ?o, unfolded ListOptions.select_convs])
  then obtain ys where ys: "mset ys = mset (filter (wanted ?cwd (lso_IncludeArchived lo)) table)" "newest_first ys"
    "rs = (case (if 0 < lso_Limit lo then Some (lso_Limit lo) else None) of None \<Rightarrow> ys | Some n \<Rightarrow> take (nat n) ys)"
    unfolding answer_ok_def wanted_conds by blast
  have l: "ListSessions dv s None None lo opts h = Inr (map column_stat rs)"
    using rs(1) by (simp add: ListSessions_def store_path_def Let_def column_stat_def o_def)
  show ?thesis
  proof (cases "0 < lso_Limit lo")
    case True
    let ?rest = "drop (nat (lso_Limit lo)) ys"
    have "rs @ ?rest = ys" using ys(3) True by simp
    moreover have "?rest \<noteq> [] \<longrightarrow> int (length rs) = lso_Limit lo" using ys(3) True by auto
    ultimately show ?thesis using l ys True by metis
  next
    case False
    then show ?thesis using l ys by (intro exI [of _ rs] exI [of _ "[]"]) simp
  qed
qed

text \<open>
  A driver that really evaluates the statements on a table: it reads the clauses off the text behind
  the column list and takes the bound arguments in order.
\<close>

fun arg_text :: "sqlarg \<Rightarrow> string" where
  "arg_text (ArgText s) = s"
| "arg_text (ArgInt _) = []"

fun arg_int :: "sqlarg \<Rightarrow> int" where
  "arg_int (ArgInt n) = n"
| "arg_int (ArgText _) = 0"

definition take_arg :: "bool \<Rightarrow> (sqlarg \<Rightarrow> 'a) \<Rightarrow> sqlarg list \<Rightarrow> 'a option \<times> sqlarg list" where
  "take_arg present f args = (if present then (Some (f (hd args)), tl args) else (None, args))"

definition clauses :: "string \<Rightarrow> bool \<times> bool \<times> bool \<times> bool \<times> bool" where
  "clauses text =
     (str_contains text ''s.id = ?'', str_contains text ''s.directory = ?'',
      str_contains text ''IS NULL'', str_contains text ''ORDER BY'', str_contains text ''LIMIT'')"

definition table_query :: "Columns list \<Rightarrow> string \<Rightarrow> sqlarg list \<Rightarrow> Columns list" where
  "table_query table text args =
     (case clauses (drop (length select_from) text) of
        (hi, hd1, ha, ho, hl) \<Rightarrow>
        (case take_arg hi arg_text args of (i, args1) \<Rightarrow>
        (case take_arg hd1 arg_text args1 of (d, args2) \<Rightarrow>
           (let rs = filter (\<lambda>r. \<forall>c \<in> set (conds i d ha). cond_holds c r) table;
                ys = (if ho then sort_key (\<lambda>r. - cl_time_updated r) rs else rs)
            in case fst (take_arg hl arg_int args2) of None \<Rightarrow> ys | Some n \<Rightarrow> take (nat n) ys))))"

definition table_driver :: "Columns list \<Rightarrow> driver" where
  "table_driver table = \<lparr>dv_open = (\<lambda>_. None),
     dv_query = (\<lambda>_ text args. Inr (map Inr (table_query table text args), None))\<rparr>"

lemma clauses_rest:
  "clauses (select_rest (conds i d live) ordered limited) = (i \<noteq> None, d \<noteq> None, live, ordered, limited)"
  by (cases i; cases d; cases live; cases ordered; cases limited)
     (simp_all add: clauses_def select_rest_def conds_def opt_list_def)

lemma sort_key_newest: "newest_first (sort_key (\<lambda>r. - cl_time_updated r) rs)"
proof -
  have "sorted (map (\<lambda>r. - cl_time_updated r) (sort_key (\<lambda>r. - cl_time_updated r) rs))" by (rule sorted_sort_key)
  then show ?thesis by (simp add: newest_first_def sorted_map)
qed

lemma cond_args_conds:
  "concat (map cond_args (conds i d live)) = map ArgText (opt_list i) @ map ArgText (opt_list d)"
  by (cases i; cases d) (simp_all add: conds_def opt_list_def)

lemma take_arg_bound:
  "take_arg (x \<noteq> None) arg_text (map ArgText (opt_list x) @ as) = (x, as)"
  "take_arg (n \<noteq> None) arg_int (map ArgInt (opt_list n)) = (n, [])"
  by (cases x; simp add: take_arg_def opt_list_def) (cases n; simp add: take_arg_def opt_list_def)

lemma table_query_rest:
  "table_query table (select_from @ select_rest (conds i d live) ordered (cap \<noteq> None))
     (concat (map cond_args (conds i d live)) @ map ArgInt (opt_list cap)) =
   (let rs = filter (\<lambda>r. \<forall>c \<in> set (conds i d live). cond_holds c r) table;
        ys = (if ordered then sort_key (\<lambda>r. - cl_time_updated r) rs else rs)
    in case cap of None \<Rightarrow> ys | Some n \<Rightarrow> take (nat n) ys)"
proof -
  have t: "drop (length select_from) (select_from @ t) = t" for t by simp
  show ?thesis
    by (simp only: table_query_def t clauses_rest cond_args_conds append_assoc prod.case take_arg_bound fst_conv Let_def)
qed

lemma table_driver_answers: "answers (table_driver table) db table"
proof -
  have m: "mset (if ordered then sort_key (\<lambda>r. - cl_time_updated r) rs else rs) = mset rs" for ordered rs
    by simp
  have "answer_ok table cs ordered cap
     (let rs = filter (\<lambda>r. \<forall>c \<in> set cs. cond_holds c r) table;
          ys = (if ordered then sort_key (\<lambda>r. - cl_time_updated r) rs else rs)
      in case cap of None \<Rightarrow> ys | Some n \<Rightarrow> take (nat n) ys)" for cs ordered cap
    unfolding answer_ok_def Let_def
    by (rule exI [of _ "if ordered then sort_key (\<lambda>r. - cl_time_updated r) (filter (\<lambda>r. \<forall>c \<in> set cs. cond_holds c r) table)
          else filter (\<lambda>r. \<forall>c \<in> set cs. cond_holds c r) table"])
       (simp add: sort_key_newest)
  then show ?thesis
    unfolding answers_def table_driver_def driver.select_convs table_query_rest by blast
qed

definition demo_columns :: "string \<Rightarrow> string \<Rightarrow> int \<Rightarrow> int option \<Rightarrow> Columns" where
  "demo_columns i d upd arch = \<lparr>cl_id = i, cl_project_id = ''global'', cl_parent_id = [], cl_slug = ''s'',
     cl_directory = d, cl_title = ''t'', cl_version = ''1.14.20'', cl_share_url = [], cl_summary_additions = None,
     cl_summary_deletions = None, cl_summary_files = None, cl_time_created = 0, cl_time_updated = upd,
     cl_time_compacting = None, cl_time_archived = arch, cl_workspace_id = [], cl_message_count = 1\<rparr>"

definition demo_table :: "Columns list" where
  "demo_table = [demo_columns ''ses_a'' ''/w'' 1 None, demo_columns ''ses_b'' ''/w'' 3 (Some 4), demo_columns ''ses_c'' ''/w'' 2 None]"

definition demo_os :: os where
  "demo_os = \<lparr>os_files = (\<lambda>_. Some []), os_fail = (\<lambda>_ _. None), os_partial = (\<lambda>_ _. None),
     os_env = (\<lambda>_. None), os_home = Some ''/h'', os_wd = ''/''\<rparr>"

theorem ListSessions_exact_witness:
  "\<exists>got rest. ListSessions (table_driver demo_table) demo_os None None \<lparr>lso_IncludeArchived = False, lso_Limit = 1\<rparr>
       [OSetting (SetCwd ''/w'')] demo_heap = Inr (map column_stat got) \<and>
     mset (got @ rest) = mset (filter (wanted (o_cwd (fst (apply_options [OSetting (SetCwd ''/w'')] demo_heap))) False) demo_table) \<and>
     newest_first (got @ rest) \<and> (rest \<noteq> [] \<longrightarrow> 0 < (1 :: int) \<and> int (length got) = 1)"
  using ListSessions_exact [where dv = "table_driver demo_table" and s = demo_os and h = demo_heap and table = demo_table
      and opts = "[OSetting (SetCwd ''/w'')]" and lo = "\<lparr>lso_IncludeArchived = False, lso_Limit = 1\<rparr>"]
  by (simp add: table_driver_answers db_present_def demo_os_def)

section \<open>One session\<close>

lemma Lookup_answered:
  assumes a: "answers dv (db_dsn p) table" and s: "db_present s p" and d: "distinct (map cl_id table)"
  shows "Lookup dv s None p sid cwd =
    (case find (\<lambda>r. cl_id r = sid \<and> (cwd = [] \<or> cl_directory r = cwd)) table of
       None \<Rightarrow> Inl (errorf_s_w (''session '' @ sid) (ESent SessionErrNotFound))
     | Some r \<Rightarrow> scanRow (Inr r))"
proof -
  let ?P = "\<lambda>r. cl_id r = sid \<and> (cwd = [] \<or> cl_directory r = cwd)"
  let ?d = "if cwd = [] then None else Some cwd"
  have c: "\<And>n. (None :: int option) = Some n \<Longrightarrow> 0 < n" by simp
  obtain rs where q: "dv_query dv (db_dsn p) (select_from @ select_rest (conds (Some sid) ?d False) False ((None :: int option) \<noteq> None))
       (concat (map cond_args (conds (Some sid) ?d False)) @ map ArgInt (opt_list None)) = Inr (map Inr rs, None)"
    and ok: "answer_ok table (conds (Some sid) ?d False) False None rs"
    by (rule answersD [OF a c])
  have q': "dv_query dv (db_dsn p) (fst (lookup_query sid cwd)) (snd (lookup_query sid cwd)) = Inr (map Inr rs, None)"
    using q by (simp only: lookup_query_text Let_def fst_conv snd_conv not_True_eq_False simp_thms)
  have P: "(\<forall>c \<in> set (conds (Some sid) ?d False). cond_holds c r) \<longleftrightarrow> ?P r" for r
    by (auto simp: conds_def opt_list_def)
  have m: "mset rs = mset (filter ?P table)" using ok unfolding answer_ok_def P by auto
  have one: "filter ?P table = (case find ?P table of None \<Rightarrow> [] | Some r \<Rightarrow> [r])" using d
  proof (induction table)
    case (Cons r t)
    have "filter ?P t = []" if "cl_id r = sid" using Cons.prems that by (auto simp: filter_empty_conv image_iff)
    then show ?case using Cons by auto
  qed simp
  have rs: "rs = (case find ?P table of None \<Rightarrow> [] | Some r \<Rightarrow> [r])"
    using m unfolding one by (cases "find ?P table") auto
  show ?thesis
    by (cases "find ?P table")
       (simp_all add: Lookup_def checkDBExists_present [OF s] openRO_def answers_open [OF a] query_row_def q' rs
         scanRow_def)
qed

text \<open>
  StatSession finds exactly the stored session of a valid id, restricted to the working directory
  when one is set, and reports ErrSessionNotFound when there is none; an invalid id never gets as far
  as the store.
\<close>

theorem StatSession_exact:
  assumes "answers dv (db_dsn (store_path s opts h)) table" and "db_present s (store_path s opts h)"
    and "distinct (map cl_id table)"
  shows "StatSession dv s None None sid opts h =
    (if \<not> sessionIDPattern sid then Inl (invalid_id_err sid)
     else case find (\<lambda>r. cl_id r = sid \<and> (o_cwd (fst (apply_options opts h)) \<in> {[], cl_directory r})) table of
       None \<Rightarrow> Inl (errorf_w_s (ESent ErrSessionNotFound) sid)
     | Some r \<Rightarrow> Inr (column_stat r))"
proof -
  let ?cwd = "o_cwd (fst (apply_options opts h))"
  have P: "(\<lambda>r. cl_id r = sid \<and> ?cwd \<in> {[], cl_directory r}) = (\<lambda>r. cl_id r = sid \<and> (?cwd = [] \<or> cl_directory r = ?cwd))"
    by auto
  show ?thesis
    unfolding P StatSession_def Let_def option.case store_path_def [symmetric] Lookup_answered [OF assms]
    by (cases "find (\<lambda>r. cl_id r = sid \<and> (?cwd = [] \<or> cl_directory r = ?cwd)) table")
       (simp_all add: column_stat_def scanRow_def)
qed

theorem StatSession_exact_witness:
  "StatSession (table_driver demo_table) demo_os None None ''ses_c'' [OSetting (SetCwd ''/w'')] demo_heap =
     Inr (column_stat (demo_columns ''ses_c'' ''/w'' 2 None))"
proof -
  have "sessionIDPattern ''ses_c''" by code_simp
  then show ?thesis
    using StatSession_exact [where dv = "table_driver demo_table" and s = demo_os and h = demo_heap and table = demo_table
        and opts = "[OSetting (SetCwd ''/w'')]" and sid = "''ses_c''"]
    by (simp add: table_driver_answers db_present_def demo_os_def demo_table_def demo_columns_def apply_options_def setting_defs)
qed

text \<open>
  A missing database file is reported as ErrSessionNotFound by both calls, without opening it.
\<close>

theorem missing_store_not_found:
  assumes "os_fail s OpStat (store_path s opts h) = None" and "os_files s (store_path s opts h) = None"
    and "sessionIDPattern sid"
  shows "(\<exists>e. StatSession dv s None None sid opts h = Inl e \<and> errors_is e ErrSessionNotFound) \<and>
         (\<exists>e. ListSessions dv s None None lo opts h = Inl e \<and> errors_is e ErrSessionNotFound)"
  using assms by (simp add: StatSession_def ListSessions_def Let_def store_path_def [symmetric] Lookup_def List_rows_def
      checkDBExists_def not_exist_err_def)

theorem missing_store_not_found_witness:
  "(\<exists>e. StatSession (table_driver []) (demo_os\<lparr>os_files := (\<lambda>_. None)\<rparr>) None None ''ses_c'' [] demo_heap = Inl e \<and>
      errors_is e ErrSessionNotFound) \<and>
   (\<exists>e. ListSessions (table_driver []) (demo_os\<lparr>os_files := (\<lambda>_. None)\<rparr>) None None
      \<lparr>lso_IncludeArchived = False, lso_Limit = 0\<rparr> [] demo_heap = Inl e \<and> errors_is e ErrSessionNotFound)"
proof -
  have "sessionIDPattern ''ses_c''" by code_simp
  then show ?thesis
    by (intro missing_store_not_found) (simp_all add: demo_os_def)
qed

end
