(* ===== verification/Frames.thy ===== *)
theory Frames
  imports Query
begin

text \<open>
  What the operations of a client respect. Every operation is made of a few elementary steps: the
  environment changes but not the files, the client's bookkeeping changes but not its options and
  sessions, one session moves on, a session is allocated, the connection is asked. The locale
  \<open>client_preorder\<close> shows that a preorder between states that these steps respect is respected by
  every operation; its interpretations give what no operation touches (the options and the files),
  what only grows, and what only a prompt resets.
\<close>

section \<open>Sessions keep the files\<close>

named_theorems os_frame

lemma fire_tool_hooks_os [os_frame]:
  "he_os (fireHookPreToolUse cfg sid tc e) = he_os e"
  "he_os (fireHookPostToolUseFromToolCall cfg sid tc e) = he_os e"
  "he_os (fireHookPostToolUseFromUpdate cfg sid tcu e) = he_os e"
  by (simp_all add: fireHookPreToolUse_def fireHookPostToolUseFromToolCall_def
      fireHookPostToolUseFromUpdate_def Let_def split: option.splits)

lemma observe_os [os_frame]: "he_os (snd (observeInLock cfg t0 t1 u se)) = he_os (snd se)"
  by (auto simp: observeInLock_def emitToolCallTerminal_def Let_def os_frame split: prod.splits option.splits)

lemma Cancel_os [os_frame]: "he_os (snd (snd (Cancel cfg se))) = he_os (snd se)"
  by (auto simp: Cancel_def split: prod.splits dest: on_world_frame)

lemma run_subscriber_os [os_frame]: "he_os (snd (run_subscriber cfg u h se)) = he_os (snd se)"
  by (auto simp: run_subscriber_def Cancel_os split: option.splits prod.splits dest: on_world_frame)

lemma dispatch_os [os_frame]: "he_os (snd (dispatchSubscribers cfg subs u se)) = he_os (snd se)"
  by (induction subs arbitrary: se) (simp_all add: dispatchSubscribers_def run_subscriber_os)

lemma deliver_send_os [os_frame]: "deliver_send cfg n se = Some se' \<Longrightarrow> he_os (snd se') = he_os (snd se)"
  by (auto simp: deliver_send_def Let_def split: prod.splits if_splits send_result.splits option.splits)

lemma deliver_os [os_frame]: "deliver cfg t0 t1 n se = Some se' \<Longrightarrow> he_os (snd se') = he_os (snd se)"
  by (auto simp: deliver_def deliver_first_def Let_def os_frame split: if_splits dest!: deliver_send_os)

lemma setConfig_os [os_frame]: "he_os (snd (snd (setConfigOption cfg c v se))) = he_os (snd se)"
  by (auto simp: setConfigOption_def split: prod.splits dest: on_world_frame)

lemma config_os [os_frame]:
  "he_os (snd (snd (SetModel cfg m se))) = he_os (snd se)"
  "he_os (snd (snd (SetMode cfg m se))) = he_os (snd se)"
  "he_os (snd (snd (SetConfigOption cfg c m se))) = he_os (snd se)"
  "he_os (snd (snd (SetConfigOptionBool cfg c b se))) = he_os (snd se)"
  using setConfig_os [of cfg _ _ se]
  by (auto simp: SetModel_def SetMode_def SetConfigOption_def SetConfigOptionBool_def
      split: prod.splits option.splits) (metis snd_conv)+

lemma prompt_os [os_frame]:
  "he_os (snd (snd (prompt_prepare cfg bs se))) = he_os (snd se)"
  "he_os (snd (snd (snd (prompt_finish cfg x d l r cap se)))) = he_os (snd se)"
proof -
  have "run_hook dd ev p i (snd se) = (r, e1) \<Longrightarrow> he_os e1 = he_os (snd se)" for dd ev p i r e1
    using run_hook_frame by blast
  then show "he_os (snd (snd (prompt_prepare cfg bs se))) = he_os (snd se)"
    by (auto simp: prompt_prepare_def Let_def split: prod.splits option.splits if_splits)
  show "he_os (snd (snd (snd (prompt_finish cfg x d l r cap se)))) = he_os (snd se)"
    by (auto simp: prompt_finish_def fireTurnComplete_def Let_def split: prod.splits option.splits sum.splits)
qed

section \<open>A session moves on\<close>

text \<open>A session keeps its id, never opens again, and a cancellation it was asked for stays asked for.\<close>

definition gentle :: "'w session \<times> 'w henv \<Rightarrow> 'w session \<times> 'w henv \<Rightarrow> bool" where
  "gentle se se' \<longleftrightarrow> he_os (snd se') = he_os (snd se) \<and> s_id (fst se') = s_id (fst se) \<and>
     (s_closed (fst se) \<longrightarrow> s_closed (fst se')) \<and> (s_cancelIntended (fst se) \<longrightarrow> s_cancelIntended (fst se'))"

lemma gentle_refl [simp]: "gentle se se"
  by (simp add: gentle_def)

lemma gentle_trans: "gentle se se1 \<Longrightarrow> gentle se1 se2 \<Longrightarrow> gentle se se2"
  by (simp add: gentle_def)

lemma emit_gentle: "gentle se (emitToolCallTerminal t1 i n k st se)"
  by (auto simp: emitToolCallTerminal_def gentle_def split: prod.splits option.splits)

lemma observe_gentle: "gentle se (observeInLock cfg t0 t1 u se)"
  using observe_os [of cfg t0 t1 u se]
  by (auto simp: observeInLock_def emitToolCallTerminal_def gentle_def Let_def split: prod.splits option.splits)

lemma Cancel_gentle: "gentle se (snd (Cancel cfg se))"
  using Cancel_os [of cfg se] by (auto simp: Cancel_def gentle_def split: prod.splits)

lemma run_subscriber_gentle: "gentle se (run_subscriber cfg u h se)"
proof (cases "chosen_handler u h")
  case (Some f)
  obtain b e' where f: "on_world f (snd se) = (b, e')" by (metis prod.exhaust)
  have "gentle se (fst se, e')" using on_world_frame [OF f] by (simp add: gentle_def)
  then show ?thesis using Some f gentle_trans [OF _ Cancel_gentle, of se "(fst se, e')" cfg] by (simp add: run_subscriber_def)
qed (simp add: run_subscriber_def)

lemma dispatch_gentle: "gentle se (dispatchSubscribers cfg subs u se)"
proof (induction subs arbitrary: se)
  case (Cons h hs)
  from gentle_trans [OF run_subscriber_gentle Cons] show ?case by (simp add: dispatchSubscribers_def)
qed (simp add: dispatchSubscribers_def)

lemma deliver_send_gentle: "deliver_send cfg n se = Some se' \<Longrightarrow> gentle se se'"
  using deliver_send_os [of cfg n se se']
  by (auto simp: deliver_send_def gentle_def Let_def split: prod.splits if_splits send_result.splits option.splits)

lemma deliver_gentle:
  assumes "deliver cfg t0 t1 n se = Some se'"
  shows "gentle se se'"
proof (cases "s_closed (fst se)")
  case False
  let ?se1 = "observeInLock cfg t0 t1 (sn_Update n) se"
  let ?se2 = "dispatchSubscribers cfg (map snd (s_subscribers (fst ?se1))) (sn_Update n) ?se1"
  have "deliver_send cfg n ?se2 = Some se'" using assms False by (simp add: deliver_def deliver_first_def Let_def)
  from gentle_trans [OF observe_gentle gentle_trans [OF dispatch_gentle deliver_send_gentle [OF this]]] show ?thesis .
qed (use assms in \<open>simp add: deliver_def deliver_first_def\<close>)

lemma setConfig_frame: "setConfigOption cfg c v se = (r, (s', e')) \<Longrightarrow> s' = fst se \<and> he_os e' = he_os (snd se)"
  by (auto simp: setConfigOption_def split: prod.splits dest: on_world_frame)

lemma config_gentle:
  "gentle se (snd (SetModel cfg m se))" "gentle se (snd (SetMode cfg m se))"
  "gentle se (snd (SetConfigOption cfg c m se))" "gentle se (snd (SetConfigOptionBool cfg c b se))"
  by (auto simp: gentle_def SetModel_def SetMode_def SetConfigOption_def SetConfigOptionBool_def
      setConfigOption_session setConfig_os
      split: prod.splits option.splits dest!: setConfig_frame)

lemma close_session_gentle: "close_session s = Some s' \<Longrightarrow> gentle (s, e) (s', e)"
  by (auto simp: close_session_def gentle_def split: if_splits)

lemma checkMCP_os: "checkMCPCapabilities caps ss e = (r, e') \<Longrightarrow> he_os e' = he_os e"
  by (induction caps ss e rule: checkMCPCapabilities.induct) (auto split: option.splits if_splits)

section \<open>Preorders on clients\<close>

definition requests_respect :: "'w conn \<Rightarrow> ('w ce \<Rightarrow> 'w ce \<Rightarrow> bool) \<Rightarrow> bool" where
  "requests_respect cn R \<longleftrightarrow> (\<forall>ce. (\<forall>q. R ce (snd (cn_initialize cn q ce))) \<and> (\<forall>r. R ce (snd (cn_newSession cn r ce))) \<and>
     (\<forall>r. R ce (snd (cn_loadSession cn r ce))) \<and> (\<forall>r. R ce (snd (cn_forkSession cn r ce))) \<and>
     (\<forall>r. R ce (snd (cn_resumeSession cn r ce))) \<and> (\<forall>i m. R ce (snd (cn_setModel cn i m ce))) \<and>
     R ce (snd (cn_factory cn ce)) \<and> R ce (snd (cn_discover cn ce)) \<and> (\<forall>p a v. R ce (snd (cn_spawn cn p a v ce))) \<and>
     R ce (snd (cn_closeTransport cn ce)) \<and> (\<forall>n. R ce (snd (cn_newBridge cn n ce))) \<and> R ce (snd (cn_startBridge cn ce)) \<and>
     (\<forall>b. R ce (snd (cn_closeBridge cn b ce))) \<and> (\<forall>l. R ce (snd (cn_runLogin cn l ce))))"

lemma requests_respectD:
  assumes "requests_respect cn R"
  shows "cn_initialize cn q ce = (r1, ce') \<Longrightarrow> R ce ce'" "cn_newSession cn rq ce = (r2, ce') \<Longrightarrow> R ce ce'"
    "cn_loadSession cn rq ce = (r2, ce') \<Longrightarrow> R ce ce'" "cn_forkSession cn rq ce = (r2, ce') \<Longrightarrow> R ce ce'"
    "cn_resumeSession cn rq ce = (r2, ce') \<Longrightarrow> R ce ce'" "cn_setModel cn i m ce = (r3, ce') \<Longrightarrow> R ce ce'"
    "cn_factory cn ce = (r4, ce') \<Longrightarrow> R ce ce'" "cn_discover cn ce = (r5, ce') \<Longrightarrow> R ce ce'"
    "cn_spawn cn p a v ce = (r6, ce') \<Longrightarrow> R ce ce'" "cn_closeTransport cn ce = (r6, ce') \<Longrightarrow> R ce ce'"
    "cn_newBridge cn ns ce = (r6, ce') \<Longrightarrow> R ce ce'" "cn_startBridge cn ce = (r7, ce') \<Longrightarrow> R ce ce'"
    "cn_closeBridge cn b ce = (r6, ce') \<Longrightarrow> R ce ce'" "cn_runLogin cn l ce = (r6, ce') \<Longrightarrow> R ce ce'"
  using assms unfolding requests_respect_def by (metis snd_conv)+

locale client_preorder =
  fixes cn :: "'w conn"
    and R :: "'w ce \<Rightarrow> 'w ce \<Rightarrow> bool"
  assumes reflexive [simp]: "R ce ce"
    and transitive: "R ce ce1 \<Longrightarrow> R ce1 ce2 \<Longrightarrow> R ce ce2"
    and books: "c_opts c' = c_opts c \<Longrightarrow> c_store c' = c_store c \<Longrightarrow> c_nextPtr c' = c_nextPtr c \<Longrightarrow>
      he_os e' = he_os e \<Longrightarrow> R (c, e) (c', e')"
    and moves: "gentle (c_store c p, e) (s', e') \<Longrightarrow> R (c, e) (c\<lparr>c_store := (c_store c)(p := s')\<rparr>, e')"
    and allocates: "R (c, e) (c\<lparr>c_store := (c_store c)(c_nextPtr c := s), c_nextPtr := c_nextPtr c + 1\<rparr>, e)"
    and asks: "requests_respect cn R"
begin

lemmas asked = requests_respectD [OF asks]

lemma sessions_step:
  assumes "\<And>se. gentle se (snd (f se))"
  shows "R ce (snd (with_session p f ce))"
proof -
  obtain c e where ce: "ce = (c, e)" by (cases ce)
  obtain r s' e' where f: "f (c_store c p, e) = (r, (s', e'))" by (metis prod.exhaust)
  have "gentle (c_store c p, e) (s', e')" using assms [of "(c_store c p, e)"] f by simp
  from moves [OF this] show ?thesis by (simp add: with_session_def ce f)
qed

lemma updates:
  assumes "\<And>s. s_id (f s) = s_id s \<and> s_closed (f s) = s_closed s \<and> s_cancelIntended (f s) = s_cancelIntended s"
  shows "R ce (update_session p f ce)"
proof -
  obtain c e where ce: "ce = (c, e)" by (cases ce)
  have "gentle (c_store c p, e) (f (c_store c p), e)" using assms by (simp add: gentle_def)
  from moves [OF this] show ?thesis by (simp add: update_session_def ce)
qed

lemma hooks: "R ce (fireHookSession ev sid ce)" "R ce (fireHookSessionStart sid ce)" "R ce (fireHookSessionEnd sid ce)"
  by (simp_all add: fireHookSessionStart_def fireHookSessionEnd_def fireHookSession_def books os_frame split: prod.splits)

lemma hooks_fold: "R ce (fold fireHookSessionEnd ids ce)"
proof (induction ids arbitrary: ce)
  case (Cons i ids)
  from transitive [OF hooks(3) Cons] show ?case by simp
qed simp

lemma delivers: "deliver_to cn t0 t1 p n ce = Some ce' \<Longrightarrow> R ce ce'"
  by (auto simp: deliver_to_def intro!: moves dest!: deliver_gentle split: prod.splits)

lemma delivers_all: "deliver_all cn t0 t1 p ns ce = Some ce' \<Longrightarrow> R ce ce'"
  by (induction ns arbitrary: ce) (auto simp: bind_eq_Some_conv intro: transitive [OF delivers])

lemma routes:
  assumes "routeSessionUpdate cn t0 t1 n ce = Some ce'"
  shows "R ce ce'"
proof -
  obtain c e where ce: "ce = (c, e)" by (cases ce)
  let ?e1 = "on_obs (RecordSessionUpdate (sessionUpdateVariant (sn_Update n))) e"
  obtain po c1 where l: "route_lookup n c = (po, c1)" by (metis prod.exhaust)
  have "R ce (c1, ?e1)" using l by (auto simp: ce route_lookup_def Let_def intro!: books split: option.splits if_splits)
  then show ?thesis using assms l delivers transitive [OF _ delivers] by (cases po) (auto simp: ce routeSessionUpdate_def)
qed

lemma closes: "close_ptr p c = Some c' \<Longrightarrow> R (c, e) (c', e)"
  by (auto simp: close_ptr_def intro!: moves close_session_gentle)

lemma closes_all: "close_ptrs ps c = Some c' \<Longrightarrow> R (c, e) (c', e)"
proof (induction ps arbitrary: c)
  case (Cons p ps)
  then obtain c1 where "close_ptr p c = Some c1" "close_ptrs ps c1 = Some c'" by (auto simp: bind_eq_Some_conv)
  then show ?case using transitive [OF closes Cons.IH] by blast
qed simp

lemma tears_down:
  assumes "teardownSession p ce = Some ce'"
  shows "R ce ce'"
proof -
  obtain c e where ce: "ce = (c, e)" by (cases ce)
  let ?i = "s_id (c_store c p)"
  obtain c2 where c2: "close_ptr p (deregisterSession ?i c) = Some c2" "ce' = fireHookSessionEnd ?i (c2, e)"
    using assms by (auto simp: teardownSession_def ce Let_def)
  have "R (c, e) (deregisterSession ?i c, e)" by (rule books) (simp_all add: deregisterSession_def)
  from transitive [OF this transitive [OF closes [OF c2(1)] hooks(3)]] show ?thesis by (simp add: ce c2(2))
qed

lemma creates:
  assumes "newSession cn t0 t1 sid mo md op me b ce = Some (p, ce')"
  shows "R ce ce'"
proof -
  obtain c e where ce: "ce = (c, e)" by (cases ce)
  define c1 where "c1 = c\<lparr>c_store := (c_store c)(c_nextPtr c := new_session sid mo md op me b), c_nextPtr := Suc (c_nextPtr c)\<rparr>"
  obtain ns c2 where r: "register_attach p c1 = (ns, c2)" by (metis prod.exhaust)
  have d: "deliver_all cn t0 t1 p ns (c2, e) = Some ce'"
    using assms r by (auto simp: newSession_def registerSession_def ce c1_def Let_def)
  have "R (c, e) (c1, e)" unfolding c1_def using allocates [of c e] by simp
  moreover have "R (c1, e) (c2, e)" by (rule books) (use r in \<open>auto simp: register_attach_def Let_def\<close>)
  ultimately show ?thesis using transitive delivers_all [OF d] unfolding ce by blast
qed

lemma begins: "begin_call cn opts ce = (b, ce') \<Longrightarrow> R ce ce'"
  by (auto simp: begin_call_def intro!: books dest: checkMCP_os split: prod.splits option.splits)

lemma logs_in:
  assumes "maybeRelaunchLoginAndRetry cn o1 err ce = (l, ce')"
  shows "R ce ce'"
  using assms asked(14) by (auto simp: maybeRelaunchLoginAndRetry_def split: if_splits option.splits prod.splits)

lemma asks_with_login:
  assumes rpc: "\<And>ce q ce'. rpc ce = (q, ce') \<Longrightarrow> R ce ce'" and r: "request_with_login cn o1 rpc ce = (q, ce')"
  shows "R ce ce'"
proof -
  obtain r1 ce1 where c1: "rpc ce = (r1, ce1)" by (metis prod.exhaust)
  show ?thesis
  proof (cases r1)
    case (Inl err)
    obtain r2 ce2 where c2: "maybeRelaunchLoginAndRetry cn o1 err ce1 = (r2, ce2)" by (metis prod.exhaust)
    have "R ce ce2" by (rule transitive [OF rpc [OF c1] logs_in [OF c2]])
    then show ?thesis using r c1 c2 Inl transitive [OF _ rpc, of ce ce2] by (cases r2) (auto simp: request_with_login_def)
  qed (use r c1 rpc [OF c1] in \<open>simp add: request_with_login_def\<close>)
qed

lemma sets_model:
  assumes "UnstableSetModel cn i m ce = (r, ce')"
  shows "R ce ce'"
proof (cases "ensureStarted (fst ce)")
  case None
  obtain r1 ce1 where rp: "cn_setModel cn i m ce = (r1, ce1)" by (metis prod.exhaust)
  note e1 = asked(6) [OF rp]
  have "R ce (update_session p (setResolvedVariant v) ce1)" for p v
    by (rule transitive [OF e1 updates]) (simp add: setResolvedVariant_def split: option.split)
  then show ?thesis using assms rp None e1
    by (cases r1) (auto simp: UnstableSetModel_def split: option.splits)
qed (use assms in \<open>simp add: UnstableSetModel_def\<close>)

lemma resolves:
  assumes "resolveVariants cn i m ce = (r, ce')"
  shows "R ce ce'"
proof (cases "ensureStarted (fst ce)")
  case None
  obtain r1 ce1 where rp: "cn_setModel cn i m ce = (r1, ce1)" by (metis prod.exhaust)
  show ?thesis using assms rp None asked(6) [OF rp] by (cases r1) (auto simp: resolveVariants_def)
qed (use assms in \<open>simp add: resolveVariants_def\<close>)

lemma applies_variants:
  assumes "apply_variants cn p prio info ce = (r, ce')"
  shows "R ce ce'"
proof -
  define ce1 where "ce1 = update_session p (setResolvedVariant (Some info)) ce"
  define i where "i = s_id (c_store (fst ce1) p)"
  define t where "t = vi_ModelId info @ ''/'' @ chooseVariant (vi_AvailableVariants info) prio"
  obtain r2 ce2 where m: "UnstableSetModel cn i t ce1 = (r2, ce2)" by (metis prod.exhaust)
  have e1: "R ce ce1" unfolding ce1_def by (rule updates) (simp add: setResolvedVariant_def)
  have e2: "R ce ce2" by (rule transitive [OF e1 sets_model [OF m]])
  have "R ce (update_session p (\<lambda>s. s\<lparr>s_currentModel := t\<rparr>) ce1)" by (rule transitive [OF e1 updates]) simp
  moreover have "R ce (update_session p (\<lambda>s. setResolvedVariant (Some x) (s\<lparr>s_currentModel := t\<rparr>)) ce2)" for x
    by (rule transitive [OF e2 updates]) (simp add: setResolvedVariant_def)
  ultimately show ?thesis
    using assms e1 e2 m unfolding apply_variants_def ce1_def [symmetric] Let_def i_def [symmetric] t_def [symmetric]
    by (cases r2) (auto split: if_splits)
qed

lemma applies_effort: "R ce (snd (applyEffortOnSession cn p l m ce))"
proof -
  obtain r1 ce1 where v: "resolveVariants cn (s_id (c_store (fst ce) p)) m ce = (r1, ce1)" by (metis prod.exhaust)
  show ?thesis
    using v resolves [OF v] transitive [OF resolves [OF v] applies_variants [OF surjective_pairing]]
    by (cases r1) (simp_all add: applyEffortOnSession_def)
qed

lemma then_does: "R ce (snd x) \<Longrightarrow> (\<And>ce. R ce (snd (f ce))) \<Longrightarrow> R ce (snd (then_do x f))"
  by (cases x; cases "fst x") (auto simp: then_do_def intro: transitive)

lemma wraps [simp]: "snd (wrap_error m x) = snd x"
  by (simp add: wrap_error_def split: prod.split)

lemma turn_limit: "R ce (apply_max_turns cn p o1 ce)"
proof -
  obtain getc putc where t: "cn_turnCell cn p = (getc, putc)" by (metis prod.exhaust)
  have "R ce (update_session p (attachMaxTurns getc putc n) ce)" for n
    by (rule updates) (simp add: attachMaxTurns_def Subscribe_def Let_def)
  then show ?thesis by (simp add: apply_max_turns_def t)
qed

lemma configures: "R ce (snd (applySessionConfig cn p o1 ce))"
proof -
  have "R ce (snd (apply_model cn p o1 ce))" for ce
    by (simp add: apply_model_def sessions_step [OF config_gentle(1)])
  moreover have "R ce (snd (apply_agent cn p o1 ce))" for ce
    by (simp add: apply_agent_def sessions_step [OF config_gentle(2)])
  moreover have "R ce (snd (apply_effort cn p o1 ce))" for ce
    by (simp add: apply_effort_def applies_effort Let_def)
  ultimately show ?thesis unfolding applySessionConfig_def by (intro then_does) (simp_all add: turn_limit)
qed

lemma attaches: "R ce (attachBudgetTracker p ce)"
  by (auto simp: attachBudgetTracker_def Subscribe_def Let_def intro!: updates split: option.split)

lemma finishes:
  assumes "finish_call cn p o1 ce = Some (r, ce')"
  shows "R ce ce'"
proof -
  obtain x ce1 where a: "applySessionConfig cn p o1 ce = (x, ce1)" by (metis prod.exhaust)
  then have e1: "R ce ce1" using configures [of ce p o1] by simp
  show ?thesis
  proof (cases x)
    case None
    with a assms have "ce' = fireHookSessionStart (s_id (c_store (fst ce1) p)) (attachBudgetTracker p ce1)"
      by (simp add: finish_call_def)
    then show ?thesis using transitive [OF e1 transitive [OF attaches hooks(2)]] by simp
  next
    case (Some err)
    with a assms have "teardownSession p ce1 = Some ce'" by (auto simp: finish_call_def)
    from transitive [OF e1 tears_down [OF this]] show ?thesis .
  qed
qed

text \<open>The four calls that open a session.\<close>

lemma created_and_finished:
  assumes "Option.bind (newSession cn t0 t1 sid mo md op me b ce) (\<lambda>(p, ce'). finish_call cn p o1 ce') = Some (r, ce'')"
  shows "R ce ce''"
proof -
  obtain p ce1 where n: "newSession cn t0 t1 sid mo md op me b ce = Some (p, ce1)" "finish_call cn p o1 ce1 = Some (r, ce'')"
    using assms by (auto simp: bind_eq_Some_conv)
  show ?thesis by (rule transitive [OF creates [OF n(1)] finishes [OF n(2)]])
qed

lemma created_and_asked:
  assumes rpc: "\<And>ce q ce'. rpc ce = (q, ce') \<Longrightarrow> R ce ce'"
    and f: "\<And>resp s. s_id (f resp s) = s_id s \<and> s_closed (f resp s) = s_closed s \<and>
      s_cancelIntended (f resp s) = s_cancelIntended s"
    and s: "Option.bind (newSession cn t0 t1 sid mo md op me b ce)
      (\<lambda>(p, ce2). case rpc ce2 of
         (Inl err, ce3) \<Rightarrow> map_option (Pair (Inl (g err))) (teardownSession p ce3)
       | (Inr resp, ce3) \<Rightarrow> finish_call cn p o1 (update_session p (f resp) ce3)) = Some (r, ce'')"
  shows "R ce ce''"
proof -
  obtain p ce1 where n: "newSession cn t0 t1 sid mo md op me b ce = Some (p, ce1)"
    using s by (cases "newSession cn t0 t1 sid mo md op me b ce") auto
  obtain q ce2 where q: "rpc ce1 = (q, ce2)" by (metis prod.exhaust)
  have e: "R ce ce2" by (rule transitive [OF creates [OF n] rpc [OF q]])
  show ?thesis
  proof (cases q)
    case (Inl err)
    with n q s have "teardownSession p ce2 = Some ce''" by auto
    then show ?thesis by (rule transitive [OF e tears_down])
  next
    case (Inr resp)
    with n q s have "finish_call cn p o1 (update_session p (f resp) ce2) = Some (r, ce'')" by simp
    then show ?thesis by (rule transitive [OF transitive [OF e updates [OF f]] finishes])
  qed
qed

lemma opens:
  assumes o: "open_session cn t0 t1 x k opts ce = Some (r, ce')"
  shows "R ce ce'"
proof -
  obtain b ce1 where b: "begin_call cn opts ce = (b, ce1)" by (metis prod.exhaust)
  note e1 = begins [OF b]
  show ?thesis
  proof (cases b)
    case (Inl err)
    with o b e1 show ?thesis
      by (cases k) (simp_all add: NewSession_def LoadSession_def ForkSession_def ResumeSession_def)
  next
    case (Inr o1)
    show ?thesis
    proof (cases k)
      case CallNew
      let ?rpc = "cn_newSession cn (session_request [] (fst ce1) o1 (sessionNewMeta o1))"
      obtain q ce2 where q: "request_with_login cn o1 ?rpc ce1 = (q, ce2)" by (metis prod.exhaust)
      have e2: "R ce ce2" by (rule transitive [OF e1 asks_with_login [of ?rpc, OF asked(2) q]])
      show ?thesis
        using o e2 transitive [OF e2 created_and_finished]
        by (cases q) (auto simp: CallNew NewSession_def b Inr q)
    next
      case (CallLoad i)
      from o have "LoadSession cn t0 t1 x i opts ce = Some (r, ce')" by (simp add: CallLoad)
      have rpc: "request_with_login cn o1 (cn_loadSession cn (session_request i (fst ce1) o1 (sessionNewMeta o1))) ce = (q, ce')
          \<Longrightarrow> R ce ce'" for ce q ce' by (rule asks_with_login [OF asked(3)])
      show ?thesis
        by (rule transitive [OF e1 created_and_asked [OF rpc _
          \<open>LoadSession cn t0 t1 x i opts ce = Some (r, ce')\<close> [unfolded LoadSession_def b Inr prod.case sum.case]]]) simp_all
    next
      case (CallFork i)
      obtain q ce2 where q: "cn_forkSession cn (session_request i (fst ce1) o1 None) ce1 = (q, ce2)" by (metis prod.exhaust)
      have e2: "R ce ce2" by (rule transitive [OF e1 asked(4) [OF q]])
      show ?thesis
        using o e2 transitive [OF e2 created_and_finished]
        by (cases q) (auto simp: CallFork ForkSession_def b Inr q)
    next
      case (CallResume i)
      from o have "ResumeSession cn t0 t1 i opts ce = Some (r, ce')" by (simp add: CallResume)
      show ?thesis
        by (rule transitive [OF e1 created_and_asked [OF asked(5) _
          \<open>ResumeSession cn t0 t1 i opts ce = Some (r, ce')\<close> [unfolded ResumeSession_def b Inr prod.case sum.case]]]) simp_all
    qed
  qed
qed

text \<open>Start, Close and the crash.\<close>

lemma bridges:
  assumes "start_bridge cn names ce = (r, ce')"
  shows "R ce ce'"
proof (cases "names = []")
  case False
  obtain r1 ce1 where n: "cn_newBridge cn names ce = (r1, ce1)" by (metis prod.exhaust)
  obtain r2 c2 e2 where b: "cn_startBridge cn ce1 = (r2, (c2, e2))" by (metis prod.exhaust)
  have e2: "R ce (c2, e2)" by (rule transitive [OF asked(11) [OF n] asked(12) [OF b]])
  have "R ce (c2\<lparr>c_bridge := Some x, c_listening := c_listening c2 @ [x]\<rparr>, e2)" for x
    by (rule transitive [OF e2 books]) simp_all
  then show ?thesis using assms False n b e2 asked(11) [OF n] by (cases r1; cases r2) (auto simp: start_bridge_def)
qed (use assms in \<open>simp add: start_bridge_def\<close>)

lemma spans: "R ce (open_subprocess_span path ce)" "R ce (close_subprocess_span ce)"
proof -
  have "R (c, e) (c', e')" if "(c', e') = open_subprocess_span path (c, e) \<or> (c', e') = close_subprocess_span (c, e)"
    for c e c' e'
  proof (rule books)
    have "c' = fst (open_subprocess_span path (c, e)) \<and> e' = snd (open_subprocess_span path (c, e)) \<or>
        c' = fst (close_subprocess_span (c, e)) \<and> e' = snd (close_subprocess_span (c, e))"
      using that by (metis fst_conv snd_conv)
    then show "c_opts c' = c_opts c" "c_store c' = c_store c" "c_nextPtr c' = c_nextPtr c" "he_os e' = he_os e" by auto
  qed
  then show "R ce (open_subprocess_span path ce)" "R ce (close_subprocess_span ce)" by (metis prod.exhaust)+
qed

lemma observes: "R (c, e) (c, on_obs f e)" "R (c, e) (c, finish_span i (on_obs f e))"
  by (rule books; simp)+

lemma builds_transport:
  assumes "buildTransport cn ce = (r, ce')"
  shows "R ce ce'"
proof (cases "o_customTransport (c_opts (fst ce))")
  case True
  obtain r1 ce1 where f: "cn_factory cn ce = (r1, ce1)" by (metis prod.exhaust)
  show ?thesis using asked(7) [OF f] f True assms transitive [OF asked(7) [OF f] spans(1)]
    by (auto simp: buildTransport_def split: sum.splits bool.splits)
next
  case False
  obtain r1 ce1 where d: "cn_discover cn ce = (r1, ce1)" by (metis prod.exhaust)
  note e1 = asked(8) [OF d]
  show ?thesis
  proof (cases r1)
    case (Inr pv)
    obtain r2 c2 e2 where sp: "cn_spawn cn (fst pv) (subprocessArgs (fst ce1)) (subprocessEnv (fst ce1))
        (open_subprocess_span (fst pv) ce1) = (r2, (c2, e2))" by (metis prod.exhaust)
    have e2: "R ce (c2, on_obs f e2)" for f
      by (rule transitive [OF transitive [OF e1 transitive [OF spans(1) asked(9) [OF sp]]] observes(1)])
    show ?thesis using Inr d sp False assms e2 transitive [OF e2 spans(2)]
      by (cases pv; cases r2) (auto simp: buildTransport_def)
  qed (use d e1 False assms in \<open>auto simp: buildTransport_def\<close>)
qed

lemma shakes_hands:
  assumes "client_initialize cn d ce = (r, ce')"
  shows "R ce ce'"
proof -
  obtain c e where ce: "ce = (c, e)" by (cases ce)
  obtain k e0 where k: "on_spans StartInitializeSpan e = (k, e0)" by (metis prod.exhaust)
  obtain r1 c1 e1 where i: "cn_initialize cn (client_caps (c_opts c)) (c, e0) = (r1, (c1, e1))" by (metis prod.exhaust)
  have e0: "R (c, e) (c, e0)" by (rule books) (use on_spans_frame [OF k] in simp_all)
  have e1: "R (c, e) (c1, e1)" by (rule transitive [OF e0 asked(1) [OF i]])
  have "R (c1, e1) (c2, finish_span k (on_obs f e1))"
    if "c_opts c2 = c_opts c1" "c_store c2 = c_store c1" "c_nextPtr c2 = c_nextPtr c1" for c2 f
    by (rule books) (simp_all add: that)
  then have e2: "R ce (c2, finish_span k (on_obs f e1))"
    if "c_opts c2 = c_opts c1" "c_store c2 = c_store c1" "c_nextPtr c2 = c_nextPtr c1" for c2 f
    using transitive [OF e1] that by (simp add: ce)
  show ?thesis using assms k i by (cases r1) (auto simp: client_initialize_def ce [symmetric] intro!: e2, auto simp: ce intro!: e2 [unfolded ce])
qed

lemma starts:
  assumes s: "Start cn ask d ce = (r, ce')"
  shows "R ce ce'"
proof (cases "c_started (fst ce) \<or> c_closed (fst ce)")
  case False
  obtain ar c1 where a: "assembleBridgeTools ask (fst ce) = (ar, c1)" by (metis prod.exhaust)
  have "R (fst ce, snd ce) (c1, snd ce)"
    by (rule books) (use a in \<open>auto simp: assembleBridgeTools_def Let_def split: sum.splits option.splits if_splits\<close>)
  then have e1: "R ce (c1, snd ce)" by simp
  show ?thesis
  proof (cases ar)
    case (Inr defs)
    obtain br ce2 where b: "start_bridge cn (map td_Name defs) (c1, snd ce) = (br, ce2)" by (metis prod.exhaust)
    obtain tr c3 e3 where t: "buildTransport cn ce2 = (tr, (c3, e3))" by (metis prod.exhaust)
    obtain ir c4 e4 where i: "client_initialize cn d (c3\<lparr>c_transport := True\<rparr>, e3) = (ir, (c4, e4))"
      by (metis prod.exhaust)
    obtain xr c5 e5 where x: "cn_closeTransport cn (c4, e4) = (xr, (c5, e5))" by (metis prod.exhaust)
    note e2 = transitive [OF e1 bridges [OF b]]
    note e3 = transitive [OF e2 builds_transport [OF t]]
    have "R (c3, e3) (c3\<lparr>c_transport := True\<rparr>, e3)" by (rule books) simp_all
    note e4 = transitive [OF e3 transitive [OF this shakes_hands [OF i]]]
    note e5 = transitive [OF e4 asked(10) [OF x]]
    have "R (c5, e5) (c5\<lparr>c_transport := False\<rparr>, e5)" "R (c4, e4) (c4\<lparr>c_started := True\<rparr>, e4)" by (rule books; simp)+
    note e6 = transitive [OF e5 this(1)] transitive [OF e4 this(2)]
    show ?thesis using s False a b t i x Inr e2 e3 e6
      by (cases br; cases tr; cases ir) (auto simp: Start_def)
  qed (use s False a e1 in \<open>auto simp: Start_def\<close>)
qed (use s in \<open>cases "c_started (fst ce)"; auto simp: Start_def\<close>)

lemma shuts_down: "R ce (snd (shutdown cn t ce))"
proof -
  obtain r1 ce1 where x: "(if t then cn_closeTransport cn ce else (None, ce)) = (r1, ce1)" by (metis prod.exhaust)
  have e1: "R ce ce1" using x asked(10) by (auto split: if_splits)
  show ?thesis
  proof (cases "c_bridge (fst ce1)")
    case (Some b)
    obtain rb c2 e2 where b: "cn_closeBridge cn b ce1 = (rb, (c2, e2))" by (metis prod.exhaust)
    have "R (c2, e2) (c2\<lparr>c_listening := remove1 b (c_listening c2)\<rparr>, e2)" by (rule books) simp_all
    from transitive [OF e1 transitive [OF asked(13) [OF b] this]] x b Some show ?thesis by (simp add: shutdown_def)
  qed (use x e1 in \<open>simp add: shutdown_def\<close>)
qed

lemma closes_client:
  assumes "Close cn ce = Some (r, ce')"
  shows "R ce ce'"
proof -
  obtain c e where ce: "ce = (c, e)" by (cases ce)
  show ?thesis
  proof (cases "c_closed c")
    case False
    then obtain c1 ids where c1: "close_ptrs (map snd (c_sessions c)) (c\<lparr>c_closed := True\<rparr>) = Some c1"
      and s: "shutdown cn (c_transport c) (close_subprocess_span (fold fireHookSessionEnd ids (c1\<lparr>c_sessions := []\<rparr>, e))) = (r, ce')"
      using assms by (auto simp: Close_def ce Let_def)
    have "R (c, e) (c\<lparr>c_closed := True\<rparr>, e)" "R (c1, e) (c1\<lparr>c_sessions := []\<rparr>, e)" by (rule books; simp)+
    note e1 = transitive [OF this(1) transitive [OF closes_all [OF c1] this(2)]]
    have "R (c1\<lparr>c_sessions := []\<rparr>, e) ce'"
      using transitive [OF hooks_fold transitive [OF spans(2) shuts_down]] s by (metis snd_conv)
    from transitive [OF e1 this] show ?thesis by (simp add: ce)
  qed (use assms ce in \<open>simp add: Close_def\<close>)
qed

lemma exits:
  assumes "subprocess_exited now err ce = Some ce'"
  shows "R ce ce'"
proof -
  obtain c e where ce: "ce = (c, e)" by (cases ce)
  show ?thesis
  proof (cases "c_closed c")
    case False
    obtain h c2 where c2: "close_ptrs (map snd (c_sessions c)) (c\<lparr>c_health := h\<rparr>) = Some c2"
      "ce' = (c2\<lparr>c_sessions := [], c_pending := [], c_closed := True, c_transportErr := Some (ETransport ''subprocess'' err)\<rparr>,
         on_obs (RecordTransportFailure ''subprocess'') e)"
      using assms False by (auto simp: subprocess_exited_def ce Let_def)
    have "R (c, e) (c\<lparr>c_health := h\<rparr>, e)" "R (c2, e) ce'" unfolding c2(2) by (rule books; simp)+
    from transitive [OF this(1) transitive [OF closes_all [OF c2(1)] this(2)]] show ?thesis by (simp add: ce)
  qed (use assms ce in \<open>simp add: subprocess_exited_def\<close>)
qed

lemma cancels: "R ce (snd (CancelAll cn ce))"
proof -
  have "R ce (snd (cancel_each cn ps ce))" for ps
  proof (induction ps arbitrary: ce)
    case (Cons p ps)
    obtain r ce1 where w: "with_session p (Cancel (cfg_of cn (fst ce))) ce = (r, ce1)" by (metis prod.exhaust)
    obtain errs ce2 where i: "cancel_each cn ps ce1 = (errs, ce2)" by (metis prod.exhaust)
    have "R ce (snd (with_session p (Cancel (cfg_of cn (fst ce))) ce))" by (rule sessions_step) (rule Cancel_gentle)
    then have "R ce ce1" using w by simp
    then show ?case using transitive Cons.IH [of ce1] w i by simp
  qed simp
  then show ?thesis by (simp add: CancelAll_def Let_def split: prod.split) (metis snd_conv)
qed

end

section \<open>The instances\<close>

definition frame :: "'w ce \<Rightarrow> 'w options \<times> os" where
  "frame ce = (c_opts (fst ce), he_os (snd ce))"

text \<open>
  The agent is a program of its own: while a request is out, while it is started or stopped and while the
  login runs, it changes whatever files it likes, and no request of the SDK is involved. \<open>A\<close> is the set of
  the files it changes in this way; the options and the working directory of the SDK's process are not
  its to change. Nothing is asked of \<open>A\<close>: every connection that leaves the options and the working
  directory alone is \<open>agent_within\<close> some set.
\<close>

definition same_outside :: "string set \<Rightarrow> 'w ce \<Rightarrow> 'w ce \<Rightarrow> bool" where
  "same_outside A ce ce' \<longleftrightarrow> c_opts (fst ce') = c_opts (fst ce) \<and>
     os_wd (he_os (snd ce')) = os_wd (he_os (snd ce)) \<and>
     (\<forall>p. p \<notin> A \<longrightarrow> os_files (he_os (snd ce')) p = os_files (he_os (snd ce)) p)"

lemma frame_same_outside: "frame ce' = frame ce \<Longrightarrow> same_outside A ce ce'"
  by (simp add: frame_def same_outside_def)

definition agent_within :: "string set \<Rightarrow> 'w conn \<Rightarrow> bool" where
  "agent_within A cn \<longleftrightarrow> requests_respect cn (same_outside A)"

interpretation files_outside: client_preorder cn "\<lambda>ce ce'. agent_within A cn \<longrightarrow> same_outside A ce ce'" for cn A
proof
  show "requests_respect cn (\<lambda>ce ce'. agent_within A cn \<longrightarrow> same_outside A ce ce')"
    by (cases "agent_within A cn") (simp_all add: agent_within_def requests_respect_def)
qed (auto simp: same_outside_def gentle_def)

text \<open>Sessions are only added.\<close>

interpretation session_count: client_preorder cn
    "\<lambda>ce ce'. settling_conn cn \<and> quiet_start cn \<longrightarrow> c_nextPtr (fst ce) \<le> c_nextPtr (fst ce')" for cn
proof
  show "requests_respect cn (\<lambda>ce ce'. settling_conn cn \<and> quiet_start cn \<longrightarrow> c_nextPtr (fst ce) \<le> c_nextPtr (fst ce'))"
  proof (cases "settling_conn cn \<and> quiet_start cn")
    case True
    then show ?thesis
      by (simp add: requests_respect_def settling_conn_def settling_def settles_def quiet_start_def quiet_def)
  next
    case False
    then show ?thesis unfolding requests_respect_def by blast
  qed
qed auto

text \<open>
  A session that is there and was cancelled stays cancelled: only the start and the end of a prompt
  reset the flag.
\<close>

definition still_cancelled :: "nat \<Rightarrow> 'w ce \<Rightarrow> 'w ce \<Rightarrow> bool" where
  "still_cancelled p ce ce' \<longleftrightarrow> (p < c_nextPtr (fst ce) \<and> s_cancelIntended (c_store (fst ce) p) \<longrightarrow>
     p < c_nextPtr (fst ce') \<and> s_cancelIntended (c_store (fst ce') p))"

definition loyal_conn :: "nat \<Rightarrow> 'w conn \<Rightarrow> bool" where
  "loyal_conn p cn \<longleftrightarrow> requests_respect cn (still_cancelled p)"

interpretation cancel_flag: client_preorder cn "\<lambda>ce ce'. loyal_conn p cn \<longrightarrow> still_cancelled p ce ce'" for cn p
proof
  show "requests_respect cn (\<lambda>ce ce'. loyal_conn p cn \<longrightarrow> still_cancelled p ce ce')"
    by (cases "loyal_conn p cn") (simp_all add: loyal_conn_def requests_respect_def)
qed (auto simp: still_cancelled_def gentle_def)

end
