(* ===== verification/Machine.thy ===== *)
theory Machine
  imports GoBase
begin

text \<open>
  Runs of a machine that answers one event at a time. \<open>step e s\<close> is \<open>None\<close> when the event makes the
  program panic, and otherwise the answer with the next state; the trace of a run records for every
  event the state it met and its answer. The locale states what a machine owes to be safe on every
  run: its events never panic in a good state, and each of them keeps the invariant and a preorder
  between states (what only grows, what never changes). The second half alone is \<open>kept_machine\<close>.
\<close>

type_synonym ('e, 's, 'o) machine = "'e \<Rightarrow> 's \<Rightarrow> ('o \<times> 's) option"

fun run_machine :: "('e, 's, 'o) machine \<Rightarrow> 'e list \<Rightarrow> 's \<Rightarrow> (('s \<times> 'e \<times> 'o) list \<times> 's) option" where
  "run_machine step [] s = Some ([], s)"
| "run_machine step (e # es) s =
     (case step e s of
        None \<Rightarrow> None
      | Some (out, s') \<Rightarrow>
          (case run_machine step es s' of
             None \<Rightarrow> None
           | Some (tr, s'') \<Rightarrow> Some ((s, e, out) # tr, s'')))"

lemma run_machine_Cons:
  assumes "run_machine step (e # es) s = Some (tr, s')"
  obtains out s1 tr1 where "step e s = Some (out, s1)" "run_machine step es s1 = Some (tr1, s')" "tr = (s, e, out) # tr1"
  using assms by (auto split: option.splits prod.splits)

lemma run_machine_append:
  "run_machine step (es @ fs) s =
     (case run_machine step es s of
        None \<Rightarrow> None
      | Some (tr, s1) \<Rightarrow> (case run_machine step fs s1 of None \<Rightarrow> None | Some (tr', s2) \<Rightarrow> Some (tr @ tr', s2)))"
  by (induction es arbitrary: s) (auto split: option.splits prod.splits)

lemma run_machine_events: "run_machine step es s = Some (tr, s') \<Longrightarrow> map (\<lambda>(_, e, _). e) tr = es"
  by (induction es arbitrary: s tr) (auto elim!: run_machine_Cons simp del: run_machine.simps(2) simp: run_machine.simps(1))

locale kept_machine =
  fixes step :: "('e, 's, 'o) machine"
    and admissible :: "'e \<Rightarrow> bool"
    and inv :: "'s \<Rightarrow> bool"
    and grows :: "'s \<Rightarrow> 's \<Rightarrow> bool"
  assumes kept: "inv s \<Longrightarrow> admissible e \<Longrightarrow> step e s = Some (out, s') \<Longrightarrow> inv s' \<and> grows s s'"
    and grows_refl: "grows s s"
    and grows_trans: "grows s s1 \<Longrightarrow> grows s1 s2 \<Longrightarrow> grows s s2"
begin

lemma run_kept:
  "inv s \<Longrightarrow> list_all admissible es \<Longrightarrow> run_machine step es s = Some (tr, s') \<Longrightarrow> inv s' \<and> grows s s'"
proof (induction es arbitrary: s tr)
  case Nil
  then show ?case by (simp add: grows_refl)
next
  case (Cons e es)
  from Cons.prems(3) obtain out s1 tr1 where r: "step e s = Some (out, s1)" "run_machine step es s1 = Some (tr1, s')"
    by (rule run_machine_Cons)
  have k: "inv s1" "grows s s1" using kept [OF Cons.prems(1) _ r(1)] Cons.prems(2) by simp_all
  have "inv s' \<and> grows s1 s'" using Cons.IH [OF k(1) _ r(2)] Cons.prems(2) by simp
  then show ?case using k(2) grows_trans by blast
qed

text \<open>Every event of a run meets a good state, between the first and the last one.\<close>

lemma run_visits:
  "inv s \<Longrightarrow> list_all admissible es \<Longrightarrow> run_machine step es s = Some (tr, s') \<Longrightarrow> (s0, e, out) \<in> set tr \<Longrightarrow>
     inv s0 \<and> grows s s0 \<and> admissible e \<and> (\<exists>s1. step e s0 = Some (out, s1) \<and> grows s1 s')"
proof (induction es arbitrary: s tr)
  case (Cons x es)
  from Cons.prems(3) obtain o1 s1 tr1 where r: "step x s = Some (o1, s1)" "run_machine step es s1 = Some (tr1, s')"
    "tr = (s, x, o1) # tr1" by (rule run_machine_Cons)
  have k: "inv s1" "grows s s1" using kept [OF Cons.prems(1) _ r(1)] Cons.prems(2) by simp_all
  have ad: "admissible x" "list_all admissible es" using Cons.prems(2) by simp_all
  show ?case
  proof (cases "(s0, e, out) = (s, x, o1)")
    case True
    then show ?thesis using r(1) ad(1) run_kept [OF k(1) ad(2) r(2)] Cons.prems(1) grows_refl by auto
  next
    case False
    then have "(s0, e, out) \<in> set tr1" using Cons.prems(4) r(3) by auto
    from Cons.IH [OF k(1) ad(2) r(2) this] show ?thesis using k(2) grows_trans by blast
  qed
qed simp

end

locale safe_machine = kept_machine +
  assumes no_panic: "inv s \<Longrightarrow> admissible e \<Longrightarrow> \<exists>out s'. step e s = Some (out, s')"
begin

lemma run_total: "inv s \<Longrightarrow> list_all admissible es \<Longrightarrow> \<exists>tr s'. run_machine step es s = Some (tr, s')"
proof (induction es arbitrary: s)
  case (Cons e es)
  from Cons.prems obtain out s1 where s1: "step e s = Some (out, s1)" using no_panic [of s e] by auto
  then have "inv s1" using Cons.prems kept [of s e out s1] by simp
  with Cons obtain tr s2 where "run_machine step es s1 = Some (tr, s2)" by fastforce
  with s1 show ?case by simp
qed simp

end

end
