(* ===== verification/ClientRun.thy ===== *)
theory ClientRun
  imports Frames Machine
begin

text \<open>
  A client as a whole: the calls of its user, the requests of the agent and the end of the
  subprocess, in any order. The handlers the agent calls are those \<open>Start\<close> installs
  (\<open>client_impl.go\<close>); a prompt is two events, because anything may happen between its request and
  its answer. Reading a file changes nothing and is left out (FsHandlers).
\<close>

section \<open>The handlers of the dispatcher\<close>

definition on_permission :: "'w client \<Rightarrow> 'w permission_handler" where
  "on_permission c = permission_path (hooks_of c) (o_allowedTools (c_opts c)) (o_disallowedTools (c_opts c))
     (o_canUseTool (c_opts c))"

definition on_write :: "'w client \<Rightarrow> 'w fs_handler" where
  "on_write c = fs_path (hooks_of c) (o_strictCwdBoundary (c_opts c)) (o_cwd (c_opts c)) (o_onFsWrite (c_opts c))"

definition on_elicitation :: "'w client \<Rightarrow> ElicitRequest \<Rightarrow> 'w henv \<Rightarrow> (elicit_response \<times> goerr option) \<times> 'w henv" where
  "on_elicitation c = UnstableCreateElicitation (instrumentedElicitation (o_onElicitation (c_opts c)))"

definition agent_asks :: "('w client \<Rightarrow> 'q \<Rightarrow> 'w henv \<Rightarrow> 'r \<times> 'w henv) \<Rightarrow> 'q \<Rightarrow> 'w ce \<Rightarrow> 'r \<times> 'w ce" where
  "agent_asks h q ce = (case h (fst ce) q (snd ce) of (r, e') \<Rightarrow> (r, (fst ce, e')))"

section \<open>Events\<close>

datatype 'w event =
    EvStart "'w ToolDef" rat
  | EvOpen session_call "'w opt list" rat rat "goerr option"
  | EvNotify SessionNotification rat rat
  | EvPermission PermissionRequest
  | EvWrite WriteTextFileRequest
  | EvElicit ElicitRequest
  | EvSubscribe nat "'w UpdateHandlers"
  | EvUnsubscribe nat "64 word"
  | EvReceive nat
  | EvPrompt nat "ContentBlock list"
  | EvAnswer nat "goerr option" rat PromptLabels nat "goerr + PromptResult"
  | EvCancel nat
  | EvCancelAll
  | EvSetModel nat string
  | EvSetMode nat string
  | EvSetConfig nat string string
  | EvSetConfigBool nat string bool
  | EvClose
  | EvExit rat "goerr option"

datatype answer =
    Nothing
  | Returned "goerr option"
  | Opened "goerr + nat"
  | Decided "PermissionResponse \<times> goerr option"
  | Elicited "elicit_response \<times> goerr option"
  | Received "SessionNotification option"
  | Sent "goerr + ContentBlock list \<times> PromptLabels \<times> nat"
  | Turned "goerr + PromptResult"

definition receive_from :: "nat \<Rightarrow> 'w ce \<Rightarrow> answer \<times> 'w ce" where
  "receive_from p ce =
     (case chan_try_recv (s_updates (c_store (fst ce) p)) of
        None \<Rightarrow> (Nothing, ce)
      | Some (r, ch) \<Rightarrow> (Received r, update_session p (\<lambda>s. s\<lparr>s_updates := ch\<rparr>) ce))"

text \<open>
  \<open>Prompt\<close> up to its request, and from the agent's answer on; the labels and the span are its local
  variables.
\<close>

definition send_prompt :: "'w conn \<Rightarrow> nat \<Rightarrow> ContentBlock list \<Rightarrow> 'w ce \<Rightarrow>
    (goerr + ContentBlock list \<times> PromptLabels \<times> nat) \<times> 'w ce" where
  "send_prompt cn p blocks ce =
     (case with_session p (prompt_prepare (cfg_of cn (fst ce)) blocks) ce of
        (Inl err, ce') \<Rightarrow> (Inl err, ce')
      | (Inr (blocks', labels), (c, e)) \<Rightarrow>
          (case on_spans (StartPromptSpan (s_id (c_store c p)) labels) e of
             (i, e') \<Rightarrow> (Inr (blocks', labels, i), (c, e'))))"

definition answer_prompt :: "'w conn \<Rightarrow> nat \<Rightarrow> goerr option \<Rightarrow> rat \<Rightarrow> PromptLabels \<Rightarrow> nat \<Rightarrow> goerr + PromptResult \<Rightarrow>
    'w ce \<Rightarrow> (goerr + PromptResult) \<times> 'w ce" where
  "answer_prompt cn p ctxErr d labels i resp ce =
     (case ce of (c, e) \<Rightarrow>
       (case prompt_finish (cfg_of cn c) ctxErr d labels resp (c_capture c) (c_store c p, e) of
          (r, capture', (s', e')) \<Rightarrow>
            (r, (c\<lparr>c_capture := capture', c_store := (c_store c)(p := s')\<rparr>, finish_span i e'))))"

text \<open>
  One event. A call other than a prompt is one event from beginning to end, so a run has no \<open>Close\<close> or
  crash in the middle of, say, a \<open>NewSession\<close>: what the code does then is outside of the runs, and
  \<open>SessionOps.session_created_after_Close\<close> shows a case of it.
\<close>

fun client_step :: "'w conn \<Rightarrow> ('w event, 'w ce, answer) machine" where
  "client_step cn (EvStart ask d) ce = Some (apfst Returned (Start cn ask d ce))"
| "client_step cn (EvOpen k opts t0 t1 x) ce = map_option (apfst Opened) (open_session cn t0 t1 x k opts ce)"
| "client_step cn (EvNotify n t0 t1) ce = map_option (Pair Nothing) (routeSessionUpdate cn t0 t1 n ce)"
| "client_step cn (EvPermission req) ce = Some (apfst Decided (agent_asks on_permission req ce))"
| "client_step cn (EvWrite req) ce = Some (apfst Returned (agent_asks on_write req ce))"
| "client_step cn (EvElicit req) ce = Some (apfst Elicited (agent_asks on_elicitation req ce))"
| "client_step cn (EvSubscribe p h) ce = Some (Nothing, update_session p (\<lambda>s. snd (Subscribe h s)) ce)"
| "client_step cn (EvUnsubscribe p i) ce = Some (Nothing, update_session p (unsubscribe i) ce)"
| "client_step cn (EvReceive p) ce = Some (receive_from p ce)"
| "client_step cn (EvPrompt p blocks) ce =
     Some (apfst Sent (send_prompt cn p blocks ce))"
| "client_step cn (EvAnswer p ctxErr d labels i resp) ce =
     Some (apfst Turned (answer_prompt cn p ctxErr d labels i resp ce))"
| "client_step cn (EvCancel p) ce = Some (apfst Returned (with_session p (Cancel (cfg_of cn (fst ce))) ce))"
| "client_step cn EvCancelAll ce = Some (apfst Returned (CancelAll cn ce))"
| "client_step cn (EvSetModel p m) ce = Some (apfst Returned (with_session p (SetModel (cfg_of cn (fst ce)) m) ce))"
| "client_step cn (EvSetMode p m) ce = Some (apfst Returned (with_session p (SetMode (cfg_of cn (fst ce)) m) ce))"
| "client_step cn (EvSetConfig p i v) ce = Some (apfst Returned (with_session p (SetConfigOption (cfg_of cn (fst ce)) i v) ce))"
| "client_step cn (EvSetConfigBool p i v) ce =
     Some (apfst Returned (with_session p (SetConfigOptionBool (cfg_of cn (fst ce)) i v) ce))"
| "client_step cn EvClose ce = map_option (apfst Returned) (Close cn ce)"
| "client_step cn (EvExit now err) ce = map_option (Pair Nothing) (subprocess_exited now err ce)"

section \<open>What only grows\<close>

text \<open>Sessions keep their ids and never open again, and neither does the client.\<close>

definition outlives :: "'w client \<Rightarrow> 'w client \<Rightarrow> bool" where
  "outlives c c' \<longleftrightarrow> c_nextPtr c \<le> c_nextPtr c' \<and> (c_closed c \<longrightarrow> c_closed c' \<and> c_nextPtr c' = c_nextPtr c) \<and>
     (\<forall>p < c_nextPtr c. s_id (c_store c' p) = s_id (c_store c p) \<and> (s_closed (c_store c p) \<longrightarrow> s_closed (c_store c' p)))"

lemma outlives_refl: "outlives c c"
  by (simp add: outlives_def)

lemma outlives_trans: "outlives c c1 \<Longrightarrow> outlives c1 c2 \<Longrightarrow> outlives c c2"
  unfolding outlives_def by (metis less_le_trans le_trans)

definition good_step :: "'w client \<Rightarrow> 'w client \<Rightarrow> bool" where
  "good_step c c' \<longleftrightarrow> (orderly c \<longrightarrow> orderly c' \<and> outlives c c')"

lemma settles_good: "settles c c' \<Longrightarrow> good_step c c'"
  by (auto simp: good_step_def settles_def orderly_def outlives_def)

lemma core_good: "core c' = core c \<Longrightarrow> good_step c c'"
  using core_reg_inv [of c' c] by (auto simp: good_step_def orderly_def outlives_def core_def)

lemma with_session_good:
  assumes "\<And>s e. s_updates (fst (snd (f (s, e)))) = s_updates s \<and>
      s_closed (fst (snd (f (s, e)))) = s_closed s \<and> s_id (fst (snd (f (s, e)))) = s_id s"
  shows "good_step (fst ce) (fst (snd (with_session p f ce)))"
  by (rule settles_good [OF with_session_settles]) (rule assms)

lemma prompt_keeps:
  "s_updates (fst (snd (prompt_prepare cfg bs (s, e)))) = s_updates s \<and>
   s_closed (fst (snd (prompt_prepare cfg bs (s, e)))) = s_closed s \<and> s_id (fst (snd (prompt_prepare cfg bs (s, e)))) = s_id s"
  by (auto simp: prompt_prepare_def Let_def split: prod.splits option.splits)

lemma send_good: "good_step (fst ce) (fst (snd (send_prompt cn p bs ce)))"
proof -
  obtain r c e where w: "with_session p (prompt_prepare (cfg_of cn (fst ce)) bs) ce = (r, (c, e))" by (metis prod.exhaust)
  have "fst (snd (send_prompt cn p bs ce)) = c" by (auto simp: send_prompt_def w split: sum.split prod.split)
  then show ?thesis using with_session_good [OF prompt_keeps, of ce p "\<lambda>_. cfg_of cn (fst ce)" "\<lambda>_. bs"] w by simp
qed

lemma finish_keeps:
  "prompt_finish cfg x d l r cap (s, e) = (r', cap', (s', e')) \<Longrightarrow>
     s_updates s' = s_updates s \<and> s_closed s' = s_closed s \<and> s_id s' = s_id s"
  by (auto simp: prompt_finish_def Let_def split: prod.splits sum.splits)

lemma Cancel_keeps:
  "s_updates (fst (snd (Cancel cfg (s, e)))) = s_updates s \<and> s_closed (fst (snd (Cancel cfg (s, e)))) = s_closed s \<and>
   s_id (fst (snd (Cancel cfg (s, e)))) = s_id s"
  by (simp add: Cancel_def split: prod.splits)

lemma setConfig_keeps:
  "s_updates (fst (snd (SetConfigOption cfg i v (s, e)))) = s_updates s \<and>
   s_closed (fst (snd (SetConfigOption cfg i v (s, e)))) = s_closed s \<and>
   s_id (fst (snd (SetConfigOption cfg i v (s, e)))) = s_id s"
  "s_updates (fst (snd (SetConfigOptionBool cfg i b (s, e)))) = s_updates s \<and>
   s_closed (fst (snd (SetConfigOptionBool cfg i b (s, e)))) = s_closed s \<and>
   s_id (fst (snd (SetConfigOptionBool cfg i b (s, e)))) = s_id s"
  by (auto simp: SetConfigOption_def SetConfigOptionBool_def setConfigOption_def split: prod.splits option.splits)

lemma answer_good: "good_step (fst ce) (fst (snd (answer_prompt cn p x d l i r ce)))"
proof (cases ce)
  case (Pair c e)
  obtain r' cap' s' e' where f: "prompt_finish (cfg_of cn c) x d l r (c_capture c) (c_store c p, e) = (r', cap', (s', e'))"
    by (metis prod.exhaust)
  from finish_keeps [OF this] f Pair have "settles c (fst (snd (answer_prompt cn p x d l i r ce)))"
    by (auto simp: settles_def answer_prompt_def reg_inv_def sess_ok_def)
  then show ?thesis using settles_good Pair by fastforce
qed

lemma receive_good: "good_step (fst ce) (fst (snd (receive_from p ce)))"
proof (cases "chan_try_recv (s_updates (c_store (fst ce) p))")
  case None
  then show ?thesis by (simp add: receive_from_def good_step_def outlives_refl)
next
  case (Some x)
  obtain r ch where x: "x = (r, ch)" by (cases x)
  obtain c e where ce: "ce = (c, e)" by (cases ce)
  have "settles c (c\<lparr>c_store := (c_store c)(p := (c_store c p)\<lparr>s_updates := ch\<rparr>)\<rparr>)"
    using ch.recv_inv ch.recv_frame Some x ce by (fastforce simp: settles_def reg_inv_def sess_ok_def)
  then show ?thesis using settles_good Some x ce by (simp add: receive_from_def update_session_def)
qed

lemma cancel_each_good: "settles (fst ce) (fst (snd (cancel_each cn ps ce)))"
proof (induction ps arbitrary: ce)
  case (Cons p ps)
  obtain r ce1 where w: "with_session p (Cancel (cfg_of cn (fst ce))) ce = (r, ce1)" by (metis prod.exhaust)
  obtain errs ce2 where i: "cancel_each cn ps ce1 = (errs, ce2)" by (metis prod.exhaust)
  have "settles (fst ce) (fst ce1)" using with_session_settles [of "Cancel (cfg_of cn (fst ce))", OF Cancel_keeps] w by (metis snd_conv)
  then show ?case using Cons.IH [of ce1] w i settles_trans by fastforce
qed simp

lemma CancelAll_good: "good_step (fst ce) (fst (snd (CancelAll cn ce)))"
  using settles_good [OF cancel_each_good [of ce cn "map snd (c_sessions (fst ce))"]]
  by (auto simp: CancelAll_def Let_def good_step_def outlives_refl split: prod.splits)

lemma close_ptrs_ids: "close_ptrs ps c = Some c' \<Longrightarrow> s_id (c_store c' p) = s_id (c_store c p)"
proof (induction ps arbitrary: c)
  case (Cons q qs)
  then obtain c1 where c1: "close_ptr q c = Some c1" "close_ptrs qs c1 = Some c'" by (auto simp: bind_eq_Some_conv)
  have "s_id (c_store c1 p) = s_id (c_store c p)"
    using c1(1) by (auto simp: close_ptr_def close_session_def split: if_splits)
  with Cons.IH [OF c1(2)] show ?case by simp
qed simp

text \<open>A client in which every registered session has been closed and the table has been emptied.\<close>

lemma emptied_good:
  assumes "close_ptrs ps c0 = Some c1" "reg_inv c0" "c_store c0 = c_store c" "c_nextPtr c0 = c_nextPtr c"
    and "c_store c' = c_store c1" "c_nextPtr c' = c_nextPtr c1" "c_sessions c' = []" "c_closed c'"
    and "c_pending c' = c_pending c1 \<or> c_pending c' = []"
  shows "orderly c' \<and> outlives c c'"
proof -
  obtain c2 where c2: "close_ptrs ps c0 = Some c2" "reg_inv c2" "c_nextPtr c2 = c_nextPtr c0"
    "\<forall>p. s_closed (c_store c2 p) = (s_closed (c_store c0 p) \<or> p \<in> set ps)"
    using close_ptrs_ok [OF assms(2), of ps] by blast
  have "c2 = c1" using c2(1) assms(1) by simp
  have "s_id (c_store c' p) = s_id (c_store c p) \<and> (s_closed (c_store c p) \<longrightarrow> s_closed (c_store c' p))" for p
    using close_ptrs_ids [OF assms(1), of p] c2 \<open>c2 = c1\<close> assms(3,5) by simp
  moreover have "reg_inv c'" using c2(2) assms(5-9) \<open>c2 = c1\<close> by (auto simp: reg_inv_def amap_ok_def)
  ultimately show ?thesis using assms(4,6,7,8) c2(3) \<open>c2 = c1\<close> by (simp add: orderly_def outlives_def)
qed

lemma Close_good:
  assumes "quiet_start cn" "orderly c"
  shows "\<exists>r c' e'. Close cn (c, e) = Some (r, (c', e')) \<and> orderly c' \<and> outlives c c'"
proof (cases "c_closed c")
  case True
  then show ?thesis using assms(2) by (simp add: Close_def outlives_refl)
next
  case False
  have i: "reg_inv (c\<lparr>c_closed := True\<rparr>)" using assms(2) by (simp add: orderly_def reg_inv_def)
  from close_ptrs_ok [OF i, of "map snd (c_sessions c)"] obtain c1
    where c1: "close_ptrs (map snd (c_sessions c)) (c\<lparr>c_closed := True\<rparr>) = Some c1" by blast
  define ids where "ids = map (\<lambda>(_, p). s_id (c_store c p)) (c_sessions c)"
  define x where "x = shutdown cn (c_transport c) (close_subprocess_span (fold fireHookSessionEnd ids (c1\<lparr>c_sessions := []\<rparr>, e)))"
  obtain l where l: "fst (snd x) = c1\<lparr>c_sessions := [], c_subprocessSpan := None, c_listening := l\<rparr>"
    using shutdown_quiet [of cn "c_transport c" "close_subprocess_span (fold fireHookSessionEnd ids (c1\<lparr>c_sessions := []\<rparr>, e))"] assms(1)
    by (auto simp: x_def quiet_start_def)
  have "orderly (fst (snd x)) \<and> outlives c (fst (snd x))"
    by (rule emptied_good [OF c1 i]) (use l close_ptrs_frame [OF c1] in simp_all)
  moreover have "Close cn (c, e) = Some (fst x, (fst (snd x), snd (snd x)))"
    using False by (simp add: Close_def c1 x_def ids_def Let_def)
  ultimately show ?thesis by blast
qed

lemma exit_good:
  assumes "orderly c"
  shows "\<exists>c' e'. subprocess_exited now err (c, e) = Some (c', e') \<and> orderly c' \<and> outlives c c'"
proof (cases "c_closed c")
  case True
  then show ?thesis using assms by (simp add: subprocess_exited_def outlives_refl)
next
  case False
  define m where "m = (case err of Some x \<Rightarrow> err_msg x | None \<Rightarrow> ''opencode acp exited unexpectedly'')"
  define c0 where "c0 = c\<lparr>c_health := markDegraded (recordFailure now ''subprocess'' m (c_health c))\<rparr>"
  have i: "reg_inv c0" using assms by (simp add: c0_def orderly_def reg_inv_def)
  from close_ptrs_ok [OF i, of "map snd (c_sessions c)"] obtain c1
    where c1: "close_ptrs (map snd (c_sessions c)) c0 = Some c1" by blast
  define c' where "c' = c1\<lparr>c_sessions := [], c_pending := [], c_closed := True,
    c_transportErr := Some (ETransport ''subprocess'' err)\<rparr>"
  have "orderly c' \<and> outlives c c'"
    by (rule emptied_good [OF c1 i]) (simp_all add: c0_def c'_def)
  moreover have "subprocess_exited now err (c, e) = Some (c', on_obs (RecordTransportFailure ''subprocess'') e)"
    using False c1 by (simp add: subprocess_exited_def Let_def c0_def m_def c'_def)
  ultimately show ?thesis by blast
qed

lemma closed_call_refused:
  "c_closed c \<Longrightarrow> \<exists>err. open_session cn t0 t1 x k opts (c, e) = Some (Inl err, (c, e)) \<and> ensureStarted c = Some err"
  by (cases k) (auto simp: NewSession_def LoadSession_def ForkSession_def ResumeSession_def begin_call_def ensureStarted_def
      split: option.splits)

lemma open_good:
  assumes "settling_conn cn" "quiet_start cn" "orderly c"
  shows "\<exists>r c' e'. open_session cn t0 t1 x k opts (c, e) = Some (r, (c', e')) \<and> orderly c' \<and> outlives c c'"
proof (cases "c_closed c")
  case True
  then show ?thesis using closed_call_refused [of c cn t0 t1 x k opts e] assms(3) outlives_refl by blast
next
  case False
  from open_session_ok [OF assms(1), of c t0 t1 x k opts e] assms(3) obtain r c' e'
    where o: "open_session cn t0 t1 x k opts (c, e) = Some (r, (c', e'))" "all_or_nothing c r c'"
    by (auto simp: orderly_def)
  have "c_nextPtr c \<le> c_nextPtr c'" using session_count.opens [OF o(1)] assms(1,2) by simp
  then show ?thesis using o False by (auto simp: all_or_nothing_def orderly_def outlives_def)
qed

lemma route_good:
  assumes "orderly c"
  shows "\<exists>c' e'. routeSessionUpdate cn t0 t1 n (c, e) = Some (c', e') \<and> orderly c' \<and> outlives c c'"
proof -
  have i: "reg_inv c" using assms by (simp add: orderly_def)
  from route_ok [OF i, of cn t0 t1 n e] obtain c' e' where r: "routeSessionUpdate cn t0 t1 n (c, e) = Some (c', e')" by blast
  from settles_good [OF route_settles [OF i r]] assms r show ?thesis by (auto simp: good_step_def)
qed

section \<open>The machine\<close>

text \<open>
  The standing assumption: while the connection is asked, it does nothing to the client but have
  notifications routed, and it does not reach into a client that is starting or closing.
\<close>

definition client_ok :: "'w conn \<Rightarrow> 'w ce \<Rightarrow> bool" where
  "client_ok cn ce \<longleftrightarrow> settling_conn cn \<and> quiet_start cn \<and> orderly (fst ce)"

lemma good_some:
  assumes "client_ok cn ce" "good_step (fst ce) (fst ce')"
  shows "client_ok cn ce' \<and> outlives (fst ce) (fst ce')"
  using assms by (simp add: client_ok_def good_step_def)

lemma asks_good: "good_step (fst ce) (fst (snd (agent_asks h q ce)))"
  by (simp add: agent_asks_def good_step_def outlives_refl split: prod.split)

lemma answered_ok:
  assumes "client_ok cn ce" "client_step cn ev ce = Some (apfst F x)" "good_step (fst ce) (fst (snd x))"
  shows "\<exists>out ce'. client_step cn ev ce = Some (out, ce') \<and> client_ok cn ce' \<and> outlives (fst ce) (fst ce')"
  using good_some [OF assms(1,3)] assms(2) by (cases x) auto

lemma client_step_ok:
  assumes ok: "client_ok cn ce"
  shows "\<exists>out ce'. client_step cn ev ce = Some (out, ce') \<and> client_ok cn ce' \<and> outlives (fst ce) (fst ce')"
proof -
  obtain c e where ce: "ce = (c, e)" by (cases ce)
  have o: "orderly c" "settling_conn cn" "quiet_start cn" using ok by (simp_all add: client_ok_def ce)
  have total: ?thesis if "client_step cn ev ce = Some (out, ce')" "good_step (fst ce) (fst ce')" for out ce'
    using good_some [OF ok that(2)] that(1) by blast
  have total2: ?thesis if "client_step cn ev ce = Some (out, (c', e'))" "orderly c'" "outlives c c'" for out c' e'
    using that o by (simp add: client_ok_def ce)
  note ans = answered_ok [OF ok]
  have sub: "good_step (fst ce) (fst (update_session p f ce))"
    if "\<And>s. s_updates (f s) = s_updates s" "\<And>s. s_closed (f s) = s_closed s" "\<And>s. s_id (f s) = s_id s" for p f
    by (rule settles_good [OF update_session_settles]) (simp_all add: that)
  show ?thesis
  proof (cases ev)
    case (EvStart ask d)
    obtain r ce' where s: "Start cn ask d ce = (r, ce')" by (metis prod.exhaust)
    from core_good [OF Start_core [OF o(3) s]] show ?thesis by (rule total [rotated]) (simp add: EvStart s)
  next
    case (EvOpen k opts t0 t1 x)
    from open_good [OF o(2,3,1), of t0 t1 x k opts e] EvOpen show ?thesis using total2 by (fastforce simp: ce)
  next
    case (EvNotify n t0 t1)
    from route_good [OF o(1), of cn t0 t1 n e] EvNotify show ?thesis using total2 by (fastforce simp: ce)
  next
    case (EvPermission req)
    show ?thesis by (rule ans [OF _ asks_good]) (simp add: EvPermission)
  next
    case (EvWrite req)
    show ?thesis by (rule ans [OF _ asks_good]) (simp add: EvWrite)
  next
    case (EvElicit req)
    show ?thesis by (rule ans [OF _ asks_good]) (simp add: EvElicit)
  next
    case (EvSubscribe p h)
    have g: "good_step (fst ce) (fst (update_session p (\<lambda>s. snd (Subscribe h s)) ce))"
      by (rule sub) (simp_all add: Subscribe_def Let_def)
    show ?thesis by (rule total [OF _ g]) (simp add: EvSubscribe)
  next
    case (EvUnsubscribe p i)
    have g: "good_step (fst ce) (fst (update_session p (unsubscribe i) ce))"
      by (rule sub) (simp_all add: unsubscribe_def)
    show ?thesis by (rule total [OF _ g]) (simp add: EvUnsubscribe)
  next
    case (EvReceive p)
    show ?thesis by (rule total [of "fst (receive_from p ce)", OF _ receive_good [of ce p]]) (simp add: EvReceive)
  next
    case (EvPrompt p bs)
    show ?thesis by (rule ans [OF _ send_good]) (simp add: EvPrompt)
  next
    case (EvAnswer p x d l i r)
    show ?thesis by (rule ans [OF _ answer_good]) (simp add: EvAnswer)
  next
    case (EvCancel p)
    show ?thesis by (rule ans [OF _ with_session_good [OF Cancel_keeps]]) (simp add: EvCancel)
  next
    case EvCancelAll
    show ?thesis by (rule ans [OF _ CancelAll_good]) (simp add: EvCancelAll)
  next
    case (EvSetModel p m)
    show ?thesis by (rule ans [OF _ with_session_good [OF set_calls_keep(1)]]) (simp add: EvSetModel)
  next
    case (EvSetMode p m)
    show ?thesis by (rule ans [OF _ with_session_good [OF set_calls_keep(2)]]) (simp add: EvSetMode)
  next
    case (EvSetConfig p i v)
    show ?thesis by (rule ans [OF _ with_session_good [OF setConfig_keeps(1)]]) (simp add: EvSetConfig)
  next
    case (EvSetConfigBool p i v)
    show ?thesis by (rule ans [OF _ with_session_good [OF setConfig_keeps(2)]]) (simp add: EvSetConfigBool)
  next
    case EvClose
    from Close_good [OF o(3,1), of e] EvClose show ?thesis using total2 by (fastforce simp: ce)
  next
    case (EvExit now err)
    from exit_good [OF o(1), of now err e] EvExit show ?thesis using total2 by (fastforce simp: ce)
  qed
qed

interpretation life: safe_machine "client_step cn" "\<lambda>_. True" "client_ok cn" "\<lambda>ce ce'. outlives (fst ce) (fst ce')" for cn
proof
  fix ce :: "'a ce" and ev
  assume ok: "client_ok cn ce"
  from client_step_ok [OF ok, of ev] show "\<exists>out ce'. client_step cn ev ce = Some (out, ce')" by blast
  show "client_ok cn ce' \<and> outlives (fst ce) (fst ce')" if "client_step cn ev ce = Some (out, ce')" for out ce'
    using client_step_ok [OF ok, of ev] that by auto
qed (simp add: outlives_refl, rule outlives_trans)



text \<open>
  C29: A closed client stays closed for the calls begun after it was closed. In any run of whole calls
  and requests that begins once a Close or a crash has returned and emptied the table, in any order, no
  session is created or registered and none is opened again; every Start fails, and every call that
  opens a session is refused with the error the check of calls gives, ErrClientClosed or, after a
  crash, the transport's. The connection is assumed to leave the client alone: starting, spawning,
  initialising and stopping do not touch it (\<open>quiet_start\<close>), and the other requests do to it no more
  than route notifications (\<open>settling_conn\<close>). A call already under way when the client was closed is
  not covered, and for it the claim is false: a NewSession whose answer arrives after the Close still
  registers an open session on the closed client, since nothing checks again
  (\<open>SessionOps.session_created_after_Close\<close>).
\<close>

theorem closed_for_good:
  assumes "settling_conn cn" and "quiet_start cn" and "reg_inv c" and "c_closed c" and "c_sessions c = []"
    and "run_machine (client_step cn) evs (c, e) = Some (tr, (c', e'))"
  shows "c_closed c' \<and> c_sessions c' = [] \<and> c_nextPtr c' = c_nextPtr c \<and>
    (\<forall>p < c_nextPtr c. s_closed (c_store c p) \<longrightarrow> s_closed (c_store c' p)) \<and>
    (\<forall>(s, ev, out) \<in> set tr. case ev of
        EvStart ask d \<Rightarrow> \<exists>err. out = Returned (Some err)
      | EvOpen k opts t0 t1 x \<Rightarrow> \<exists>err. out = Opened (Inl err) \<and> ensureStarted (fst s) = Some err
      | _ \<Rightarrow> True)"
proof -
  have ok: "client_ok cn (c, e)" using assms(1-5) by (simp add: client_ok_def orderly_def)
  have all: "list_all (\<lambda>_. True) evs" by (simp add: list_all_iff)
  note fin = life.run_kept [OF ok all assms(6)]
  have "case ev of
        EvStart ask d \<Rightarrow> \<exists>err. out = Returned (Some err)
      | EvOpen k opts t0 t1 x \<Rightarrow> \<exists>err. out = Opened (Inl err) \<and> ensureStarted (fst s) = Some err
      | _ \<Rightarrow> True" if "(s, ev, out) \<in> set tr" for s ev out
  proof -
    note v = life.run_visits [OF ok all assms(6) that]
    then have cl: "c_closed (fst s)" using assms(4) by (simp add: outlives_def)
    obtain s1 where s1: "client_step cn ev s = Some (out, s1)" using v by blast
    show ?thesis
    proof (cases ev)
      case (EvStart ask d)
      with s1 cl show ?thesis by (auto simp: Start_def split: if_splits)
    next
      case (EvOpen k opts t0 t1 x)
      with s1 closed_call_refused [OF cl, of cn t0 t1 x k opts "snd s"] show ?thesis by auto
    qed simp_all
  qed
  then show ?thesis using fin assms(4) by (auto simp: client_ok_def orderly_def outlives_def)
qed

theorem closed_for_good_witness:
  "\<exists>tr c' e'. run_machine (client_step agent) [EvStart demo_ask 0, EvOpen CallNew [] 0 0 None]
      ((newClient (defaultOptions, demo_heap))\<lparr>c_closed := True\<rparr>, demo_env) = Some (tr, (c', e')) \<and>
      c_closed c' \<and> c_sessions c' = [] \<and> c_nextPtr c' = 0"
proof -
  let ?c = "(newClient (defaultOptions, demo_heap))\<lparr>c_closed := True\<rparr>"
  let ?evs = "[EvStart demo_ask 0, EvOpen CallNew [] 0 0 None]"
  have i: "reg_inv ?c" using reg_inv_new [of "(defaultOptions, demo_heap)"] by (simp add: reg_inv_def)
  then have "client_ok agent (?c, demo_env)" using agent_ok by (simp add: client_ok_def orderly_def newClient_sel)
  then obtain tr c' e' where r: "run_machine (client_step agent) ?evs (?c, demo_env) = Some (tr, (c', e'))"
    using life.run_total [of agent "(?c, demo_env)" ?evs] by (auto simp: list_all_iff)
  have "c_closed c' \<and> c_sessions c' = [] \<and> c_nextPtr c' = c_nextPtr ?c"
    using closed_for_good [OF agent_ok(2,1) i _ _ r] by (simp add: newClient_sel)
  then show ?thesis using r by (auto simp: newClient_def)
qed

section \<open>The files along a run\<close>

text \<open>
  What a run may do to the files, for the set \<open>A\<close> of those the agent changes on its own and the set
  \<open>P\<close> of the paths it asks the SDK to write: outside of \<open>A\<close> nothing changes that is not in \<open>P\<close>, nothing at
  all when the user's callback takes the writes, and with the strict boundary nothing outside of the
  working directory of the client.
\<close>

definition writable :: "'w options \<Rightarrow> string \<Rightarrow> string \<Rightarrow> bool" where
  "writable o1 wd p \<longleftrightarrow> o_onFsWrite o1 = None \<and> (o_strictCwdBoundary o1 \<longrightarrow> inside wd (o_cwd o1) p)"

definition confined :: "string set \<Rightarrow> string set \<Rightarrow> 'w ce \<Rightarrow> 'w ce \<Rightarrow> bool" where
  "confined A P ce ce' \<longleftrightarrow> c_opts (fst ce') = c_opts (fst ce) \<and> os_wd (he_os (snd ce')) = os_wd (he_os (snd ce)) \<and>
     (\<forall>p. p \<notin> A \<and> os_files (he_os (snd ce')) p \<noteq> os_files (he_os (snd ce)) p \<longrightarrow>
        p \<in> P \<and> writable (c_opts (fst ce)) (os_wd (he_os (snd ce))) p)"

lemma confined_trans: "confined A P ce ce1 \<Longrightarrow> confined A P ce1 ce2 \<Longrightarrow> confined A P ce ce2"
  unfolding confined_def by metis

lemma outside_confined: "same_outside A ce ce' \<Longrightarrow> confined A P ce ce'"
  by (auto simp: same_outside_def confined_def)

lemma write_through_wd: "write_through req s = (r, s') \<Longrightarrow> os_wd s' = os_wd s"
  by (auto simp: write_through_def os_write_def Let_def split: if_splits option.splits prod.splits)

lemma instrumentedFsWrite_callback:
  assumes "instrumentedFsWrite d (Some u) = Some f" "f req e = (r, e')"
  shows "he_os e' = he_os e"
  using assms fs_gate_frame [of d req e] fs_commit_os [of "Some u" req]
  by (fastforce simp: instrumentedFsWrite_def split: if_splits prod.splits option.splits)

lemma fs_path_callback:
  assumes "fs_path d strict cwd (Some u) req e = (r, e')"
  shows "he_os e' = he_os e"
proof (cases "instrumentedFsWrite d (Some u)")
  case (Some f)
  with assms instrumentedFsWrite_callback [OF Some, of req e r e'] show ?thesis
    by (auto simp: fs_path_def WriteTextFile_def split: option.splits if_splits)
qed (simp add: instrumentedFsWrite_def split: if_splits)

lemma write_confined:
  assumes "path_is_abs (os_wd (he_os (snd ce)))" "wr_Path req \<in> P" "agent_asks on_write req ce = (r, ce')"
  shows "confined A P ce ce'"
proof -
  obtain c e where ce: "ce = (c, e)" by (cases ce)
  obtain e' where w: "fs_path (hooks_of c) (o_strictCwdBoundary (c_opts c)) (o_cwd (c_opts c)) (o_onFsWrite (c_opts c)) req e
      = (r, e')" and ce': "ce' = (c, e')"
    using assms(3) by (auto simp: agent_asks_def on_write_def ce split: prod.splits)
  show ?thesis
  proof (cases "o_onFsWrite (c_opts c)")
    case None
    obtain x s where wt: "write_through req (he_os e) = (x, s)" by (metis prod.exhaust)
    from fs_path_os [OF w] show ?thesis
    proof
      assume h: "he_os e' = snd (write_through req (he_os e)) \<and>
        (o_strictCwdBoundary (c_opts c) \<longrightarrow> assertWithinCwd (os_wd (he_os e)) (wr_Path req) (o_cwd (c_opts c)) = None)"
      then have "os_files (he_os e') q = os_files (he_os e) q" if "q \<noteq> wr_Path req" for q
        using write_through_frame [OF wt that] wt by simp
      moreover have "os_wd (he_os e') = os_wd (he_os e)" using write_through_wd [OF wt] h wt by simp
      moreover have "o_strictCwdBoundary (c_opts c) \<longrightarrow> inside (os_wd (he_os e)) (o_cwd (c_opts c)) (wr_Path req)"
        using h assertWithinCwd_iff [of "os_wd (he_os e)"] assms(1) by (simp add: ce)
      ultimately show ?thesis using assms(2) None unfolding confined_def writable_def ce ce' fst_conv snd_conv by metis
    qed (simp add: confined_def ce ce')
  next
    case (Some u)
    from fs_path_callback [OF w [unfolded Some]] show ?thesis by (simp add: confined_def ce ce')
  qed
qed

definition writes_within :: "string set \<Rightarrow> 'w event \<Rightarrow> bool" where
  "writes_within P ev = (case ev of EvWrite req \<Rightarrow> wr_Path req \<in> P | _ \<Rightarrow> True)"

definition files_ok :: "string set \<Rightarrow> 'w conn \<Rightarrow> 'w ce \<Rightarrow> bool" where
  "files_ok A cn ce \<longleftrightarrow> agent_within A cn \<and> path_is_abs (os_wd (he_os (snd ce)))"

lemma permission_decide_os: "he_os (snd (permission_decide d cb req e)) = he_os e"
  by (simp add: permission_decide_def Let_def split_def split: option.split)

lemma permission_path_os: "he_os (snd (permission_path d allow deny user req e)) = he_os e"
proof -
  obtain out hr e1 where g: "permission_gate d req e = ((out, hr), e1)" by (metis prod.exhaust)
  show ?thesis
    using permission_gate_frame [OF g] permission_decide_os [of d _ req e1]
    by (simp add: permission_path_def RequestPermission_def instrumentedPermission_def Let_def g)
qed

lemma elicitation_os: "he_os (snd (on_elicitation c req e)) = he_os e"
  by (simp add: on_elicitation_def UnstableCreateElicitation_def instrumentedElicitation_def split_def split: option.split)

definition calm :: "'w event \<Rightarrow> bool" where
  "calm ev = (case ev of EvWrite _ \<Rightarrow> False | EvPrompt _ _ \<Rightarrow> False | EvAnswer _ _ _ _ _ _ \<Rightarrow> False | _ \<Rightarrow> True)"

text \<open>A write and the two halves of a prompt apart, each event respects what its elementary steps respect.\<close>

context client_preorder
begin

lemma asked_by_agent:
  assumes "\<And>c e. he_os (snd (h c q e)) = he_os e"
  shows "R ce (snd (agent_asks h q ce))"
proof -
  obtain c e where ce: "ce = (c, e)" by (cases ce)
  obtain r e' where h: "h c q e = (r, e')" by (metis prod.exhaust)
  have "R (c, e) (c, e')" by (rule books) (use assms [of c e] h in simp_all)
  then show ?thesis by (simp add: agent_asks_def ce h)
qed

lemma received: "R ce (snd (receive_from p ce))"
proof (cases "chan_try_recv (s_updates (c_store (fst ce) p))")
  case (Some x)
  have "R ce (update_session p (\<lambda>s. s\<lparr>s_updates := snd x\<rparr>) ce)" by (rule updates) simp
  then show ?thesis using Some by (cases x) (simp add: receive_from_def)
qed (simp add: receive_from_def)

lemma answered:
  assumes "client_step cn ev ce = Some (out, ce')" "client_step cn ev ce = Some (apfst F x)" "R ce (snd x)"
  shows "R ce ce'"
  using assms by (cases x) simp

lemma step_respects:
  assumes s: "client_step cn ev ce = Some (out, ce')" and calm: "calm ev"
  shows "R ce ce'"
proof -
  note ans = answered [OF s]
  show ?thesis
  proof (cases ev)
    case (EvStart ask d)
    obtain r ce1 where x: "Start cn ask d ce = (r, ce1)" by (metis prod.exhaust)
    show ?thesis by (rule ans [of _ "Start cn ask d ce"]) (simp_all add: EvStart x starts [OF x])
  next
    case (EvOpen k opts t0 t1 x)
    with s obtain y where o: "open_session cn t0 t1 x k opts ce = Some y" by auto
    show ?thesis using opens [of _ _ _ _ _ _ "fst y" "snd y"] s o EvOpen by (cases y) auto
  next
    case (EvNotify n t0 t1)
    with s show ?thesis by (auto dest: routes)
  next
    case (EvPermission req)
    have "R ce (snd (agent_asks on_permission req ce))"
      by (rule asked_by_agent) (simp add: on_permission_def permission_path_os)
    then show ?thesis by (rule ans [rotated]) (simp add: EvPermission)
  next
    case (EvElicit req)
    have "R ce (snd (agent_asks on_elicitation req ce))" by (rule asked_by_agent) (rule elicitation_os)
    then show ?thesis by (rule ans [rotated]) (simp add: EvElicit)
  next
    case (EvSubscribe p h)
    have "R ce (update_session p (\<lambda>s. snd (Subscribe h s)) ce)" by (rule updates) (simp add: Subscribe_def Let_def)
    then show ?thesis using s EvSubscribe by simp
  next
    case (EvUnsubscribe p i)
    have "R ce (update_session p (unsubscribe i) ce)" by (rule updates) (simp add: unsubscribe_def)
    then show ?thesis using s EvUnsubscribe by simp
  next
    case (EvReceive p)
    with s received [of ce p] show ?thesis by simp
  next
    case (EvCancel p)
    show ?thesis by (rule ans [OF _ sessions_step]) (simp add: EvCancel, rule Cancel_gentle)
  next
    case EvCancelAll
    show ?thesis by (rule ans [OF _ cancels]) (simp add: EvCancelAll)
  next
    case (EvSetModel p m)
    show ?thesis by (rule ans [OF _ sessions_step]) (simp add: EvSetModel, rule config_gentle)
  next
    case (EvSetMode p m)
    show ?thesis by (rule ans [OF _ sessions_step]) (simp add: EvSetMode, rule config_gentle)
  next
    case (EvSetConfig p i v)
    show ?thesis by (rule ans [OF _ sessions_step]) (simp add: EvSetConfig, rule config_gentle)
  next
    case (EvSetConfigBool p i v)
    show ?thesis by (rule ans [OF _ sessions_step]) (simp add: EvSetConfigBool, rule config_gentle)
  next
    case EvClose
    with s obtain y where o: "Close cn ce = Some y" by auto
    show ?thesis using closes_client [of _ "fst y" "snd y"] s o EvClose by (cases y) auto
  next
    case (EvExit now err)
    with s show ?thesis by (auto dest: exits)
  qed (use calm in \<open>auto simp: calm_def\<close>)
qed

end

lemma with_session_frame:
  "(\<And>se. he_os (snd (snd (f se))) = he_os (snd se)) \<Longrightarrow> frame (snd (with_session p f ce)) = frame ce"
  by (auto simp: with_session_def frame_def split: prod.splits) (metis snd_conv)

lemma send_frame: "frame (snd (send_prompt cn p bs ce)) = frame ce"
proof -
  obtain r c e where w: "with_session p (prompt_prepare (cfg_of cn (fst ce)) bs) ce = (r, (c, e))" by (metis prod.exhaust)
  have "frame (c, e) = frame ce" using with_session_frame [OF prompt_os(1), of p "\<lambda>_. cfg_of cn (fst ce)" "\<lambda>_. bs" ce] w by simp
  then show ?thesis by (auto simp: send_prompt_def w frame_def dest: on_spans_frame split: sum.split prod.split)
qed

lemma answer_frame: "frame (snd (answer_prompt cn p x d l i r ce)) = frame ce"
  using prompt_os(2) [of "cfg_of cn (fst ce)" x d l r "c_capture (fst ce)" "(c_store (fst ce) p, snd ce)"]
  by (auto simp: answer_prompt_def frame_def split: prod.splits)

lemma step_outside:
  assumes cn: "agent_within A cn" and s: "client_step cn ev ce = Some (out, ce')" and w: "\<forall>req. ev \<noteq> EvWrite req"
  shows "same_outside A ce ce'"
proof (cases "calm ev")
  case True
  from files_outside.step_respects [OF s True] cn show ?thesis by simp
next
  case False
  then consider p bs where "ev = EvPrompt p bs" | p x d l i r where "ev = EvAnswer p x d l i r"
    using w by (cases ev) (auto simp: calm_def)
  then show ?thesis
  proof cases
    case (1 p bs)
    then have "frame ce' = frame ce" using s send_frame [of cn p bs ce] by (cases "send_prompt cn p bs ce") auto
    then show ?thesis by (rule frame_same_outside)
  next
    case (2 p x d l i r)
    then have "frame ce' = frame ce" using s answer_frame [of cn p x d l i r ce] by (cases "answer_prompt cn p x d l i r ce") auto
    then show ?thesis by (rule frame_same_outside)
  qed
qed

interpretation files: kept_machine "client_step cn" "writes_within P" "files_ok A cn" "confined A P" for cn A P
proof
  fix ce ce' :: "'a ce" and ev out
  assume a: "files_ok A cn ce" "writes_within P ev" "client_step cn ev ce = Some (out, ce')"
  have "confined A P ce ce'"
  proof (cases "\<exists>req. ev = EvWrite req")
    case True
    then obtain req where ev: "ev = EvWrite req" by blast
    obtain r ce1 where w: "agent_asks on_write req ce = (r, ce1)" by (metis prod.exhaust)
    from write_confined [OF _ _ w, of P A] a ev w show ?thesis by (simp add: files_ok_def writes_within_def)
  next
    case False
    then have "same_outside A ce ce'" using step_outside [OF _ a(3)] a(1) by (simp add: files_ok_def)
    then show ?thesis by (rule outside_confined)
  qed
  then show "files_ok A cn ce' \<and> confined A P ce ce'" using a(1) by (simp add: files_ok_def confined_def)
next
  fix ce :: "'a ce"
  show "confined A P ce ce" by (simp add: confined_def)
qed (rule confined_trans)

text \<open>
  C10: Along any run of a client the SDK changes files only by the agent's write requests, and only
  where the options allow it. The agent is a process of its own, and the files it, its login and the
  commands it starts change without asking are an arbitrary set \<open>A\<close>, on which nothing is claimed; the
  hypothesis on the connection is only that what happens during a request, a start, a login or a stop
  changes no file outside of \<open>A\<close> and neither the options nor the working directory of the SDK's process.
  Then each file outside of \<open>A\<close> that differs at the end is the path of a write request of the run, the
  user installed no write callback, and with the strict boundary the path is inside the client's
  working directory. So a run without write requests, whatever the user calls and the agent sends,
  changes no file outside of \<open>A\<close>. Write requests are events of the run of their own, also those the
  agent sends while it works on a prompt; the hooks and callbacks of the user act on the rest of the
  world, and what they write by themselves is not counted.
\<close>

theorem writes_confined_along_a_run:
  assumes "agent_within A cn" and "path_is_abs (os_wd (he_os e))"
    and "run_machine (client_step cn) evs (c, e) = Some (tr, (c', e'))"
    and "p \<notin> A" "os_files (he_os e') p \<noteq> os_files (he_os e) p"
  shows "(\<exists>req. EvWrite req \<in> set evs \<and> wr_Path req = p) \<and> o_onFsWrite (c_opts c) = None \<and>
    (o_strictCwdBoundary (c_opts c) \<longrightarrow> inside (os_wd (he_os e)) (o_cwd (c_opts c)) p)"
proof -
  let ?P = "{wr_Path req | req. EvWrite req \<in> set evs}"
  have "files_ok A cn (c, e)" using assms(1,2) by (simp add: files_ok_def)
  moreover have "list_all (writes_within ?P) evs"
    by (auto simp: list_all_iff writes_within_def split: event.splits)
  ultimately have "confined A ?P (c, e) (c', e')" using files.run_kept [OF _ _ assms(3)] by blast
  then show ?thesis using assms(4,5) by (auto simp: confined_def writable_def)
qed

text \<open>An agent that keeps a log of its own.\<close>

definition logging_agent :: "nat conn" where
  "logging_agent = agent\<lparr>cn_discover := (\<lambda>(c, e). (Inr (''/bin/opencode'', ''1.14.20''),
     (c, e\<lparr>he_os := (he_os e)\<lparr>os_files := (os_files (he_os e))(''/log'' \<mapsto> ''started'')\<rparr>\<rparr>)))\<rparr>"

lemma logging_agent_within: "agent_within {''/log''} logging_agent"
  by (simp add: agent_within_def requests_respect_def same_outside_def logging_agent_def agent_def serving_conn_def
      demo_conn_def split_def)

theorem writes_confined_along_a_run_witness:
  "\<exists>tr c' e'. run_machine (client_step logging_agent) [EvWrite (demo_write ''/a'')] (newClient (defaultOptions, demo_heap), demo_env) =
      Some (tr, (c', e')) \<and> os_files (he_os e') ''/a'' \<noteq> os_files (he_os demo_env) ''/a'' \<and>
      o_onFsWrite (c_opts (newClient (defaultOptions, demo_heap))) = None"
proof -
  let ?c = "newClient (defaultOptions, demo_heap) :: nat client" and ?p = "''/a''"
  let ?e = "demo_env\<lparr>he_os := (he_os demo_env)\<lparr>os_files := [?p \<mapsto> ''x'']\<rparr>\<rparr>"
  have abs: "path_is_abs (os_wd (he_os demo_env))" by (simp add: demo_env_wd path_is_abs_def)
  have "path_is_abs ?p" "path_dir ?p = ''/''" by code_simp+
  then have w: "write_through (demo_write ?p) (he_os demo_env) = (None, (he_os demo_env)\<lparr>os_files := [?p \<mapsto> ''x'']\<rparr>)"
    by (simp add: write_through_def os_mkdir_all_def os_write_def Let_def demo_env_fail) (simp add: demo_env_def)
  have o: "o_onFsWrite (c_opts ?c) = None" "\<not> o_strictCwdBoundary (c_opts ?c)" "hooks_of ?c = None"
    by (simp_all add: newClient_def hooks_of_def defaultOptions_def)
  have "on_write ?c (demo_write ?p) demo_env = (None, ?e)"
    by (simp add: on_write_def o fs_path_def instrumentedFsWrite_def WriteTextFile_def on_os_def w)
  then have "agent_asks on_write (demo_write ?p) (?c, demo_env) = (None, (?c, ?e))"
    by (simp only: agent_asks_def fst_conv snd_conv prod.case)
  then have r: "run_machine (client_step logging_agent) [EvWrite (demo_write ?p)] (?c, demo_env) =
      Some ([((?c, demo_env), EvWrite (demo_write ?p), Returned None)], (?c, ?e))"
    by (simp only: run_machine.simps client_step.simps apfst_conv option.case prod.case)
  have d: "os_files (he_os ?e) ?p \<noteq> os_files (he_os demo_env) ?p" by (simp add: demo_env_def)
  have "?p \<notin> {''/log''}" by simp
  then show ?thesis using writes_confined_along_a_run [OF logging_agent_within abs r _ d] r d by blast
qed

end
