(* ===== verification/BudgetRun.thy ===== *)
theory BudgetRun
  imports ClientRun
begin

text \<open>
  A budget at work: what a client with \<open>WithMaxBudgetUSD\<close> does when the agent's usage updates reach
  the cap while a prompt is running (\<open>attachBudgetTracker\<close>, \<open>Session.deliver\<close>, \<open>Session.Prompt\<close>).
\<close>

section \<open>The flag along a run\<close>

definition other_turns :: "nat \<Rightarrow> 'w event \<Rightarrow> bool" where
  "other_turns p ev = (case ev of EvPrompt q _ \<Rightarrow> q \<noteq> p | EvAnswer q _ _ _ _ _ \<Rightarrow> q \<noteq> p | _ \<Rightarrow> True)"

lemma still_cancelled_same:
  "c_nextPtr (fst ce') = c_nextPtr (fst ce) \<Longrightarrow> c_store (fst ce') p = c_store (fst ce) p \<Longrightarrow> still_cancelled p ce ce'"
  by (simp add: still_cancelled_def)

lemma with_session_other:
  "q \<noteq> p \<Longrightarrow> c_store (fst (snd (with_session q f ce))) p = c_store (fst ce) p \<and>
     c_nextPtr (fst (snd (with_session q f ce))) = c_nextPtr (fst ce)"
  by (simp add: with_session_def split: prod.splits)

lemma send_other:
  assumes "q \<noteq> p"
  shows "still_cancelled p ce (snd (send_prompt cn q bs ce))"
proof -
  obtain r c e where w: "with_session q (prompt_prepare (cfg_of cn (fst ce)) bs) ce = (r, (c, e))" by (metis prod.exhaust)
  have "fst (snd (send_prompt cn q bs ce)) = c" by (auto simp: send_prompt_def w split: sum.split prod.split)
  then show ?thesis using with_session_other [OF assms, of "prompt_prepare (cfg_of cn (fst ce)) bs" ce] w
    by (intro still_cancelled_same) simp_all
qed

lemma answer_other:
  assumes "q \<noteq> p"
  shows "still_cancelled p ce (snd (answer_prompt cn q x d l i r ce))"
  using assms by (intro still_cancelled_same) (simp_all add: answer_prompt_def split: prod.splits)

lemma step_keeps_flag:
  assumes l: "loyal_conn p cn" and o: "other_turns p ev" and s: "client_step cn ev ce = Some (out, ce')"
  shows "still_cancelled p ce ce'"
proof (cases "calm ev")
  case True
  from cancel_flag.step_respects [OF s True] l show ?thesis by simp
next
  case False
  then consider req where "ev = EvWrite req" | q bs where "ev = EvPrompt q bs"
    | q x d lb i r where "ev = EvAnswer q x d lb i r"
    by (cases ev) (auto simp: calm_def)
  then show ?thesis
  proof cases
    case (1 req)
    then show ?thesis using s by (intro still_cancelled_same) (auto simp: agent_asks_def split: prod.splits)
  next
    case (2 q bs)
    then show ?thesis using s o send_other [of q p ce cn bs] by (cases "send_prompt cn q bs ce") (auto simp: other_turns_def)
  next
    case (3 q x d lb i r)
    then show ?thesis using s o answer_other [of q p ce cn x d lb i r]
      by (cases "answer_prompt cn q x d lb i r ce") (auto simp: other_turns_def)
  qed
qed

interpretation flag_kept: kept_machine "client_step cn" "other_turns p" "\<lambda>_. loyal_conn p cn" "still_cancelled p" for cn p
proof
  fix ce ce' :: "'a ce" and ev out
  assume a: "loyal_conn p cn" "other_turns p ev" "client_step cn ev ce = Some (out, ce')"
  show "loyal_conn p cn \<and> still_cancelled p ce ce'" using step_keeps_flag [OF a] a(1) by blast
qed (simp_all add: still_cancelled_def)

section \<open>The tracker among the subscribers\<close>

text \<open>A subscriber that leaves the tracker alone; it may cancel the session itself.\<close>

definition leaves_alone :: "('w \<Rightarrow> 's) \<Rightarrow> 'w UpdateHandlers \<Rightarrow> bool" where
  "leaves_alone getb h \<longleftrightarrow> (\<forall>u f w. chosen_handler u h = Some f \<longrightarrow> getb (snd (f w)) = getb w)"

definition budget_subscriber :: "(BudgetTracker, 'w) cell \<Rightarrow> string \<Rightarrow> 'w UpdateHandlers" where
  "budget_subscriber bt sid = no_handlers\<lparr>uh_Usage := Some (budget_handler bt True sid)\<rparr>"

lemma budget_subscriber_chosen:
  "su_UsageUpdate u = Some uu \<Longrightarrow> chosen_handler u (budget_subscriber bt sid) = Some (budget_handler bt True sid uu)"
  by (simp add: chosen_handler_def budget_subscriber_def no_handlers_def case_of_def split: option.splits)

lemma amap_put_split:
  "\<exists>hs hs'. map snd (amap_put i h m) = hs @ h # hs' \<and> set hs \<subseteq> snd ` set m"
proof (induction m)
  case (Cons x m)
  then obtain hs hs' where m: "map snd (amap_put i h m) = hs @ h # hs'" "set hs \<subseteq> snd ` set m" by blast
  show ?case
  proof (cases "fst x = i")
    case True
    then have "map snd (amap_put i h (x # m)) = [] @ h # map snd m" by (cases x) simp
    moreover have "set [] \<subseteq> snd ` set (x # m)" by simp
    ultimately show ?thesis by blast
  next
    case False
    then have "map snd (amap_put i h (x # m)) = (snd x # hs) @ h # hs'" using m(1) by (cases x) simp
    moreover have "set (snd x # hs) \<subseteq> snd ` set (x # m)" using m(2) by auto
    ultimately show ?thesis by blast
  qed
qed (auto intro: exI [of _ "[]"])

lemma on_world_result: "on_world f e = (r, e') \<Longrightarrow> f (he_world e) = (r, he_world e')"
  by (auto simp: on_world_def he_world_def split: prod.splits)

lemma run_subscriber_alone:
  assumes "leaves_alone getb h" and "\<forall>i w. getb (snd (cf_rpcCancel cfg i w)) = getb w"
  shows "getb (he_world (snd (run_subscriber cfg u h se))) = getb (he_world (snd se))"
proof (cases "chosen_handler u h")
  case (Some f)
  obtain b e1 where f: "on_world f (snd se) = (b, e1)" by (metis prod.exhaust)
  have g: "getb (he_world e1) = getb (he_world (snd se))"
    using on_world_result [OF f] assms(1) Some unfolding leaves_alone_def by (metis snd_conv)
  obtain r e2 where c: "on_world (cf_rpcCancel cfg (s_id (fst se))) e1 = (r, e2)" by (metis prod.exhaust)
  have "getb (he_world e2) = getb (he_world e1)" using on_world_result [OF c] assms(2) by (metis snd_conv)
  then show ?thesis using Some f c g by (simp add: run_subscriber_def Cancel_def)
qed (simp add: run_subscriber_def)

lemma dispatch_alone:
  assumes "\<forall>h \<in> set hs. leaves_alone getb h" and "\<forall>i w. getb (snd (cf_rpcCancel cfg i w)) = getb w"
  shows "getb (he_world (snd (dispatchSubscribers cfg hs u se))) = getb (he_world (snd se))"
  using assms(1)
proof (induction hs arbitrary: se)
  case (Cons h hs)
  then show ?case using run_subscriber_alone [OF _ assms(2), of h u se] by (simp add: dispatchSubscribers_def)
qed (simp add: dispatchSubscribers_def)

text \<open>The tracker's own handler asks for the cancellation when its observation reaches a cap.\<close>

lemma run_budget_subscriber:
  assumes "su_UsageUpdate u = Some uu" "getb (putb (budget_observe (ObsUpdate sid uu) (getb (he_world (snd se)))) (he_world (snd se))) =
      budget_observe (ObsUpdate sid uu) (getb (he_world (snd se)))"
    and "CheckBudget (Some (budget_observe (ObsUpdate sid uu) (getb (he_world (snd se))))) \<noteq> None"
  shows "s_cancelIntended (fst (run_subscriber cfg u (budget_subscriber (getb, putb) sid) se))"
proof -
  let ?f = "budget_handler (getb, putb) True sid uu"
  obtain b e1 where f: "on_world ?f (snd se) = (b, e1)" by (metis prod.exhaust)
  have "b" using on_world_result [OF f] assms(2,3) by (auto simp: budget_handler_def Let_def split: if_splits)
  then show ?thesis using f by (simp add: run_subscriber_def budget_subscriber_chosen [OF assms(1)] Cancel_def split: prod.split)
qed

lemma gentle_flag: "gentle se se' \<Longrightarrow> s_cancelIntended (fst se) \<Longrightarrow> s_cancelIntended (fst se')"
  by (simp add: gentle_def)

lemma observe_usage:
  "su_AvailableCommandsUpdate u = None \<Longrightarrow> su_ToolCall u = None \<Longrightarrow> su_ToolCallUpdate u = None \<Longrightarrow>
     fst (observeInLock cfg t0 t1 u se) = fst se \<and> he_world (snd (observeInLock cfg t0 t1 u se)) = he_world (snd se)"
  by (auto simp: observeInLock_def he_world_def split: prod.splits option.splits)

definition usage_note :: "string \<Rightarrow> UsageUpdate \<Rightarrow> SessionNotification" where
  "usage_note sid uu = \<lparr>sn_SessionId = sid, sn_Update = no_update\<lparr>su_UsageUpdate := Some uu\<rparr>, sn_Meta = None\<rparr>"

lemma usage_update:
  "su_UsageUpdate (sn_Update (usage_note sid uu)) = Some uu" "sn_SessionId (usage_note sid uu) = sid"
  "su_AvailableCommandsUpdate (sn_Update (usage_note sid uu)) = None" "su_ToolCall (sn_Update (usage_note sid uu)) = None"
  "su_ToolCallUpdate (sn_Update (usage_note sid uu)) = None"
  by (simp_all add: usage_note_def no_update_def)

text \<open>A delivered usage update that reaches the cap leaves the session cancelled.\<close>

lemma deliver_cancels:
  assumes d: "deliver cfg t0 t1 (usage_note sid uu) (s, e) = Some se'" and o: "\<not> s_closed s"
    and subs: "map snd (s_subscribers s) = hs @ budget_subscriber (getb, putb) sid # hs'"
    and alone: "\<forall>h \<in> set hs. leaves_alone getb h" "\<forall>i w. getb (snd (cf_rpcCancel cfg i w)) = getb w"
    and cell: "\<And>t w. getb (putb t w) = t"
    and cap: "CheckBudget (Some (budget_observe (ObsUpdate sid uu) (getb (he_world e)))) \<noteq> None"
  shows "s_cancelIntended (fst se')"
proof -
  let ?u = "sn_Update (usage_note sid uu)"
  define se1 where "se1 = observeInLock cfg t0 t1 ?u (s, e)"
  define se2 where "se2 = dispatchSubscribers cfg hs ?u se1"
  define se3 where "se3 = run_subscriber cfg ?u (budget_subscriber (getb, putb) sid) se2"
  have s1: "fst se1 = s" "he_world (snd se1) = he_world e" using observe_usage [of ?u cfg t0 t1 "(s, e)"]
    by (simp_all add: se1_def usage_update)
  have "getb (he_world (snd se2)) = getb (he_world e)" using dispatch_alone [OF alone, of ?u se1] s1(2) by (simp add: se2_def)
  then have f3: "s_cancelIntended (fst se3)" unfolding se3_def
    by (intro run_budget_subscriber) (use cap cell in \<open>simp_all add: usage_update\<close>)
  have "deliver_send cfg (usage_note sid uu) (dispatchSubscribers cfg hs' ?u se3) = Some se'"
    using d o s1(1) subs by (simp add: deliver_def deliver_first_def Let_def dispatchSubscribers_def se1_def [symmetric] se3_def se2_def)
  from gentle_flag [OF deliver_send_gentle [OF this] gentle_flag [OF dispatch_gentle f3]] show ?thesis .
qed

text \<open>What \<open>attachBudgetTracker\<close> and the start of a prompt leave of the session.\<close>

lemma attach_subscribes:
  assumes "o_budgetTracker (c_opts c) = Some (getb, putb)" "o_autoCancelOnBudget (c_opts c)"
    and "attachBudgetTracker p (c, e) = (c1, e1)"
  shows "c_store c1 p = snd (Subscribe (budget_subscriber (getb, putb) (s_id (c_store c p))) (c_store c p))"
    "c_sessions c1 = c_sessions c" "c_nextPtr c1 = c_nextPtr c" "reg_inv c1 = reg_inv c"
proof -
  let ?s = "snd (Subscribe (budget_subscriber (getb, putb) (s_id (c_store c p))) (c_store c p))"
  have c1: "c1 = c\<lparr>c_store := (c_store c)(p := ?s)\<rparr>"
    using assms by (simp add: attachBudgetTracker_def update_session_def budget_subscriber_def)
  show "c_store c1 p = ?s" "c_sessions c1 = c_sessions c" "c_nextPtr c1 = c_nextPtr c" by (simp_all add: c1)
  have "s_id ?s = s_id (c_store c p)" "sess_ok ?s = sess_ok (c_store c p)"
    by (simp_all add: Subscribe_def Let_def sess_ok_def)
  then show "reg_inv c1 = reg_inv c" by (auto simp: c1 reg_inv_def)
qed

lemma send_keeps:
  assumes "send_prompt cn p blocks (c, e) = (r, (c', e'))"
  shows "s_id (c_store c' p) = s_id (c_store c p)" "s_closed (c_store c' p) = s_closed (c_store c p)"
    "s_subscribers (c_store c' p) = s_subscribers (c_store c p)" "c_sessions c' = c_sessions c" "c_nextPtr c' = c_nextPtr c"
proof -
  obtain q s1 e1 where q: "prompt_prepare (cfg_of cn c) blocks (c_store c p, e) = (q, (s1, e1))" by (metis prod.exhaust)
  then have "c' = c\<lparr>c_store := (c_store c)(p := s1)\<rparr>"
    using assms by (auto simp: send_prompt_def with_session_def split: sum.splits prod.splits)
  moreover have "s_id s1 = s_id (c_store c p)" "s_closed s1 = s_closed (c_store c p)" "s_subscribers s1 = s_subscribers (c_store c p)"
    using q by (auto simp: prompt_prepare_def Let_def split: if_splits option.splits prod.splits)
  ultimately show "s_id (c_store c' p) = s_id (c_store c p)" "s_closed (c_store c' p) = s_closed (c_store c p)"
    "s_subscribers (c_store c' p) = s_subscribers (c_store c p)" "c_sessions c' = c_sessions c" "c_nextPtr c' = c_nextPtr c"
    by simp_all
qed

section \<open>The property\<close>

text \<open>A session update for a registered session reaches exactly that session.\<close>

lemma route_to:
  assumes "map_of (c_sessions c) (sn_SessionId n) = Some p" "routeSessionUpdate cn t0 t1 n (c, e) = Some (c', e')"
  shows "\<exists>s' e1. he_world e1 = he_world e \<and> deliver (cfg_of cn c) t0 t1 n (c_store c p, e1) = Some (s', e') \<and>
    c' = c\<lparr>c_store := (c_store c)(p := s')\<rparr>"
proof -
  have "he_world (on_obs (RecordSessionUpdate (sessionUpdateVariant (sn_Update n))) e) = he_world e"
    by (simp add: on_obs_def he_world_def split: prod.splits)
  then show ?thesis using assms by (auto simp: routeSessionUpdate_def route_lookup_def deliver_to_def Let_def)
qed

lemma answer_of_cancelled:
  assumes "s_cancelIntended (c_store (fst ce) p)" "answer_prompt cn p x d lb i (Inl err) ce = (r, ce')"
  shows "r = Inl (errorf_w_w (ESent ErrCancelled) err)"
  using assms by (auto simp: answer_prompt_def prompt_finish_def prompt_error_def Let_def split: prod.splits)

text \<open>
  C33: a prompt that crosses the cap of \<open>WithMaxBudgetUSD\<close> ends as cancelled. The tracker is
  attached to an open, registered session beside any subscribers that leave the tracker alone; a
  prompt is sent; the agent reports a usage that makes \<open>CheckBudget\<close> fail; then anything happens to
  the client but another prompt on this session. If the agent then answers the prompt with an error,
  the caller gets that error wrapped with ErrCancelled, and nothing else is added to it: against the
  documentation of \<open>WithMaxBudgetUSD\<close>, not ErrBudgetExceeded.
\<close>

theorem exceeded_budget_cancels_the_prompt:
  assumes "loyal_conn p cn" and "\<forall>i w. getb (snd (cn_cancel cn i w)) = getb w" and "\<forall>t w. getb (putb t w) = t"
    and "o_budgetTracker (c_opts c) = Some (getb, putb)" and "o_autoCancelOnBudget (c_opts c)"
    and "p < c_nextPtr c" and "map_of (c_sessions c) (s_id (c_store c p)) = Some p" and "\<not> s_closed (c_store c p)"
    and "\<forall>(i, h) \<in> set (s_subscribers (c_store c p)). leaves_alone getb h"
    and "attachBudgetTracker p (c, e) = (c1, e1)"
    and "send_prompt cn p blocks (c1, e1) = (Inr (bs, labels, i), (c2, e2))"
    and "CheckBudget (Some (budget_observe (ObsUpdate (s_id (c_store c p)) uu) (getb (he_world e2)))) \<noteq> None"
    and "run_machine (client_step cn)
           (EvNotify (usage_note (s_id (c_store c p)) uu) t0 t1 # evs @ [EvAnswer p x d labels i (Inl err)]) (c2, e2) =
         Some (tr, ce')"
    and "list_all (other_turns p) evs"
  shows "\<exists>err'. snd (snd (last tr)) = Turned (Inl err') \<and> (\<forall>t. errors_is err' t \<longleftrightarrow> t = ErrCancelled \<or> errors_is err t)"
proof -
  let ?sid = "s_id (c_store c p)"
  note att = attach_subscribes [OF assms(4,5,10)] and snt = send_keeps [OF assms(11)]
  have s1: "s_id (c_store c1 p) = ?sid" "s_closed (c_store c1 p) = s_closed (c_store c p)"
    by (simp_all add: att(1) Subscribe_def Let_def)
  obtain hs hs' where subs: "map snd (s_subscribers (c_store c2 p)) = hs @ budget_subscriber (getb, putb) ?sid # hs'"
    "set hs \<subseteq> snd ` set (s_subscribers (c_store c p))"
    using amap_put_split [of "s_subSeq (c_store c p) + 1" "budget_subscriber (getb, putb) ?sid" "s_subscribers (c_store c p)"]
    by (auto simp: snt(3) att(1) Subscribe_def Let_def)
  have alone: "\<forall>h \<in> set hs. leaves_alone getb h" using subs(2) assms(9) by fastforce
  from assms(13) obtain o1 ce3 tr1 where n: "client_step cn (EvNotify (usage_note ?sid uu) t0 t1) (c2, e2) = Some (o1, ce3)"
    and r: "run_machine (client_step cn) (evs @ [EvAnswer p x d labels i (Inl err)]) ce3 = Some (tr1, ce')"
    and tr: "tr = ((c2, e2), EvNotify (usage_note ?sid uu) t0 t1, o1) # tr1" by (rule run_machine_Cons)
  obtain c3 e3 where ce3: "ce3 = (c3, e3)" by (cases ce3)
  have reg: "map_of (c_sessions c2) (sn_SessionId (usage_note ?sid uu)) = Some p"
    using assms(7) by (simp add: snt(4) att(2) usage_update)
  obtain s' e' where d: "he_world e' = he_world e2"
      "deliver (cfg_of cn c2) t0 t1 (usage_note ?sid uu) (c_store c2 p, e') = Some (s', e3)"
      "c3 = c2\<lparr>c_store := (c_store c2)(p := s')\<rparr>"
    using route_to [OF reg, of cn t0 t1 e2 c3 e3] n ce3 by auto
  have "s_cancelIntended (fst (s', e3))"
    by (rule deliver_cancels [OF d(2) _ subs(1) alone]) (use snt(2) s1(2) assms(2,3,8,12) d(1) in \<open>simp_all add: cfg_of_def\<close>)
  then have flag3: "s_cancelIntended (c_store (fst ce3) p)" "p < c_nextPtr (fst ce3)"
    using assms(6) by (simp_all add: ce3 d(3) snt(5) att(3))
  from r obtain tr2 ce4 tr3 where m: "run_machine (client_step cn) evs ce3 = Some (tr2, ce4)"
    "run_machine (client_step cn) [EvAnswer p x d labels i (Inl err)] ce4 = Some (tr3, ce')" "tr1 = tr2 @ tr3"
    by (auto simp: run_machine_append split: option.splits prod.splits simp del: run_machine.simps)
  have "s_cancelIntended (c_store (fst ce4) p)"
    using flag_kept.run_kept [OF assms(1,14) m(1)] flag3 by (simp add: still_cancelled_def)
  moreover obtain res ce5 where a: "answer_prompt cn p x d labels i (Inl err) ce4 = (res, ce5)" by (metis prod.exhaust)
  ultimately have "res = Inl (errorf_w_w (ESent ErrCancelled) err)" by (rule answer_of_cancelled)
  then have "snd (snd (last tr)) = Turned (Inl (errorf_w_w (ESent ErrCancelled) err))"
    using m(2,3) a tr by auto
  then show ?thesis by auto
qed

text \<open>A client whose world is the tracker alone, with one open session and a cap of two dollars.\<close>

definition idle_conn :: "'w conn" where
  "idle_conn = \<lparr>cn_initialize = (\<lambda>_ ce. (Inl (ENew ''x''), ce)), cn_newSession = (\<lambda>_ ce. (Inl (ENew ''x''), ce)),
     cn_loadSession = (\<lambda>_ ce. (Inl (ENew ''x''), ce)), cn_forkSession = (\<lambda>_ ce. (Inl (ENew ''x''), ce)),
     cn_resumeSession = (\<lambda>_ ce. (Inl (ENew ''x''), ce)), cn_setModel = (\<lambda>_ _ ce. (Inl (ENew ''x''), ce)),
     cn_cancel = (\<lambda>_ w. (None, w)), cn_setConfig = (\<lambda>_ _ _ w. (None, w)), cn_factory = (\<lambda>ce. (Inr True, ce)),
     cn_discover = (\<lambda>ce. (Inl (ESent CliErrNotFound), ce)), cn_spawn = (\<lambda>_ _ _ ce. (None, ce)),
     cn_closeTransport = (\<lambda>ce. (None, ce)), cn_newBridge = (\<lambda>_ ce. (None, ce)),
     cn_startBridge = (\<lambda>ce. (Inr (''url'', ''tok''), ce)), cn_closeBridge = (\<lambda>_ ce. (None, ce)),
     cn_runLogin = (\<lambda>_ ce. (None, ce)), cn_marshal = (\<lambda>_. Inr []),
     cn_turnCell = (\<lambda>_. (\<lambda>_. newTurnCounter, \<lambda>_ w. w)), cn_tui = [], cn_prometheus = (\<lambda>r. Inr r)\<rparr>"

lemma idle_conn_ok: "loyal_conn p idle_conn" "settling_conn idle_conn" "quiet_start idle_conn"
  by (simp_all add: loyal_conn_def requests_respect_def still_cancelled_def settling_conn_def settling_def
      quiet_start_def quiet_def idle_conn_def)

definition capped_tracker :: BudgetTracker where
  "capped_tracker = \<lparr>bt_cost = [], bt_maxCostUSD = Some 2, bt_maxTotalTokens = None, bt_completionThreshold = 9 / 10\<rparr>"

definition capped_client :: "BudgetTracker client" where
  "capped_client = (newClient (defaultOptions\<lparr>o_budgetTracker := Some (\<lambda>w. w, \<lambda>t _. t), o_autoCancelOnBudget := True\<rparr>,
     \<lparr>hp_env = \<lambda>_. [], hp_args = \<lambda>_. [], hp_hooks = \<lambda>_. [], hp_next = 0\<rparr>))
     \<lparr>c_store := (\<lambda>_. new_session ''s1'' None None JNull None 4), c_nextPtr := 1, c_sessions := [(''s1'', 0)]\<rparr>"

definition capped_env :: "BudgetTracker henv" where
  "capped_env = \<lparr>he_hooks = \<lparr>hs_fired = {}, hs_world = capped_tracker\<rparr>, he_obs = [], he_spans = [], he_os = he_os demo_env\<rparr>"

definition three_dollars :: UsageUpdate where
  "three_dollars = \<lparr>uu_Cost = Some (3, ''USD''), uu_Size = 0, uu_Used = 0\<rparr>"

lemma capped_client_sel:
  "c_opts capped_client = defaultOptions\<lparr>o_budgetTracker := Some (\<lambda>w. w, \<lambda>t _. t), o_autoCancelOnBudget := True\<rparr>"
  "c_store capped_client = (\<lambda>_. new_session ''s1'' None None JNull None 4)" "c_nextPtr capped_client = 1"
  "c_sessions capped_client = [(''s1'', 0)]" "c_hookRef capped_client = None" "c_closed capped_client = False"
  "c_pending capped_client = []"
  by (simp_all add: capped_client_def newClient_def defaultOptions_def)

lemma over_the_cap:
  "CheckBudget (Some (budget_observe (ObsUpdate ''s1'' three_dollars) capped_tracker)) \<noteq> None"
  by (simp add: capped_tracker_def three_dollars_def CheckBudget_def Status_def exceededLocked_def budget_observe_def
      recordUsageUpdate_def cur_cost_def apply_usage_update_def zero_cost_def Snapshot_def zero_snapshot_def usd_part_def)

lemma attach_keeps:
  assumes "attachBudgetTracker p (c, e) = (c1, e1)"
  shows "e1 = e" "c_opts c1 = c_opts c" "c_hookRef c1 = c_hookRef c" "c_closed c1 = c_closed c"
  using assms by (auto simp: attachBudgetTracker_def update_session_def split: option.splits)

text \<open>A prompt without hooks and without a schema, of text only, is always sent.\<close>

lemma text_is_sent:
  assumes "c_hookRef c = None" "o_outputSchema (c_opts c) = None"
  shows "\<exists>labels i c' e'. send_prompt cn p [text_block t] (c, e) = (Inr ([text_block t], labels, i), (c', e')) \<and>
    he_world e' = he_world e"
  using assms
  by (simp add: send_prompt_def with_session_def prompt_prepare_def checkPromptCapabilities_def text_block_def no_block_def
      Let_def cfg_of_def hooks_of_def on_spans_def he_world_def split: prod.split)

theorem exceeded_budget_cancels_the_prompt_witness:
  "\<exists>c1 e1 bs labels i c2 e2 tr ce' err'. attachBudgetTracker 0 (capped_client, capped_env) = (c1, e1) \<and>
     send_prompt idle_conn 0 [text_block ''hi''] (c1, e1) = (Inr (bs, labels, i), (c2, e2)) \<and>
     run_machine (client_step idle_conn) (EvNotify (usage_note ''s1'' three_dollars) 0 0 #
       [EvSetMode 0 ''plan''] @ [EvAnswer 0 None 1 labels i (Inl (ENew ''stopped''))]) (c2, e2) = Some (tr, ce') \<and>
     snd (snd (last tr)) = Turned (Inl err') \<and> errors_is err' ErrCancelled \<and> \<not> errors_is err' ErrBudgetExceeded"
proof -
  let ?c = capped_client and ?note = "usage_note ''s1'' three_dollars"
  have sid: "s_id (c_store ?c 0) = ''s1''" "s_subscribers (c_store ?c 0) = []" "\<not> s_closed (c_store ?c 0)"
    by (simp_all add: capped_client_sel new_session_def Let_def)
  have o: "o_budgetTracker (c_opts ?c) = Some (\<lambda>w. w, \<lambda>t _. t)" "o_autoCancelOnBudget (c_opts ?c)" by (simp_all add: capped_client_sel)
  obtain c1 e1 where a: "attachBudgetTracker 0 (?c, capped_env) = (c1, e1)" by (metis prod.exhaust)
  note att = attach_subscribes [OF o a] and keep = attach_keeps [OF a]
  have h: "c_hookRef c1 = None" "o_outputSchema (c_opts c1) = None" by (simp_all add: keep capped_client_sel defaultOptions_def)
  from text_is_sent [OF h, of idle_conn 0 "''hi''" e1] obtain labels i c2 e2
    where s: "send_prompt idle_conn 0 [text_block ''hi''] (c1, e1) = (Inr ([text_block ''hi''], labels, i), (c2, e2))"
      and w: "he_world e2 = he_world e1" by blast
  have "reg_inv ?c" by (simp add: reg_inv_def capped_client_sel amap_ok_def sess_ok_new) (simp add: new_session_def Let_def)
  then have "orderly c1" by (simp add: orderly_def att(4) keep capped_client_sel)
  then have "client_ok idle_conn (c2, e2)"
    using send_good [of "(c1, e1)" idle_conn 0 "[text_block ''hi'']"] s idle_conn_ok by (simp add: client_ok_def good_step_def)
  then obtain tr ce' where r: "run_machine (client_step idle_conn) (EvNotify ?note 0 0 #
      [EvSetMode 0 ''plan''] @ [EvAnswer 0 None 1 labels i (Inl (ENew ''stopped''))]) (c2, e2) = Some (tr, ce')"
    using life.run_total [of idle_conn "(c2, e2)"] by (fastforce simp: list_all_iff simp del: run_machine.simps)
  have "he_world e2 = capped_tracker" unfolding w keep(1) by (simp add: capped_env_def he_world_def)
  then have cap: "CheckBudget (Some (budget_observe (ObsUpdate (s_id (c_store ?c 0)) three_dollars) (he_world e2))) \<noteq> None"
    using over_the_cap unfolding sid(1) by simp
  have live: "0 < c_nextPtr ?c" "map_of (c_sessions ?c) (s_id (c_store ?c 0)) = Some 0"
    unfolding sid(1) by (simp_all add: capped_client_sel)
  have cell: "\<forall>i w. snd (cn_cancel idle_conn i w) = w" by (simp add: idle_conn_def)
  have subs: "\<forall>(i, h) \<in> set (s_subscribers (c_store ?c 0)). leaves_alone (\<lambda>w. w) h" by (simp add: sid(2))
  have others: "list_all (other_turns 0) [EvSetMode 0 ''plan'']" by (simp add: other_turns_def)
  obtain err' where "snd (snd (last tr)) = Turned (Inl err')"
      "\<forall>t. errors_is err' t \<longleftrightarrow> t = ErrCancelled \<or> errors_is (ENew ''stopped'') t"
    using exceeded_budget_cancels_the_prompt [where getb = "\<lambda>w. w" and putb = "\<lambda>t _. t",
      OF idle_conn_ok(1) cell _ o live sid(3) subs a s cap r [folded sid(1)] others] by blast
  then have "snd (snd (last tr)) = Turned (Inl err') \<and> errors_is err' ErrCancelled \<and> \<not> errors_is err' ErrBudgetExceeded" by simp
  with a s r show ?thesis by blast
qed

end
