(* ===== verification/PromptRun.thy ===== *)
theory PromptRun
  imports Session Machine
begin

text \<open>
  The prompts of a session with their watchers. \<open>Prompt\<close> starts a goroutine that waits for the
  context to be done or the call to return, and in the first case marks the turn as cancelled and
  sends \<open>session/cancel\<close> (\<open>session_impl.go\<close>). The goroutine is not joined, so its steps interleave with
  everything that happens to the session afterwards. The machine has one event per step of a call or
  a goroutine between two synchronisations; \<open>None\<close> as the result of a step says that it is not possible
  in the state. A call of \<open>Cancel\<close> by the user, a subscriber or the budget is one event. The session's
  lock can be held by others, a delivery above all, which runs the tool hooks under it: a step that
  takes the lock is possible only while it is free. The request of a watcher is two events, because
  the connection may keep it until its five seconds are over.
\<close>

section \<open>State and steps\<close>

datatype watcher = Watching | Woken | Flagged | Notifying | Ended

record live_turn =
  lt_Labels :: PromptLabels
  lt_Span :: nat
  lt_Ctx :: "goerr option"
  lt_Returned :: bool
  lt_Watcher :: watcher

record 'w prompts =
  ps_session :: "'w session"
  ps_env :: "'w henv"
  ps_capture :: "structuredOutputCapture option"
  ps_turns :: "live_turn list"
  ps_locked :: bool

datatype prompt_event =
    PrBegin "ContentBlock list"
  | PrCancel
  | PrCtxDone nat goerr
  | PrWake nat
  | PrFlag nat
  | PrNotify nat
  | PrNotified nat
  | PrLeave nat
  | PrAnswer nat rat "goerr + PromptResult"
  | PrLock
  | PrUnlock

definition begin_turn :: "'w cfg \<Rightarrow> ContentBlock list \<Rightarrow> 'w prompts \<Rightarrow> (goerr + PromptResult) option \<times> 'w prompts" where
  "begin_turn cfg blocks ps =
     (case prompt_prepare cfg blocks (ps_session ps, ps_env ps) of
        (Inl err, (s, e)) \<Rightarrow> (Some (Inl err), ps\<lparr>ps_session := s, ps_env := e\<rparr>)
      | (Inr (blocks', labels), (s, e)) \<Rightarrow>
          (case on_spans (StartPromptSpan (s_id s) labels) e of
             (i, e') \<Rightarrow>
               (None, ps\<lparr>ps_session := s, ps_env := e', ps_turns := ps_turns ps @
                  [\<lparr>lt_Labels = labels, lt_Span = i, lt_Ctx = None, lt_Returned = False, lt_Watcher = Watching\<rparr>]\<rparr>)))"

definition end_turn :: "'w cfg \<Rightarrow> nat \<Rightarrow> rat \<Rightarrow> goerr + PromptResult \<Rightarrow> 'w prompts \<Rightarrow>
    (goerr + PromptResult) option \<times> 'w prompts" where
  "end_turn cfg i d resp ps =
     (let t = ps_turns ps ! i
      in case prompt_finish cfg (lt_Ctx t) d (lt_Labels t) resp (ps_capture ps) (ps_session ps, ps_env ps) of
           (r, capture, (s, e)) \<Rightarrow>
             (Some r, ps\<lparr>ps_session := s, ps_env := finish_span (lt_Span t) e, ps_capture := capture,
                ps_turns := (ps_turns ps)[i := t\<lparr>lt_Returned := True\<rparr>]\<rparr>))"

text \<open>The steps of the watcher of turn \<open>i\<close>; when both channels are ready, it may take either.\<close>

definition watch :: "nat \<Rightarrow> (live_turn \<Rightarrow> bool) \<Rightarrow> watcher \<Rightarrow> 'w prompts \<Rightarrow> ((goerr + PromptResult) option \<times> 'w prompts) option" where
  "watch i ready w ps =
     (if i < length (ps_turns ps) \<and> ready (ps_turns ps ! i)
      then Some (None, ps\<lparr>ps_turns := (ps_turns ps)[i := (ps_turns ps ! i)\<lparr>lt_Watcher := w\<rparr>]\<rparr>) else None)"

text \<open>
  A step happens when it has the lock: the start of a prompt that is not refused before, a \<open>Cancel\<close>, the
  mark of a watcher and the end of a prompt whose request failed wait for it; a successful answer does
  not. \<open>PrLock\<close> and \<open>PrUnlock\<close> are another goroutine's. \<open>PrNotified\<close> is the connection's: it has sent the
  notification, or given up because the five seconds the watcher gives it are over.
\<close>

definition free_lock :: "bool \<Rightarrow> 'w prompts \<Rightarrow> ((goerr + PromptResult) option \<times> 'w prompts) option \<Rightarrow>
    ((goerr + PromptResult) option \<times> 'w prompts) option" where
  "free_lock takes ps r = (if takes \<and> ps_locked ps then None else r)"

fun prompt_step :: "'w cfg \<Rightarrow> (prompt_event, 'w prompts, (goerr + PromptResult) option) machine" where
  "prompt_step cfg (PrBegin blocks) ps =
     free_lock (fst (begin_turn cfg blocks ps) = None) ps (Some (begin_turn cfg blocks ps))"
| "prompt_step cfg PrCancel ps =
     (case Cancel cfg (ps_session ps, ps_env ps) of
        (_, (s, e)) \<Rightarrow> free_lock True ps (Some (None, ps\<lparr>ps_session := s, ps_env := e\<rparr>)))"
| "prompt_step cfg (PrCtxDone i err) ps =
     (if i < length (ps_turns ps) \<and> lt_Ctx (ps_turns ps ! i) = None
      then Some (None, ps\<lparr>ps_turns := (ps_turns ps)[i := (ps_turns ps ! i)\<lparr>lt_Ctx := Some err\<rparr>]\<rparr>) else None)"
| "prompt_step cfg (PrWake i) ps = watch i (\<lambda>t. lt_Watcher t = Watching \<and> lt_Ctx t \<noteq> None) Woken ps"
| "prompt_step cfg (PrLeave i) ps = watch i (\<lambda>t. lt_Watcher t = Watching \<and> lt_Returned t) Ended ps"
| "prompt_step cfg (PrFlag i) ps =
     free_lock True ps
       (watch i (\<lambda>t. lt_Watcher t = Woken) Flagged (ps\<lparr>ps_session := (ps_session ps)\<lparr>s_cancelIntended := True\<rparr>\<rparr>))"
| "prompt_step cfg (PrNotify i) ps =
     watch i (\<lambda>t. lt_Watcher t = Flagged) Notifying
       (ps\<lparr>ps_env := snd (on_world (cf_rpcCancel cfg (s_id (ps_session ps))) (ps_env ps))\<rparr>)"
| "prompt_step cfg (PrNotified i) ps = watch i (\<lambda>t. lt_Watcher t = Notifying) Ended ps"
| "prompt_step cfg (PrAnswer i d resp) ps =
     (if i < length (ps_turns ps) \<and> \<not> lt_Returned (ps_turns ps ! i)
      then free_lock (isl resp) ps (Some (end_turn cfg i d resp ps)) else None)"
| "prompt_step cfg PrLock ps = (if ps_locked ps then None else Some (None, ps\<lparr>ps_locked := True\<rparr>))"
| "prompt_step cfg PrUnlock ps = (if ps_locked ps then Some (None, ps\<lparr>ps_locked := False\<rparr>) else None)"

lemma free_lock_iff [simp]: "free_lock b ps r = Some x \<longleftrightarrow> r = Some x \<and> \<not> (b \<and> ps_locked ps)"
  by (auto simp: free_lock_def)

lemma free_lock_free [simp]: "\<not> ps_locked ps \<Longrightarrow> free_lock b ps r = r" "free_lock False ps r = r"
  by (simp_all add: free_lock_def)

definition no_prompts :: "'w session \<Rightarrow> 'w henv \<Rightarrow> structuredOutputCapture option \<Rightarrow> 'w prompts" where
  "no_prompts s e capture = \<lparr>ps_session = s, ps_env = e, ps_capture = capture, ps_turns = [], ps_locked = False\<rparr>"

section \<open>What every step keeps\<close>

lemma turn_sel [simp]:
  "lt_Ctx (t\<lparr>lt_Ctx := x\<rparr>) = x" "lt_Watcher (t\<lparr>lt_Ctx := x\<rparr>) = lt_Watcher t" "lt_Returned (t\<lparr>lt_Ctx := x\<rparr>) = lt_Returned t"
  "lt_Ctx (t\<lparr>lt_Watcher := w\<rparr>) = lt_Ctx t" "lt_Watcher (t\<lparr>lt_Watcher := w\<rparr>) = w" "lt_Returned (t\<lparr>lt_Watcher := w\<rparr>) = lt_Returned t"
  "lt_Ctx (t\<lparr>lt_Returned := b\<rparr>) = lt_Ctx t" "lt_Watcher (t\<lparr>lt_Returned := b\<rparr>) = lt_Watcher t" "lt_Returned (t\<lparr>lt_Returned := b\<rparr>) = b"
  by (cases t, simp)+

fun stage :: "watcher \<Rightarrow> nat" where
  "stage Watching = 0" | "stage Woken = 1" | "stage Flagged = 2" | "stage Notifying = 3" | "stage Ended = 4"

definition turn_later :: "live_turn \<Rightarrow> live_turn \<Rightarrow> bool" where
  "turn_later t t' \<longleftrightarrow> stage (lt_Watcher t) \<le> stage (lt_Watcher t') \<and> (lt_Ctx t \<noteq> None \<longrightarrow> lt_Ctx t' = lt_Ctx t) \<and>
     (lt_Returned t \<longrightarrow> lt_Returned t')"

lemma turn_later_refl [simp]: "turn_later t t"
  by (simp add: turn_later_def)

lemma turn_later_trans: "turn_later t t1 \<Longrightarrow> turn_later t1 t2 \<Longrightarrow> turn_later t t2"
  by (auto simp: turn_later_def)

definition later :: "'w prompts \<Rightarrow> 'w prompts \<Rightarrow> bool" where
  "later ps ps' \<longleftrightarrow> length (ps_turns ps) \<le> length (ps_turns ps') \<and>
     (\<forall>i < length (ps_turns ps). turn_later (ps_turns ps ! i) (ps_turns ps' ! i))"

text \<open>A watcher acts only when its context is done.\<close>

definition turn_ok :: "live_turn \<Rightarrow> bool" where
  "turn_ok t \<longleftrightarrow> (lt_Watcher t \<in> {Woken, Flagged, Notifying} \<longrightarrow> lt_Ctx t \<noteq> None)"

definition turns_ok :: "'w prompts \<Rightarrow> bool" where
  "turns_ok ps \<longleftrightarrow> list_all turn_ok (ps_turns ps)"

lemma turns_updated:
  assumes "ps_turns ps' = (ps_turns ps)[i := t]" "turns_ok ps" "i < length (ps_turns ps) \<Longrightarrow> turn_ok t \<and> turn_later (ps_turns ps ! i) t"
  shows "turns_ok ps' \<and> later ps ps'"
proof (cases "i < length (ps_turns ps)")
  case True
  then have "turns_ok ps'" using assms(1,2,3) set_update_subset_insert [of "ps_turns ps" i t]
    by (auto simp: turns_ok_def list_all_iff)
  moreover have "turn_later (ps_turns ps ! j) (ps_turns ps' ! j)" if "j < length (ps_turns ps)" for j
    using assms(1,3) True that by (cases "j = i") simp_all
  ultimately show ?thesis using assms(1) by (simp add: later_def)
qed (use assms(1,2) in \<open>simp add: turns_ok_def later_def list_update_beyond\<close>)

lemma turns_same: "ps_turns ps' = ps_turns ps \<Longrightarrow> turns_ok ps \<Longrightarrow> turns_ok ps' \<and> later ps ps'"
  by (simp add: turns_ok_def later_def)

lemma watch_steps:
  assumes "watch i ready w ps = Some (out, ps')"
  shows "out = None \<and> i < length (ps_turns ps) \<and> ready (ps_turns ps ! i) \<and>
    ps' = ps\<lparr>ps_turns := (ps_turns ps)[i := (ps_turns ps ! i)\<lparr>lt_Watcher := w\<rparr>]\<rparr>"
  using assms by (auto simp: watch_def split: if_splits)

lemma begin_turns:
  "\<exists>ts. ps_turns (snd (begin_turn cfg bs ps)) = ps_turns ps @ ts \<and> list_all turn_ok ts"
proof -
  obtain r s e where p: "prompt_prepare cfg bs (ps_session ps, ps_env ps) = (r, (s, e))" by (metis prod.exhaust)
  show ?thesis
  proof (cases r)
    case (Inr y)
    obtain i e' where "on_spans (StartPromptSpan (s_id s) (snd y)) e = (i, e')" by (metis prod.exhaust)
    then show ?thesis using p Inr by (cases y) (simp add: begin_turn_def turn_ok_def)
  qed (simp add: begin_turn_def p)
qed

lemma end_turns: "ps_turns (snd (end_turn cfg i d resp ps)) = (ps_turns ps)[i := (ps_turns ps ! i)\<lparr>lt_Returned := True\<rparr>]"
  by (simp add: end_turn_def Let_def split: prod.split)

lemma nth_turn_ok: "turns_ok ps \<Longrightarrow> i < length (ps_turns ps) \<Longrightarrow> turn_ok (ps_turns ps ! i)"
  by (simp add: turns_ok_def list_all_length)

interpretation turns: kept_machine "prompt_step cfg" "\<lambda>_. True" turns_ok later for cfg
proof
  fix ps ps' :: "'a prompts" and ev out
  assume ok: "turns_ok ps" and s: "prompt_step cfg ev ps = Some (out, ps')"
  show "turns_ok ps' \<and> later ps ps'"
  proof (cases ev)
    case (PrBegin bs)
    then obtain ts where "ps_turns ps' = ps_turns ps @ ts" "list_all turn_ok ts" using s begin_turns [of cfg bs ps] by auto
    then show ?thesis using ok by (simp add: turns_ok_def later_def nth_append)
  next
    case PrCancel
    then show ?thesis using s ok by (intro turns_same) (auto split: prod.splits)
  next
    case (PrCtxDone i err)
    have "ps_turns ps' = (ps_turns ps)[i := (ps_turns ps ! i)\<lparr>lt_Ctx := Some err\<rparr>]" "lt_Ctx (ps_turns ps ! i) = None"
      using s PrCtxDone by (auto split: if_splits)
    then show ?thesis using ok by (intro turns_updated) (auto simp: turn_ok_def turn_later_def)
  next
    case (PrAnswer i d resp)
    then have "ps_turns ps' = (ps_turns ps)[i := (ps_turns ps ! i)\<lparr>lt_Returned := True\<rparr>]"
      using s end_turns [of cfg i d resp ps] by (auto split: if_splits)
    then show ?thesis using ok nth_turn_ok [OF ok, of i] by (intro turns_updated) (auto simp: turn_ok_def turn_later_def)
  next
    case (PrWake i)
    with s have "watch i (\<lambda>t. lt_Watcher t = Watching \<and> lt_Ctx t \<noteq> None) Woken ps = Some (out, ps')" by simp
    from watch_steps [OF this] show ?thesis using ok by (intro turns_updated) (auto simp: turn_ok_def turn_later_def)
  next
    case (PrLeave i)
    with s have "watch i (\<lambda>t. lt_Watcher t = Watching \<and> lt_Returned t) Ended ps = Some (out, ps')" by simp
    from watch_steps [OF this] show ?thesis using ok by (intro turns_updated) (auto simp: turn_ok_def turn_later_def)
  next
    case (PrFlag i)
    with s have "watch i (\<lambda>t. lt_Watcher t = Woken) Flagged (ps\<lparr>ps_session := (ps_session ps)\<lparr>s_cancelIntended := True\<rparr>\<rparr>) = Some (out, ps')" by simp
    from watch_steps [OF this] nth_turn_ok [OF ok, of i] show ?thesis
      using ok by (intro turns_updated) (auto simp: turn_ok_def turn_later_def)
  next
    case (PrNotify i)
    with s have "watch i (\<lambda>t. lt_Watcher t = Flagged) Notifying
       (ps\<lparr>ps_env := snd (on_world (cf_rpcCancel cfg (s_id (ps_session ps))) (ps_env ps))\<rparr>) = Some (out, ps')" by simp
    from watch_steps [OF this] nth_turn_ok [OF ok, of i] show ?thesis
      using ok by (intro turns_updated) (auto simp: turn_ok_def turn_later_def)
  next
    case (PrNotified i)
    with s have "watch i (\<lambda>t. lt_Watcher t = Notifying) Ended ps = Some (out, ps')" by simp
    from watch_steps [OF this] show ?thesis using ok by (intro turns_updated) (auto simp: turn_ok_def turn_later_def)
  qed (use s ok in \<open>auto intro!: turns_same split: if_splits\<close>)
next
  fix ps ps1 ps2 :: "'a prompts"
  assume a: "later ps ps1" "later ps1 ps2"
  have "turn_later (ps_turns ps ! i) (ps_turns ps2 ! i)" if "i < length (ps_turns ps)" for i
    using a that turn_later_trans by (metis later_def order_less_le_trans)
  then show "later ps ps2" using a by (simp add: later_def)
qed (simp add: later_def)

lemma all_admissible [simp]: "list_all (\<lambda>_. True) evs"
  by (simp add: list_all_iff)

lemma no_prompts_ok: "turns_ok (no_prompts s e c)"
  by (simp add: no_prompts_def turns_ok_def)

section \<open>Why a turn ends as cancelled\<close>

definition inside_turn :: "prompt_event \<Rightarrow> bool" where
  "inside_turn ev = (case ev of PrBegin _ \<Rightarrow> False | PrAnswer _ _ _ \<Rightarrow> False | _ \<Rightarrow> True)"

definition marks :: "prompt_event \<Rightarrow> bool" where
  "marks ev = (case ev of PrCancel \<Rightarrow> True | PrFlag _ \<Rightarrow> True | _ \<Rightarrow> False)"

lemma marks_iff: "marks ev \<longleftrightarrow> ev = PrCancel \<or> (\<exists>j. ev = PrFlag j)"
  by (cases ev) (simp_all add: marks_def)

lemma step_flag:
  assumes "prompt_step cfg ev ps = Some (out, ps')" "inside_turn ev"
  shows "s_cancelIntended (ps_session ps') \<longleftrightarrow> s_cancelIntended (ps_session ps) \<or> marks ev"
    "length (ps_turns ps') = length (ps_turns ps)"
  using assms by (cases ev; auto simp: inside_turn_def marks_def watch_def Cancel_def split: if_splits prod.splits)+

lemma run_flag:
  "run_machine (prompt_step cfg) evs ps = Some (tr, ps') \<Longrightarrow> list_all inside_turn evs \<Longrightarrow>
     (s_cancelIntended (ps_session ps') \<longleftrightarrow> s_cancelIntended (ps_session ps) \<or> list_ex marks evs) \<and>
     length (ps_turns ps') = length (ps_turns ps)"
proof (induction evs arbitrary: ps tr)
  case (Cons ev evs)
  from Cons.prems(1) obtain out ps1 tr1 where r: "prompt_step cfg ev ps = Some (out, ps1)"
    "run_machine (prompt_step cfg) evs ps1 = Some (tr1, ps')" by (rule run_machine_Cons)
  show ?case using Cons.IH [OF r(2)] step_flag [OF r(1)] Cons.prems(2) by simp
qed simp

lemma begin_resets:
  assumes "begin_turn cfg blocks ps = (None, ps1)"
  shows "\<not> s_cancelIntended (ps_session ps1)" "length (ps_turns ps1) = length (ps_turns ps) + 1"
  using assms by (auto simp: begin_turn_def prompt_prepare_def Let_def split: sum.splits prod.splits if_splits option.splits)

lemma run_events_visited:
  assumes "run_machine step evs s = Some (tr, s')" "ev \<in> set evs"
  shows "\<exists>s0 out. (s0, ev, out) \<in> set tr"
proof -
  from run_machine_events [OF assms(1)] assms(2) have "ev \<in> set (map (\<lambda>(_, e, _). e) tr)" by simp
  then show ?thesis by auto
qed

text \<open>A watcher that marked a turn had a context that is done.\<close>

lemma marked_by_done:
  assumes "turns_ok ps" "run_machine (prompt_step cfg) evs ps = Some (tr, ps')" "PrFlag j \<in> set evs \<or> PrNotify j \<in> set evs"
  shows "j < length (ps_turns ps') \<and> lt_Ctx (ps_turns ps' ! j) \<noteq> None"
proof -
  from assms(3) obtain ev where ev: "ev \<in> set evs" "ev = PrFlag j \<or> ev = PrNotify j" by blast
  from run_events_visited [OF assms(2) ev(1)] obtain s0 out where v: "(s0, ev, out) \<in> set tr" by blast
  from turns.run_visits [OF assms(1) all_admissible assms(2) v] obtain s1
    where s: "turns_ok s0" "prompt_step cfg ev s0 = Some (out, s1)" "later s1 ps'" by blast
  have "j < length (ps_turns s0) \<and> lt_Watcher (ps_turns s0 ! j) \<in> {Woken, Flagged}" and
    l: "length (ps_turns s1) = length (ps_turns s0)"
    using s(2) ev(2) by (auto simp: watch_def split: if_splits)
  then have "j < length (ps_turns s0)" "lt_Ctx (ps_turns s0 ! j) \<noteq> None"
    using nth_turn_ok [OF s(1), of j] by (auto simp: turn_ok_def)
  moreover have "later s0 s1" using turns.kept [OF s(1) _ s(2)] by simp
  ultimately show ?thesis using s(3) l turn_later_def later_def by (metis order_less_le_trans)
qed

text \<open>
  C30: Why a prompt ends as cancelled. Prompts run on the session one after the other, but watchers of
  earlier prompts may still be at work. When the RPC of a prompt fails, the caller gets ErrCancelled,
  with the RPC's error still in the chain, exactly when since the prompt's start someone called Cancel,
  a watcher marked the session, or the RPC failed with the context's cancellation; otherwise the
  wrapped ACP error. A cancellation from before the prompt does not count, every watcher that marked
  the session has a context that is done, its own prompt's or an earlier one's, and the mark is gone
  afterwards.
\<close>

theorem cancelled_turns_have_a_cause:
  assumes "run_machine (prompt_step cfg) evs0 (no_prompts s e capture) = Some (tr0, ps0)"
    and "prompt_step cfg (PrBegin blocks) ps0 = Some (None, ps1)" and "i = length (ps_turns ps0)"
    and "run_machine (prompt_step cfg) evs ps1 = Some (tr, ps2)" and "list_all inside_turn evs"
    and "prompt_step cfg (PrAnswer i d (Inl raw)) ps2 = Some (Some r, ps3)"
  shows "\<exists>err. r = Inl err \<and> \<not> s_cancelIntended (ps_session ps3) \<and>
    (if PrCancel \<in> set evs \<or> (\<exists>j. PrFlag j \<in> set evs) \<or> errors_is raw CtxCanceled
     then errors_is err ErrCancelled \<and> (\<forall>x. errors_is raw x \<longrightarrow> errors_is err x)
     else err = wrapACPErrCtx (lt_Ctx (ps_turns ps2 ! i)) raw) \<and>
    (\<forall>j. PrFlag j \<in> set evs \<longrightarrow> j \<le> i \<and> lt_Ctx (ps_turns ps2 ! j) \<noteq> None)"
proof -
  have ok0: "turns_ok ps0" using turns.run_kept [OF no_prompts_ok all_admissible assms(1)] by simp
  have ok1: "turns_ok ps1" using turns.kept [OF ok0 _ assms(2)] by simp
  have b: "\<not> s_cancelIntended (ps_session ps1)" "length (ps_turns ps1) = i + 1"
    using begin_resets [of cfg blocks ps0 ps1] assms(2,3) by simp_all
  have fl: "s_cancelIntended (ps_session ps2) \<longleftrightarrow> PrCancel \<in> set evs \<or> (\<exists>j. PrFlag j \<in> set evs)"
    using run_flag [OF assms(4,5)] b(1) by (auto simp: list_ex_iff marks_iff)
  have len: "length (ps_turns ps2) = i + 1" using run_flag [OF assms(4,5)] b(2) by simp
  have dn: "j \<le> i \<and> lt_Ctx (ps_turns ps2 ! j) \<noteq> None" if "PrFlag j \<in> set evs" for j
    using marked_by_done [OF ok1 assms(4)] that len by fastforce
  let ?err = "prompt_error (lt_Ctx (ps_turns ps2 ! i)) (s_cancelIntended (ps_session ps2)) raw"
  have "end_turn cfg i d (Inl raw) ps2 = (Some r, ps3)" using assms(6) by (simp split: if_splits)
  then have r: "r = Inl ?err" "\<not> s_cancelIntended (ps_session ps3)"
    by (auto simp: end_turn_def prompt_finish_def Let_def)
  then show ?thesis using dn fl by (auto simp: prompt_error_def)
qed

section \<open>A watcher's life\<close>

lemma gone_is_silent:
  assumes "turns_ok ps" "i < length (ps_turns ps)" "lt_Watcher (ps_turns ps ! i) \<in> {Notifying, Ended}"
    and "run_machine (prompt_step cfg) evs ps = Some (tr, ps')"
  shows "PrNotify i \<notin> set evs"
proof
  assume "PrNotify i \<in> set evs"
  from run_events_visited [OF assms(4) this] obtain s0 out where v: "(s0, PrNotify i, out) \<in> set tr" by blast
  from turns.run_visits [OF assms(1) all_admissible assms(4) v] have l: "later ps s0" and
    s: "\<exists>s1. prompt_step cfg (PrNotify i) s0 = Some (out, s1)" by blast+
  from s have "lt_Watcher (ps_turns s0 ! i) = Flagged" by (auto simp: watch_def split: if_splits)
  moreover have "stage (lt_Watcher (ps_turns ps ! i)) \<le> stage (lt_Watcher (ps_turns s0 ! i))"
    using l assms(2) by (metis later_def turn_later_def)
  ultimately show False using assms(3) by auto
qed

lemma notified_once:
  "turns_ok ps \<Longrightarrow> run_machine (prompt_step cfg) evs ps = Some (tr, ps') \<Longrightarrow> count_list evs (PrNotify i) \<le> 1"
proof (induction evs arbitrary: ps tr)
  case (Cons ev evs)
  from Cons.prems(2) obtain out ps1 tr1 where r: "prompt_step cfg ev ps = Some (out, ps1)"
    "run_machine (prompt_step cfg) evs ps1 = Some (tr1, ps')" by (rule run_machine_Cons)
  have ok: "turns_ok ps1" using turns.kept [OF Cons.prems(1) _ r(1)] by simp
  show ?case
  proof (cases "ev = PrNotify i")
    case True
    then have "i < length (ps_turns ps1)" "lt_Watcher (ps_turns ps1 ! i) \<in> {Notifying, Ended}"
      using r(1) by (auto simp: watch_def split: if_splits)
    from gone_is_silent [OF ok this r(2)] True show ?thesis by (simp add: count_notin)
  next
    case False
    then show ?thesis using Cons.IH [OF ok r(2)] by simp
  qed
qed simp

text \<open>The watcher's own steps; \<open>PrNotified\<close> is the connection's.\<close>

definition watcher_events :: "nat \<Rightarrow> prompt_event set" where
  "watcher_events i = {PrWake i, PrFlag i, PrNotify i, PrLeave i}"

definition waits_for_lock :: "nat \<Rightarrow> 'w prompts \<Rightarrow> bool" where
  "waits_for_lock i ps \<longleftrightarrow> lt_Watcher (ps_turns ps ! i) = Woken \<and> ps_locked ps"

definition waits_for_request :: "nat \<Rightarrow> 'w prompts \<Rightarrow> bool" where
  "waits_for_request i ps \<longleftrightarrow> lt_Watcher (ps_turns ps ! i) = Notifying"

lemma watcher_moves:
  assumes "i < length (ps_turns ps)" "lt_Returned (ps_turns ps ! i)" "lt_Watcher (ps_turns ps ! i) \<noteq> Ended"
  shows "(\<exists>ev \<in> watcher_events i. prompt_step cfg ev ps \<noteq> None) \<longleftrightarrow> \<not> waits_for_lock i ps \<and> \<not> waits_for_request i ps"
  using assms
  by (cases "lt_Watcher (ps_turns ps ! i)")
    (auto simp: watcher_events_def waits_for_lock_def waits_for_request_def watch_def free_lock_def)

lemma watcher_leaves:
  assumes "i < length (ps_turns ps)" "lt_Returned (ps_turns ps ! i)" "\<not> ps_locked ps"
  shows "\<exists>evs tr ps'. length evs \<le> 3 \<and> set evs \<subseteq> insert (PrNotified i) (watcher_events i) \<and>
    run_machine (prompt_step cfg) evs ps = Some (tr, ps') \<and> lt_Watcher (ps_turns ps' ! i) = Ended"
proof (cases "lt_Watcher (ps_turns ps ! i)")
  case Watching
  show ?thesis by (rule exI [of _ "[PrLeave i]"]) (use assms Watching in \<open>simp add: watch_def watcher_events_def\<close>)
next
  case Woken
  show ?thesis
    by (rule exI [of _ "[PrFlag i, PrNotify i, PrNotified i]"]) (use assms Woken in \<open>simp add: watch_def watcher_events_def\<close>)
next
  case Flagged
  show ?thesis
    by (rule exI [of _ "[PrNotify i, PrNotified i]"]) (use assms Flagged in \<open>simp add: watch_def watcher_events_def\<close>)
next
  case Notifying
  show ?thesis by (rule exI [of _ "[PrNotified i]"]) (use assms Notifying in \<open>simp add: watch_def watcher_events_def\<close>)
next
  case Ended
  show ?thesis by (rule exI [of _ "[]"]) (use Ended in simp)
qed

text \<open>
  C38: A watcher is harmless in number, and it waits for two things only. Along any run of a session the
  watcher of a prompt sends session/cancel at most once, and only when the context of its own prompt is
  done. Once the prompt has returned, a watcher that has not ended has a step of its own to take unless
  it waits for the session's lock, which another goroutine holds, or for its own request to return;
  when the lock is free, at most three steps, the mark, the notification and the return of the request,
  take it to its end. The lock is free again when its holder leaves, and a hook that never returns under
  it (\<open>Locking.reentrant_hook_deadlocks\<close>) keeps the watcher for ever; that the request returns, at the
  latest after the five seconds the watcher gives it, is the connection's part.
\<close>

theorem watchers_notify_once_and_leave:
  assumes "run_machine (prompt_step cfg) evs (no_prompts s e capture) = Some (tr, ps)"
  shows "count_list evs (PrNotify i) \<le> 1 \<and>
    (PrNotify i \<in> set evs \<longrightarrow> lt_Ctx (ps_turns ps ! i) \<noteq> None) \<and>
    (i < length (ps_turns ps) \<and> lt_Returned (ps_turns ps ! i) \<longrightarrow>
      (lt_Watcher (ps_turns ps ! i) \<noteq> Ended \<longrightarrow>
        ((\<exists>ev \<in> watcher_events i. prompt_step cfg ev ps \<noteq> None) \<longleftrightarrow> \<not> waits_for_lock i ps \<and> \<not> waits_for_request i ps)) \<and>
      (\<not> ps_locked ps \<longrightarrow>
        (\<exists>evs' tr' ps'. length evs' \<le> 3 \<and> set evs' \<subseteq> insert (PrNotified i) (watcher_events i) \<and>
          run_machine (prompt_step cfg) evs' ps = Some (tr', ps') \<and> lt_Watcher (ps_turns ps' ! i) = Ended)))"
  using notified_once [OF no_prompts_ok assms] marked_by_done [OF no_prompts_ok assms, of i] watcher_leaves [of i ps cfg]
    watcher_moves [of i ps cfg] by blast

section \<open>Examples\<close>

text \<open>A session with a configuration without hooks, and a text prompt on it.\<close>

definition idle :: "nat prompts" where
  "idle = no_prompts demo_session demo_env None"

definition hi :: "ContentBlock list" where
  "hi = [text_block ''hi'']"

lemma demo_begin:
  "begin_turn demo_cfg hi ps =
     (None, ps\<lparr>ps_session := (ps_session ps)\<lparr>s_cancelIntended := False\<rparr>,
        ps_env := (ps_env ps)\<lparr>he_spans := snd (StartPromptSpan (s_id (ps_session ps)) (prompt_labels demo_cfg (ps_session ps)) (he_spans (ps_env ps)))\<rparr>,
        ps_turns := ps_turns ps @ [\<lparr>lt_Labels = prompt_labels demo_cfg (ps_session ps), lt_Span = length (he_spans (ps_env ps)),
          lt_Ctx = None, lt_Returned = False, lt_Watcher = Watching\<rparr>]\<rparr>)"
  by (simp add: begin_turn_def hi_def prompt_prepare_def checkPromptCapabilities_def text_block_def no_block_def
      prompt_labels_def demo_cfg_def on_spans_def StartPromptSpan_def start_span_def Let_def)

lemma demo_cfg_sel: "cf_hooks demo_cfg = None" "cf_onTurnComplete demo_cfg = None"
  by (simp_all add: demo_cfg_def)

text \<open>What a failed prompt returns, and what a run of events leaves of it.\<close>

definition outcomes :: "(('s \<times> 'e \<times> (goerr + PromptResult) option) list \<times> 's) option \<Rightarrow> goerr list" where
  "outcomes r = (case r of None \<Rightarrow> [] | Some (tr, _) \<Rightarrow>
     concat (map (\<lambda>(_, _, out). case out of Some (Inl err) \<Rightarrow> [err] | _ \<Rightarrow> []) tr))"

definition deadline_run :: "bool \<Rightarrow> prompt_event list" where
  "deadline_run watcher_first =
     [PrBegin hi, PrCtxDone 0 (ESent CtxDeadlineExceeded), PrWake 0] @
     (if watcher_first then [PrFlag 0, PrAnswer 0 1 (Inl (ESent CtxDeadlineExceeded))]
      else [PrAnswer 0 1 (Inl (ESent CtxDeadlineExceeded)), PrFlag 0]) @ [PrNotify 0, PrNotified 0]"

text \<open>
  A prompt whose deadline passes is reported as ErrRequestTimeout or as ErrCancelled, whichever of the
  call and its own watcher is first at the session's lock.
\<close>

theorem deadline_is_a_race:
  "\<exists>e1 e2. outcomes (run_machine (prompt_step demo_cfg) (deadline_run False) idle) = [e1] \<and>
     outcomes (run_machine (prompt_step demo_cfg) (deadline_run True) idle) = [e2] \<and>
     errors_is e1 ErrRequestTimeout \<and> \<not> errors_is e1 ErrCancelled \<and>
     errors_is e2 ErrCancelled \<and> \<not> errors_is e2 ErrRequestTimeout"
  by (simp add: deadline_run_def outcomes_def demo_begin watch_def end_turn_def prompt_finish_def prompt_error_def
      wrapACPErrCtx_def idle_def no_prompts_def Let_def split: prod.split)

definition late_watcher :: "prompt_event list" where
  "late_watcher = [PrBegin hi, PrCtxDone 0 (ESent CtxCanceled), PrWake 0, PrAnswer 0 1 (Inl (ESent CtxCanceled)),
     PrBegin hi, PrFlag 0, PrNotify 0, PrNotified 0, PrAnswer 1 1 (Inl (ENew ''EOF''))]"

text \<open>
  The watcher of a cancelled prompt can act after the next prompt has started: that prompt's turn is
  then the one session/cancel reaches, and its failure is reported as ErrCancelled although nobody
  cancelled it and its own context is not done.
\<close>

theorem late_watcher_cancels_the_next_prompt:
  "\<exists>e1 e2. outcomes (run_machine (prompt_step demo_cfg) late_watcher idle) = [e1, e2] \<and> errors_is e2 ErrCancelled"
  "PrCancel \<notin> set late_watcher" "\<forall>err. PrCtxDone 1 err \<notin> set late_watcher"
  by (simp_all add: late_watcher_def outcomes_def demo_begin watch_def end_turn_def prompt_finish_def prompt_error_def
      idle_def no_prompts_def Let_def split: prod.split)

text \<open>
  And it can miss the cancellation altogether: when the call returns before its watcher has looked at
  the two channels, both are ready and the watcher may leave without telling opencode.
\<close>

theorem cancelled_context_can_go_unnoticed:
  "\<exists>e1 tr ps. run_machine (prompt_step demo_cfg)
      [PrBegin hi, PrCtxDone 0 (ESent CtxCanceled), PrAnswer 0 1 (Inl (ESent CtxCanceled)), PrLeave 0] idle = Some (tr, ps) \<and>
     outcomes (Some (tr, ps)) = [e1] \<and> lt_Watcher (ps_turns ps ! 0) = Ended \<and> he_world (ps_env ps) = he_world (ps_env idle)"
  by (simp add: outcomes_def demo_begin watch_def end_turn_def prompt_finish_def fireTurnComplete_def notify_hook_def
      demo_cfg_sel finish_span_def idle_def no_prompts_def he_world_def Let_def split: prod.split)

section \<open>Witnesses\<close>

theorem cancelled_turns_have_a_cause_witness:
  "\<exists>ps1 tr ps2 err ps3. prompt_step demo_cfg (PrBegin hi) idle = Some (None, ps1) \<and>
     run_machine (prompt_step demo_cfg) [PrCtxDone 0 (ESent CtxCanceled), PrWake 0, PrFlag 0] ps1 = Some (tr, ps2) \<and>
     prompt_step demo_cfg (PrAnswer 0 1 (Inl (ENew ''EOF''))) ps2 = Some (Some (Inl err), ps3) \<and> errors_is err ErrCancelled"
proof -
  let ?evs = "[PrCtxDone 0 (ESent CtxCanceled), PrWake 0, PrFlag 0]"
  obtain ps1 where b: "prompt_step demo_cfg (PrBegin hi) idle = Some (None, ps1)" 
    "ps_turns ps1 = [\<lparr>lt_Labels = prompt_labels demo_cfg demo_session, lt_Span = 0, lt_Ctx = None, lt_Returned = False,
       lt_Watcher = Watching\<rparr>]" "\<not> ps_locked ps1"
    by (simp add: demo_begin idle_def no_prompts_def demo_env_def)
  obtain tr ps2 where r: "run_machine (prompt_step demo_cfg) ?evs ps1 = Some (tr, ps2)" "length (ps_turns ps2) = 1"
    "\<not> lt_Returned (ps_turns ps2 ! 0)" "\<not> ps_locked ps2"
    using b(2,3) by (simp add: watch_def)
  obtain x ps3 where e: "end_turn demo_cfg 0 1 (Inl (ENew ''EOF'')) ps2 = (x, ps3)" by (metis prod.exhaust)
  then obtain y where a: "prompt_step demo_cfg (PrAnswer 0 1 (Inl (ENew ''EOF''))) ps2 = Some (Some y, ps3)"
    using r(2-4) by (auto simp: end_turn_def Let_def split: prod.splits)
  have s: "run_machine (prompt_step demo_cfg) [] (no_prompts demo_session demo_env None) = Some ([], idle)"
    by (simp add: idle_def)
  have i: "0 = length (ps_turns idle)" by (simp add: idle_def no_prompts_def)
  have inside: "list_all inside_turn ?evs" by (simp add: inside_turn_def)
  from cancelled_turns_have_a_cause [OF s b(1) i r(1) inside a] obtain err where "y = Inl err" "errors_is err ErrCancelled"
    by auto
  with a b(1) r(1) show ?thesis by blast
qed

theorem watchers_notify_once_and_leave_witness:
  "\<exists>tr ps. run_machine (prompt_step demo_cfg) late_watcher idle = Some (tr, ps) \<and>
     lt_Ctx (ps_turns ps ! 0) \<noteq> None \<and> count_list late_watcher (PrNotify 0) \<le> 1"
proof -
  obtain tr ps where r: "run_machine (prompt_step demo_cfg) late_watcher (no_prompts demo_session demo_env None) = Some (tr, ps)"
    by (simp add: late_watcher_def demo_begin watch_def end_turn_def prompt_finish_def no_prompts_def Let_def)
  have "PrNotify 0 \<in> set late_watcher" by (simp add: late_watcher_def)
  with watchers_notify_once_and_leave [OF r, of 0] r show ?thesis by (auto simp: idle_def)
qed

end
