(* ===== verification/Content.thy ===== *)
theory Content
  imports Session Base64
begin

text \<open>
  Building the blocks of a prompt (\<open>content.go\<close>): the wrappers, the MIME type guessed from the
  extension, and the helpers that read a file. \<open>mime.TypeByExtension\<close> consults the system's tables and
  is a parameter; a string is a list of bytes.
\<close>

section \<open>Blocks\<close>

definition TextBlock :: "string \<Rightarrow> ContentBlock" where
  "TextBlock t = text_block t"

definition ImageBlock :: "string \<Rightarrow> string \<Rightarrow> ContentBlock" where
  "ImageBlock data mimeType = no_block\<lparr>cb_Image := Some (data, mimeType)\<rparr>"

definition AudioBlock :: "string \<Rightarrow> string \<Rightarrow> ContentBlock" where
  "AudioBlock data mimeType = no_block\<lparr>cb_Audio := Some (data, mimeType)\<rparr>"

definition ResourceLinkBlock :: "string \<Rightarrow> string \<Rightarrow> ContentBlock" where
  "ResourceLinkBlock name uri = no_block\<lparr>cb_ResourceLink := Some (name, uri)\<rparr>"

definition ResourceBlock :: "EmbeddedBlob \<Rightarrow> ContentBlock" where
  "ResourceBlock res = no_block\<lparr>cb_Resource := Some res\<rparr>"

definition Text :: "string \<Rightarrow> ContentBlock list" where
  "Text t = [TextBlock t]"

definition Blocks :: "ContentBlock list \<Rightarrow> ContentBlock list" where
  "Blocks bs = (if bs = [] then [] else bs)"

definition fileURI :: "os \<Rightarrow> string \<Rightarrow> string" where
  "fileURI s path = ''file://'' @ path_abs (os_wd s) path"

definition guessMime :: "(string \<Rightarrow> string) \<Rightarrow> string \<Rightarrow> string \<Rightarrow> string" where
  "guessMime typeByExt path fallback =
     (let ext = to_lower (path_ext path)
      in if ext = [] then fallback
         else let m = typeByExt ext
              in if m \<noteq> []
                 then (case str_cut m '';'' of Some (head, _) \<Rightarrow> trim_space head | None \<Rightarrow> m)
                 else fallback)"

definition octet_stream :: string where "octet_stream = ''application/octet-stream''"

definition read_error :: "string \<Rightarrow> string \<Rightarrow> goerr \<Rightarrow> goerr" where
  "read_error what path err = errorf_s_w (''opencodesdk: read '' @ what @ '' '' @ go_quote path) err"

definition ImageFileInputMime :: "(string \<Rightarrow> string) \<Rightarrow> os \<Rightarrow> string \<Rightarrow> string \<Rightarrow> goerr + ContentBlock" where
  "ImageFileInputMime mt s path mimeType =
     (case os_read path s of
        Inl err \<Rightarrow> Inl (read_error ''image file'' path err)
      | Inr data \<Rightarrow> Inr (ImageBlock (StdEncodeToString data)
          (if mimeType = [] then guessMime mt path octet_stream else mimeType)))"

definition ImageFileInput :: "(string \<Rightarrow> string) \<Rightarrow> os \<Rightarrow> string \<Rightarrow> goerr + ContentBlock" where
  "ImageFileInput mt s path = ImageFileInputMime mt s path []"

definition AudioFileInputMime :: "(string \<Rightarrow> string) \<Rightarrow> os \<Rightarrow> string \<Rightarrow> string \<Rightarrow> goerr + ContentBlock" where
  "AudioFileInputMime mt s path mimeType =
     (case os_read path s of
        Inl err \<Rightarrow> Inl (read_error ''audio file'' path err)
      | Inr data \<Rightarrow> Inr (AudioBlock (StdEncodeToString data)
          (if mimeType = [] then guessMime mt path octet_stream else mimeType)))"

definition AudioFileInput :: "(string \<Rightarrow> string) \<Rightarrow> os \<Rightarrow> string \<Rightarrow> goerr + ContentBlock" where
  "AudioFileInput mt s path = AudioFileInputMime mt s path []"

definition resourceBlobBlock :: "os \<Rightarrow> string \<Rightarrow> string \<Rightarrow> string \<Rightarrow> ContentBlock" where
  "resourceBlobBlock s path mimeType data =
     ResourceBlock \<lparr>eb_Uri = fileURI s path, eb_MimeType = Some mimeType, eb_Blob = StdEncodeToString data\<rparr>"

definition PathInput :: "(string \<Rightarrow> string) \<Rightarrow> os \<Rightarrow> string \<Rightarrow> goerr + ContentBlock" where
  "PathInput mt s path =
     (case os_read path s of
        Inl err \<Rightarrow> Inl (read_error ''file'' path err)
      | Inr data \<Rightarrow>
          (let mimeType = guessMime mt path octet_stream
           in Inr (if has_prefix mimeType ''image/'' then ImageBlock (StdEncodeToString data) mimeType
              else if has_prefix mimeType ''audio/'' then AudioBlock (StdEncodeToString data) mimeType
              else if has_prefix mimeType ''text/'' \<or> mimeType = ''application/json'' \<or> mimeType = ''application/xml''
              then TextBlock data
              else resourceBlobBlock s path mimeType data)))"

definition PDFFileInput :: "os \<Rightarrow> string \<Rightarrow> goerr + ContentBlock" where
  "PDFFileInput s path =
     (case os_read path s of
        Inl err \<Rightarrow> Inl (read_error ''pdf file'' path err)
      | Inr data \<Rightarrow> Inr (resourceBlobBlock s path ''application/pdf'' data))"

section \<open>Nothing of a file is lost\<close>

text \<open>
  The bytes a block carries when it is handed to the connection: a text as it is, the other variants
  decoded. The JSON encoding that follows keeps them, save that it replaces the bytes of a text that are
  not valid UTF-8.
\<close>

definition block_bytes :: "ContentBlock \<Rightarrow> string option" where
  "block_bytes b =
     (case cb_Text b of Some t \<Rightarrow> Some t | None \<Rightarrow>
     (case cb_Image b of Some (d, _) \<Rightarrow> StdDecodeString d | None \<Rightarrow>
     (case cb_Audio b of Some (d, _) \<Rightarrow> StdDecodeString d | None \<Rightarrow>
        Option.bind (cb_Resource b) (\<lambda>r. StdDecodeString (eb_Blob r)))))"

lemmas block_defs = TextBlock_def text_block_def ImageBlock_def AudioBlock_def ResourceBlock_def resourceBlobBlock_def no_block_def

text \<open>
  C39: PathInput turns a file into a block that carries exactly the file's bytes, in the variant its MIME
  type asks for: an image, an audio clip, a text, or an embedded resource for any other type; the prompt
  that holds it passes the capability check exactly when the agent advertises that variant (text always
  passes). The types that become a text are those under text/ and, besides, application/json and
  application/xml; the comment on \<open>PathInput\<close> (\<open>content.go\<close>, line 132) lists only text/ and promises a
  resource block for anything else, so it contradicts the code here. The bytes are those of the block as
  it is handed to the connection: a text block is later encoded as a JSON string, which replaces bytes
  that are not valid UTF-8, so a text file that is not UTF-8 reaches the agent altered.
\<close>

theorem PathInput_faithful:
  assumes "os_read path s = Inr data"
  shows "\<exists>b. PathInput mt s path = Inr b \<and> block_bytes b = Some data \<and>
    (let m = guessMime mt path octet_stream
     in if prefix ''image/'' m then cb_Image b \<noteq> None
        else if prefix ''audio/'' m then cb_Audio b \<noteq> None
        else if prefix ''text/'' m \<or> m \<in> {''application/json'', ''application/xml''} then cb_Text b = Some data
        else cb_Resource b \<noteq> None) \<and>
    (checkPromptCapabilities caps [b] = None \<longleftrightarrow>
       (let m = guessMime mt path octet_stream
        in if prefix ''image/'' m then pc_Image (ac_Prompt caps)
           else if prefix ''audio/'' m then pc_Audio (ac_Prompt caps)
           else prefix ''text/'' m \<or> m \<in> {''application/json'', ''application/xml''} \<or> pc_EmbeddedContext (ac_Prompt caps)))"
  using assms
  by (simp add: PathInput_def Let_def block_bytes_def block_defs StdDecode_Encode checkPromptCapabilities_def go_string)

theorem PathInput_faithful_witness:
  "\<exists>b. PathInput (\<lambda>e. if e = ''.png'' then ''image/png; charset=utf-8'' else []) 
         \<lparr>os_files = [''/a.PNG'' \<mapsto> ''abcd''], os_fail = (\<lambda>_ _. None), os_partial = (\<lambda>_ _. None), os_env = (\<lambda>_. None),
          os_home = None, os_wd = ''/''\<rparr> ''/a.PNG'' = Inr b \<and> block_bytes b = Some ''abcd''"
  using PathInput_faithful [of "''/a.PNG''"
      "\<lparr>os_files = [''/a.PNG'' \<mapsto> ''abcd''], os_fail = (\<lambda>_ _. None), os_partial = (\<lambda>_ _. None), os_env = (\<lambda>_. None),
          os_home = None, os_wd = ''/''\<rparr>" "''abcd''" "\<lambda>e. if e = ''.png'' then ''image/png; charset=utf-8'' else []"]
  by (auto simp: os_read_def)

lemma guessMime_strips_parameters:
  "guessMime (\<lambda>e. if e = ''.png'' then ''image/png; charset=utf-8'' else []) ''/a.PNG'' octet_stream = ''image/png''"
  by code_simp

end
