(* ===== verification/ProcessGroup.thy ===== *)
theory ProcessGroup
  imports SdkErrors
begin

text \<open>
  Killing the subprocess with everything it has started (\<open>process_group_unix.go\<close> and
  \<open>process_group_windows.go\<close>, in \<open>internal/subprocess\<close> for \<open>opencode acp\<close> and in \<open>internal/serve\<close> for
  \<open>opencode serve\<close>; the two copies differ in one word of their messages, which is the parameter
  \<open>name\<close>). The system calls are parameters; the result lists the signals that were sent, in order.
\<close>

section \<open>System calls\<close>

text \<open>\<open>ESRCH\<close>: there is no such process or group; \<open>ErrProcessDone\<close>: the process has been waited for.\<close>

datatype sys_error = ESRCH | SysError goerr

datatype kill_error = ErrProcessDone | KillError goerr

record kill_env =
  ke_Getpgid :: "nat \<Rightarrow> sys_error + int"
  ke_KillGroup :: "int \<Rightarrow> sys_error option"
  ke_Kill :: "kill_error option"

datatype signal = SigGroup int | SigProcess nat

section \<open>The two variants\<close>

definition pid_text :: "string \<Rightarrow> string \<Rightarrow> string \<Rightarrow> int \<Rightarrow> string" where
  "pid_text what name kind n = what @ '' '' @ name @ kind @ itoa n @ '')''"

definition kill_process :: "string \<Rightarrow> kill_env \<Rightarrow> nat \<Rightarrow> goerr option \<times> signal list" where
  "kill_process name ke pid =
     (case ke_Kill ke of
        Some (KillError err) \<Rightarrow> (Some (errorf_s_w (pid_text ''kill'' name '' process (pid '' (int pid)) err), [SigProcess pid])
      | _ \<Rightarrow> (None, [SigProcess pid]))"

text \<open>\<open>proc\<close> is \<open>cmd.Process\<close>, as its pid; \<open>None\<close> also stands for a nil command.\<close>

definition killProcessTree :: "string \<Rightarrow> kill_env \<Rightarrow> nat option \<Rightarrow> goerr option \<times> signal list" where
  "killProcessTree name ke proc =
     (case proc of
        None \<Rightarrow> (None, [])
      | Some pid \<Rightarrow>
          (case ke_Getpgid ke pid of
             Inr pgid \<Rightarrow>
               (case ke_KillGroup ke pgid of
                  None \<Rightarrow> (None, [SigGroup pgid])
                | Some (SysError err) \<Rightarrow>
                    (Some (errorf_s_w (pid_text ''kill'' name '' process group (pgid '' pgid) err), [SigGroup pgid])
                | Some ESRCH \<Rightarrow>
                    (case kill_process name ke pid of (r, sigs) \<Rightarrow> (r, SigGroup pgid # sigs)))
           | Inl (SysError err) \<Rightarrow>
               (Some (errorf_s_w (pid_text ''get'' name '' process group (pid '' (int pid)) err), [])
           | Inl ESRCH \<Rightarrow> kill_process name ke pid))"

definition killProcessTree_windows :: "string \<Rightarrow> kill_env \<Rightarrow> nat option \<Rightarrow> goerr option \<times> signal list" where
  "killProcessTree_windows name ke proc =
     (case proc of None \<Rightarrow> (None, []) | Some pid \<Rightarrow> kill_process name ke pid)"

section \<open>What a kill without an error means\<close>

text \<open>The kernel's answers that say that a target is dead: the signal was taken, or there is nothing to signal.\<close>

definition taken :: "kill_env \<Rightarrow> signal \<Rightarrow> bool" where
  "taken ke sig = (case sig of
      SigGroup g \<Rightarrow> ke_KillGroup ke g = None
    | SigProcess p \<Rightarrow> ke_Kill ke \<in> {None, Some ErrProcessDone})"

text \<open>
  A kill that reports no error ended in a target that is dead: the last signal it sent was taken.
  One that reports an error was refused for another reason than that the target is gone. The process
  itself is signalled only when its group does not exist, and at most once.
\<close>

theorem killProcessTree_outcome:
  assumes "killProcessTree name ke (Some pid) = (r, sigs)"
  shows "(r = None \<longrightarrow> sigs \<noteq> [] \<and> taken ke (last sigs)) \<and>
    (r \<noteq> None \<longrightarrow> (\<forall>sig \<in> set sigs. \<not> taken ke sig)) \<and>
    (SigProcess pid \<in> set sigs \<longleftrightarrow>
       (case ke_Getpgid ke pid of Inl e \<Rightarrow> e = ESRCH | Inr g \<Rightarrow> ke_KillGroup ke g = Some ESRCH)) \<and>
    length sigs \<le> 2"
  using assms
  by (auto simp: killProcessTree_def kill_process_def taken_def
      split: sum.splits option.splits sys_error.splits kill_error.splits)

text \<open>On Windows only the process is killed, whatever it has started.\<close>

lemma windows_leaves_children: "SigGroup g \<notin> set (snd (killProcessTree_windows name ke proc))"
  by (auto simp: killProcessTree_windows_def kill_process_def split: option.splits kill_error.splits)

end
