(* ===== verification/ProcessOutput.thy ===== *)
theory ProcessOutput
  imports GoBase
begin

text \<open>
  Reading the output of a subprocess line by line (\<open>drainStderr\<close> in \<open>internal/subprocess/acp.go\<close>, \<open>drain\<close>
  in \<open>internal/serve/serve.go\<close>): a \<open>bufio.Scanner\<close> over the pipe with a buffer of at most one MiB. The
  reads of the pipe are a list of the pieces the kernel hands over; the end of the list is the end of
  the output, or an error, which the scanner treats alike. A read never takes more than fits into the
  buffer; the rest of the piece is left for the next one. The result of a scan is the list of lines and
  whether it was given up because a line did not fit.
\<close>

section \<open>The scanner\<close>

abbreviation newline :: char where "newline \<equiv> CHR 0x0A"

definition dropCR :: "string \<Rightarrow> string" where
  "dropCR l = (if l \<noteq> [] \<and> last l = CHR 0x0D then butlast l else l)"

text \<open>\<open>ScanLines\<close> on a buffer that is not the last one: a complete line and what follows it.\<close>

definition next_line :: "string \<Rightarrow> (string \<times> string) option" where
  "next_line buf =
     (if newline \<in> set buf
      then Some (dropCR (takeWhile (\<lambda>c. c \<noteq> newline) buf), tl (dropWhile (\<lambda>c. c \<noteq> newline) buf))
      else None)"

lemma next_line_shorter: "next_line buf = Some (l, rest) \<Longrightarrow> length rest < length buf"
proof -
  assume a: "next_line buf = Some (l, rest)"
  then have d: "dropWhile (\<lambda>c. c \<noteq> newline) buf \<noteq> []" "rest = tl (dropWhile (\<lambda>c. c \<noteq> newline) buf)"
    by (auto simp: next_line_def split: if_splits)
  moreover have "length (dropWhile (\<lambda>c. c \<noteq> newline) buf) \<le> length buf" by (rule length_dropWhile_le)
  ultimately show ?thesis by (cases "dropWhile (\<lambda>c. c \<noteq> newline) buf") simp_all
qed

function scan_reads :: "nat \<Rightarrow> string \<Rightarrow> string list \<Rightarrow> string list \<times> bool" where
  "scan_reads cap buf reads =
     (case next_line buf of
        Some (l, rest) \<Rightarrow> (case scan_reads cap rest reads of (ls, tooLong) \<Rightarrow> (l # ls, tooLong))
      | None \<Rightarrow>
          if cap \<le> length buf then ([], True)
          else (case reads of
                  [] \<Rightarrow> (if buf = [] then [] else [dropCR buf], False)
                | c # cs \<Rightarrow>
                    (let room = cap - length buf
                     in if length c \<le> room then scan_reads cap (buf @ c) cs
                        else scan_reads cap (buf @ take room c) (drop room c # cs))))"
  by pat_completeness auto
termination
proof (relation "measures [\<lambda>(cap, buf, reads). length (concat reads) + length reads, \<lambda>(cap, buf, reads). length buf]")
qed (auto simp: next_line_shorter)

declare scan_reads.simps [simp del]

definition maxLine :: nat where "maxLine = 2 ^ 20"

definition drainStderr :: "(string \<Rightarrow> 'w \<Rightarrow> 'w) option \<Rightarrow> string list \<Rightarrow> 'w \<Rightarrow> 'w \<times> bool" where
  "drainStderr cb reads w =
     (case scan_reads maxLine [] reads of
        (ls, tooLong) \<Rightarrow> (case cb of None \<Rightarrow> w | Some f \<Rightarrow> fold f ls w, tooLong))"

text \<open>\<open>drain\<close> also logs every line; the log is not modelled.\<close>

definition drain :: "(string \<Rightarrow> 'w \<Rightarrow> 'w) option \<Rightarrow> string list \<Rightarrow> 'w \<Rightarrow> 'w \<times> bool" where
  "drain cb reads w = drainStderr cb reads w"

section \<open>The lines of a text\<close>

text \<open>The reference: the lines of the whole output, up to the first one that does not fit.\<close>

function lines_of :: "nat \<Rightarrow> string \<Rightarrow> string list \<times> bool" where
  "lines_of cap s =
     (if s = [] then ([], False)
      else let l = takeWhile (\<lambda>c. c \<noteq> newline) s
           in if cap \<le> length l then ([], True)
              else (case lines_of cap (drop (length l + 1) s) of (ls, tooLong) \<Rightarrow> (dropCR l # ls, tooLong)))"
  by pat_completeness auto
termination by (relation "measure (\<lambda>(cap, s). length s)") auto

declare lines_of.simps [simp del]

lemma next_line_Some:
  assumes "next_line buf = Some (l, rest)"
  shows "\<exists>l'. buf = l' @ newline # rest \<and> newline \<notin> set l' \<and> l = dropCR l'"
proof -
  let ?P = "\<lambda>c. c \<noteq> newline"
  have n: "newline \<in> set buf" "l = dropCR (takeWhile ?P buf)" "rest = tl (dropWhile ?P buf)"
    using assms by (auto simp: next_line_def split: if_splits)
  then have d: "dropWhile ?P buf \<noteq> []" by auto
  then have "hd (dropWhile ?P buf) = newline" using hd_dropWhile [of ?P buf] by blast
  then have "buf = takeWhile ?P buf @ newline # rest" using d n(3) by (metis list.collapse takeWhile_dropWhile_id)
  moreover have "newline \<notin> set (takeWhile ?P buf)" by (auto dest: set_takeWhileD)
  ultimately show ?thesis using n(2) by blast
qed

lemma next_line_None: "next_line buf = None \<longleftrightarrow> newline \<notin> set buf"
  by (simp add: next_line_def)

lemma lines_of_line:
  assumes "newline \<notin> set l" "length l < cap"
  shows "lines_of cap (l @ newline # rest) = (case lines_of cap rest of (ls, b) \<Rightarrow> (dropCR l # ls, b))"
proof -
  have "takeWhile (\<lambda>c. c \<noteq> newline) (l @ newline # rest) = l" using assms(1) by (subst takeWhile_append2) auto
  then show ?thesis using assms(2) by (subst lines_of.simps) (simp add: Let_def)
qed

lemma lines_of_Nil [simp]: "lines_of cap [] = ([], False)"
  by (subst lines_of.simps) simp

lemma lines_of_last:
  assumes "newline \<notin> set l" "length l < cap"
  shows "lines_of cap l = (if l = [] then [] else [dropCR l], False)"
proof -
  have t: "takeWhile (\<lambda>c. c \<noteq> newline) l = l" using assms(1) by (auto simp: takeWhile_eq_all_conv)
  have "\<not> cap \<le> length l" using assms(2) by simp
  then show ?thesis by (cases "l = []"; subst lines_of.simps) (simp_all add: Let_def t)
qed

lemma lines_of_long:
  assumes "newline \<notin> set l" "cap \<le> length l" "0 < cap"
  shows "lines_of cap (l @ rest) = ([], True)"
proof -
  have "length l \<le> length (takeWhile (\<lambda>c. c \<noteq> newline) (l @ rest))" using assms(1) by (subst takeWhile_append2) auto
  then show ?thesis using assms(2,3) by (subst lines_of.simps) (auto simp: Let_def)
qed

text \<open>However the output is cut into reads, the scanner finds the lines of the whole.\<close>

lemma scan_reads_lines:
  "0 < cap \<Longrightarrow> length buf \<le> cap \<Longrightarrow> scan_reads cap buf reads = lines_of cap (buf @ concat reads)"
proof (induction cap buf reads rule: scan_reads.induct)
  case (1 cap buf reads)
  show ?case
  proof (cases "next_line buf")
    case (Some x)
    obtain l rest where x: "x = (l, rest)" by (cases x)
    from next_line_Some [OF Some [unfolded x]] obtain l' where l': "buf = l' @ newline # rest" "newline \<notin> set l'" "l = dropCR l'"
      by blast
    have "scan_reads cap rest reads = lines_of cap (rest @ concat reads)"
      using 1(3) [OF Some x [symmetric]] 1(4,5) l'(1) by simp
    moreover have "length l' < cap" using l'(1) 1(5) by simp
    ultimately show ?thesis using lines_of_line [of l' cap "rest @ concat reads"] Some x l'
      by (subst scan_reads.simps) simp
  next
    case None
    then have n: "newline \<notin> set buf" by (simp add: next_line_None)
    show ?thesis
    proof (cases "cap \<le> length buf")
      case True
      then show ?thesis using lines_of_long [OF n True 1(4)] None by (subst scan_reads.simps) simp
    next
      case short: False
      show ?thesis
      proof (cases reads)
        case Nil
        then show ?thesis using lines_of_last [OF n] None short by (subst scan_reads.simps) simp
      next
        case (Cons c cs)
        let ?room = "cap - length buf"
        show ?thesis
        proof (cases "length c \<le> ?room")
          case True
          then have "scan_reads cap (buf @ c) cs = lines_of cap ((buf @ c) @ concat cs)"
            using 1(1) [OF None short Cons refl True] 1(4) short by simp
          then show ?thesis using None short Cons True by (subst scan_reads.simps) simp
        next
          case False
          then have "scan_reads cap (buf @ take ?room c) (drop ?room c # cs) =
              lines_of cap ((buf @ take ?room c) @ concat (drop ?room c # cs))"
            using 1(2) [OF None short Cons refl False] 1(4) short by simp
          also have "(buf @ take ?room c) @ concat (drop ?room c # cs) = buf @ concat reads" by (simp add: Cons)
          finally show ?thesis using None short Cons False by (subst scan_reads.simps) (simp add: Let_def)
        qed
      qed
    qed
  qed
qed

section \<open>What the callback sees\<close>

definition fits :: "string \<Rightarrow> bool" where
  "fits l \<longleftrightarrow> newline \<notin> set l \<and> length l < maxLine"

definition text_of :: "string list \<Rightarrow> string" where
  "text_of ls = concat (map (\<lambda>l. l @ [newline]) ls)"

lemma text_of_simps [simp]:
  "text_of [] = []" "text_of (l # ls) = l @ newline # text_of ls"
  by (simp_all add: text_of_def)

lemma lines_of_text:
  "list_all fits ls \<Longrightarrow> lines_of maxLine (text_of ls @ rest) =
     (case lines_of maxLine rest of (ls', b) \<Rightarrow> (map dropCR ls @ ls', b))"
  by (induction ls) (simp_all add: lines_of_line fits_def split: prod.splits)

lemma scan_whole: "scan_reads maxLine [] reads = lines_of maxLine (concat reads)"
  using scan_reads_lines [of maxLine "[]" reads] by (simp add: maxLine_def)

text \<open>
  C36: The stderr callback gets exactly the lines opencode wrote, each once, whole and in order, without
  their line ends, however the kernel cuts the output into reads, and also an unterminated last line,
  as long as every line is shorter than a MiB. A longer one ends the drain for good: the lines before it
  are delivered, and nothing of it or of what follows.
\<close>

theorem stderr_lines_exact:
  assumes "list_all fits ls" and "concat reads = text_of ls @ rest"
  shows "(fits rest \<longrightarrow>
      drainStderr (Some f) reads w = (fold f (map dropCR (ls @ (if rest = [] then [] else [rest]))) w, False)) \<and>
    (maxLine \<le> length (takeWhile (\<lambda>c. c \<noteq> newline) rest) \<longrightarrow> drainStderr (Some f) reads w = (fold f (map dropCR ls) w, True))"
proof (intro conjI impI)
  note l = lines_of_text [OF assms(1), of rest]
  show "drainStderr (Some f) reads w = (fold f (map dropCR (ls @ (if rest = [] then [] else [rest]))) w, False)" if "fits rest"
    using that l lines_of_last [of rest maxLine] by (simp add: drainStderr_def scan_whole fits_def assms(2))
  assume long: "maxLine \<le> length (takeWhile (\<lambda>c. c \<noteq> newline) rest)"
  then have "rest \<noteq> []" by (auto simp: maxLine_def)
  then have "lines_of maxLine rest = ([], True)" using long by (subst lines_of.simps) (simp add: Let_def)
  then show "drainStderr (Some f) reads w = (fold f (map dropCR ls) w, True)"
    using l by (simp add: drainStderr_def scan_whole assms(2))
qed

theorem stderr_lines_exact_witness:
  "drainStderr (Some (\<lambda>l w. w @ [l])) [''ab'', ''c'' @ [CHR 0x0D], [newline] @ ''d''] [] = ([''abc'', ''d''], False)"
proof -
  let ?l = "''abc'' @ [CHR 0x0D]"
  have f: "list_all fits [?l]" "fits ''d''" by (simp_all add: fits_def maxLine_def)
  have "concat [''ab'', ''c'' @ [CHR 0x0D], [newline] @ ''d''] = text_of [?l] @ ''d''" by simp
  from stderr_lines_exact [OF f(1) this, of "\<lambda>l w. w @ [l]" "[]"] f(2) show ?thesis by (simp add: dropCR_def)
qed

end
