(* ===== verification/ModelCaps.thy ===== *)
theory ModelCaps
  imports Process ProcessGroup ProcessOutput
begin

text \<open>
  The capabilities of the models (\<open>model_capabilities.go\<close>) and the throw-away \<open>opencode serve\<close> they are
  read from (\<open>internal/serve/serve.go\<close>). The operating system, the HTTP client and \<open>encoding/json\<close> are
  parameters; what the subprocess does is the list of events the spawning goroutine selects, in order.
\<close>

section \<open>The listening banner\<close>

text \<open>The regular expression \<open>listening on (https?://[^\s]+)\<close>: the leftmost match.\<close>

definition re_space :: "char \<Rightarrow> bool" where
  "re_space c \<longleftrightarrow> char_code c \<in> {9, 10, 12, 13, 32}"

definition url_here :: "string \<Rightarrow> string \<Rightarrow> string option" where
  "url_here scheme s =
     (if has_prefix s (''listening on '' @ scheme)
      then let rest = takeWhile (\<lambda>c. \<not> re_space c) (drop (length (''listening on '' @ scheme)) s)
           in if rest = [] then None else Some (scheme @ rest)
      else None)"

fun listening_url :: "string \<Rightarrow> string option" where
  "listening_url [] = None"
| "listening_url (c # cs) =
     (case url_here ''https://'' (c # cs) of
        Some u \<Rightarrow> Some u
      | None \<Rightarrow> (case url_here ''http://'' (c # cs) of Some u \<Rightarrow> Some u | None \<Rightarrow> listening_url cs))"

section \<open>The server process\<close>

record serve_config =
  sv_Path :: string
  sv_Env :: "(string \<times> string) list"
  sv_Cwd :: string
  sv_ReadyTimeout :: string

text \<open>
  The operating system for one server: the port of the probing listener (\<open>None\<close>: its address is no
  TCP address), the environment, the pipes (1 stdout, 2 stderr), the start with the pid it gives, the
  system calls that kill it, and whether, after the signals that were sent, \<open>cmd.Wait\<close> returns within
  the five seconds it is given.
\<close>

record serve_env =
  se_listen :: "goerr + nat option"
  se_environ :: "string list"
  se_pipe :: "nat \<Rightarrow> goerr option"
  se_start :: "string \<Rightarrow> string list \<Rightarrow> string list \<Rightarrow> string \<Rightarrow> goerr option"
  se_pid :: nat
  se_kill :: kill_env
  se_reaped :: "signal list \<Rightarrow> bool"

datatype child = NotStarted | Running | Gone

record server =
  sp_url :: string
  sp_closed :: bool
  sp_closeErr :: "goerr option"
  sp_child :: child

definition pickFreePort :: "goerr + nat option \<Rightarrow> goerr + nat" where
  "pickFreePort l =
     (case l of
        Inl err \<Rightarrow> Inl err
      | Inr None \<Rightarrow> Inl (ENew ''unexpected listener address type'')
      | Inr (Some port) \<Rightarrow> Inr port)"

definition server_process :: "serve_env \<Rightarrow> server \<Rightarrow> nat option" where
  "server_process se p = (if sp_child p = NotStarted then None else Some (se_pid se))"

text \<open>The kill, then the wait: only what the signals have done makes \<open>waitErr\<close> ready.\<close>

definition serve_Close :: "serve_env \<Rightarrow> server \<Rightarrow> goerr option \<times> server" where
  "serve_Close se p =
     (if sp_closed p then (sp_closeErr p, p)
      else case killProcessTree ''opencode serve'' (se_kill se) (server_process se p) of
        (killErr, sigs) \<Rightarrow>
          let reaped = se_reaped se sigs;
              err = (if reaped then killErr else Some (ENew ''opencode serve did not exit after SIGKILL''))
          in (err, p\<lparr>sp_closed := True, sp_closeErr := err, sp_child := (if reaped then Gone else sp_child p)\<rparr>))"

text \<open>
  What the code relies on when it waits five seconds for the process: SIGKILL cannot be caught, so a
  process has exited and can be waited for soon after its group or itself was sent the signal, or when
  the system says that it has been waited for already. Nothing is assumed of a process that no signal
  has reached.
\<close>

definition sigkill_kills :: "serve_env \<Rightarrow> bool" where
  "sigkill_kills se \<longleftrightarrow> (\<forall>sigs.
     (\<exists>sig \<in> set sigs. taken (se_kill se) sig \<and>
        (sig = SigProcess (se_pid se) \<or> (\<exists>g. ke_Getpgid (se_kill se) (se_pid se) = Inr g \<and> sig = SigGroup g))) \<longrightarrow>
     se_reaped se sigs)"

datatype serve_event = SrvLine string | SrvExited "goerr option" | SrvTimeout | SrvCtxDone goerr

definition exit_text :: "goerr option \<Rightarrow> string" where
  "exit_text err = (case err of None \<Rightarrow> ''<nil>'' | Some e \<Rightarrow> err_msg e)"

text \<open>The select of \<open>Spawn\<close>; \<open>None\<close>: nothing decided yet.\<close>

fun await_ready :: "serve_env \<Rightarrow> string \<Rightarrow> serve_event list \<Rightarrow> server \<Rightarrow> ((goerr + string) \<times> server) option" where
  "await_ready se timeout [] p = None"
| "await_ready se timeout (SrvLine l # evs) p =
     (case listening_url l of
        Some u \<Rightarrow> Some (Inr u, p\<lparr>sp_url := u\<rparr>)
      | None \<Rightarrow> await_ready se timeout evs p)"
| "await_ready se timeout (SrvExited err # evs) p =
     Some (Inl (errorf_w_s (ESent ErrServerNotReady) (''exited before ready: '' @ exit_text err)), p\<lparr>sp_child := Gone\<rparr>)"
| "await_ready se timeout (SrvTimeout # evs) p =
     Some (Inl (errorf_w_s (ESent ErrServerNotReady) (''no listening banner within '' @ timeout)), snd (serve_Close se p))"
| "await_ready se timeout (SrvCtxDone err # evs) p = Some (Inl err, snd (serve_Close se p))"

text \<open>The events that stdout gives: the lines of the drained pipe.\<close>

definition stdout_events :: "string list \<Rightarrow> serve_event list" where
  "stdout_events reads = map SrvLine (fst (scan_reads maxLine [] reads))"

text \<open>The copy of the subprocess package's \<open>buildEnv\<close>.\<close>

definition serve_buildEnv :: "string list \<Rightarrow> (string \<times> string) list \<Rightarrow> string list" where
  "serve_buildEnv environ overlay =
     (if overlay = [] then environ
      else fold (overlay_one (env_index 0 environ [])) overlay environ)"

lemma serve_buildEnv_same: "serve_buildEnv = buildEnv"
  by (simp add: fun_eq_iff serve_buildEnv_def buildEnv_def)

definition serve_args :: "nat \<Rightarrow> string list" where
  "serve_args port = [''serve'', ''--hostname'', ''127.0.0.1'', ''--port'', nat_digits port]"

definition no_server :: server where
  "no_server = \<lparr>sp_url = [], sp_closed = False, sp_closeErr = None, sp_child = NotStarted\<rparr>"

definition serve_Spawn :: "serve_env \<Rightarrow> serve_config \<Rightarrow> serve_event list \<Rightarrow> ((goerr + string) \<times> server) option" where
  "serve_Spawn se cfg evs =
     (if sv_Path cfg = [] then Some (Inl (ENew ''serve: Config.Path is required''), no_server)
      else case pickFreePort (se_listen se) of
        Inl err \<Rightarrow> Some (Inl (errorf_s_w ''picking free port'' err), no_server)
      | Inr port \<Rightarrow>
          (case se_pipe se 1 of
             Some err \<Rightarrow> Some (Inl (errorf_s_w ''creating stdout pipe'' err), no_server)
           | None \<Rightarrow>
               (case se_pipe se 2 of
                  Some err \<Rightarrow> Some (Inl (errorf_s_w ''creating stderr pipe'' err), no_server)
                | None \<Rightarrow>
                    (case se_start se (sv_Path cfg) (serve_args port) (serve_buildEnv (se_environ se) (sv_Env cfg)) (sv_Cwd cfg) of
                       Some err \<Rightarrow> Some (Inl (errorf_s_w ''starting opencode serve'' err), no_server)
                     | None \<Rightarrow> await_ready se (sv_ReadyTimeout cfg) evs (no_server\<lparr>sp_child := Running\<rparr>)))))"

section \<open>Decoding the catalogue\<close>

record modalityBlock =
  mb_Text :: bool
  mb_Audio :: bool
  mb_Image :: bool
  mb_Video :: bool
  mb_PDF :: bool

type_synonym ModalityCapabilities = modalityBlock

definition toModality :: "modalityBlock \<Rightarrow> ModalityCapabilities" where
  "toModality m = m"

definition flexBool_Unmarshal :: "string \<Rightarrow> goerr + bool" where
  "flexBool_Unmarshal data =
     (if data = [] \<or> data = ''null'' then Inr False
      else if hd data = CHR ''t'' then Inr True
      else if hd data = CHR ''f'' then Inr False
      else if hd data = CHR ''{'' then Inr True
      else Inl (ENew (''flexBool: unexpected JSON '' @ go_quote data)))"

record capabilitiesBlock =
  cpb_Temperature :: bool
  cpb_Reasoning :: bool
  cpb_Toolcall :: bool
  cpb_Attachment :: bool
  cpb_Interleaved :: bool
  cpb_Input :: modalityBlock
  cpb_Output :: modalityBlock

record modelEntry =
  me_ID :: string
  me_Name :: string
  me_Capabilities :: capabilitiesBlock
  me_ContextLimit :: int
  me_OutputLimit :: int

record providerEntry =
  pv_ID :: string
  pv_Models :: "(string \<times> modelEntry) list"

record ModelCapabilities =
  mc_ProviderID :: string
  mc_ModelID :: string
  mc_Name :: string
  mc_Temperature :: bool
  mc_Reasoning :: bool
  mc_Toolcall :: bool
  mc_Attachment :: bool
  mc_Interleaved :: bool
  mc_Input :: ModalityCapabilities
  mc_Output :: ModalityCapabilities
  mc_ContextLimit :: int
  mc_OutputLimit :: int

definition model_capability :: "string \<Rightarrow> string \<Rightarrow> modelEntry \<Rightarrow> ModelCapabilities" where
  "model_capability pid mk m =
     (let c = me_Capabilities m
      in \<lparr>mc_ProviderID = pid, mc_ModelID = mk, mc_Name = me_Name m, mc_Temperature = cpb_Temperature c,
          mc_Reasoning = cpb_Reasoning c, mc_Toolcall = cpb_Toolcall c, mc_Attachment = cpb_Attachment c,
          mc_Interleaved = cpb_Interleaved c, mc_Input = toModality (cpb_Input c), mc_Output = toModality (cpb_Output c),
          mc_ContextLimit = me_ContextLimit m, mc_OutputLimit = me_OutputLimit m\<rparr>)"

definition model_key :: "string \<Rightarrow> string \<Rightarrow> string" where
  "model_key pid mk = pid @ ''/'' @ mk"

text \<open>The two nested loops; a JSON object with its keys is an association list in the order of the range loop.\<close>

definition capabilities_of :: "providerEntry list \<Rightarrow> (string \<times> ModelCapabilities) list" where
  "capabilities_of ps =
     fold (\<lambda>p. fold (\<lambda>(mk, m). amap_put (model_key (pv_ID p) mk) (model_capability (pv_ID p) mk m)) (pv_Models p)) ps []"

record http_response =
  hr_StatusCode :: int
  hr_Status :: string
  hr_Body :: string

text \<open>
  \<open>decode\<close> is the JSON decoder for the response type, given the \<open>UnmarshalJSON\<close> method of its
  \<open>flexBool\<close> fields.
\<close>

type_synonym providers_decoder = "(string \<Rightarrow> goerr + bool) \<Rightarrow> string \<Rightarrow> goerr + providerEntry list"

definition fetchModelCapabilities :: "(string \<Rightarrow> goerr option) \<Rightarrow> (string \<Rightarrow> goerr + http_response) \<Rightarrow> providers_decoder \<Rightarrow>
    string \<Rightarrow> goerr + (string \<times> ModelCapabilities) list" where
  "fetchModelCapabilities newRequest httpDo decode baseURL =
     (let url = baseURL @ ''/config/providers''
      in case newRequest url of
           Some err \<Rightarrow> Inl (errorf_s_w ''building request'' err)
         | None \<Rightarrow>
             (case httpDo url of
                Inl err \<Rightarrow> Inl (errorf_s_w ''GET /config/providers'' err)
              | Inr resp \<Rightarrow>
                  if hr_StatusCode resp \<noteq> 200
                  then Inl (ENew (''GET /config/providers: '' @ hr_Status resp @ '': '' @ take 4096 (hr_Body resp)))
                  else (case decode flexBool_Unmarshal (hr_Body resp) of
                          Inl err \<Rightarrow> Inl (errorf_s_w ''decoding /config/providers'' err)
                        | Inr ps \<Rightarrow> Inr (capabilities_of ps))))"

definition serveEnv :: "'w options \<Rightarrow> 'w heap \<Rightarrow> (string \<times> string) list" where
  "serveEnv o1 h =
     (let env = (case o_env o1 of None \<Rightarrow> [] | Some r \<Rightarrow> hp_env h r)
      in if o_opencodeHome o1 = [] then env
         else let out = maps_copy [] env
              in if map_of out ''XDG_DATA_HOME'' = None
                 then amap_put ''XDG_DATA_HOME'' (o_opencodeHome o1) out else out)"

definition ListModelCapabilities :: "process_env \<Rightarrow> serve_env \<Rightarrow> serve_event list \<Rightarrow> (string \<Rightarrow> goerr option) \<Rightarrow>
    (string \<Rightarrow> goerr + http_response) \<Rightarrow> providers_decoder \<Rightarrow> 'w opt list \<Rightarrow> 'w heap \<Rightarrow>
    ((goerr + (string \<times> ModelCapabilities) list) \<times> server) option" where
  "ListModelCapabilities pe se evs newRequest httpDo decode opts h =
     (case apply_options opts h of
        (o1, h1) \<Rightarrow>
          (case Discover pe \<lparr>di_Path = o_cliPath o1, di_SkipVersionCheck = o_skipVersionCheck o1,
                  di_MinimumVersion = MinimumCLIVersion\<rparr> of
             Inl err \<Rightarrow> Some (Inl (discover_error (o_cliPath o1) err), no_server)
           | Inr (path, _) \<Rightarrow>
               (case serve_Spawn se \<lparr>sv_Path = path, sv_Env = serveEnv o1 h1, sv_Cwd = o_cwd o1, sv_ReadyTimeout = ''10s''\<rparr> evs of
                  None \<Rightarrow> None
                | Some (Inl err, p) \<Rightarrow> Some (Inl (errorf_s_w ''spawning opencode serve'' err), p)
                | Some (Inr url, p) \<Rightarrow>
                    Some (fetchModelCapabilities newRequest httpDo decode url, snd (serve_Close se p)))))"

section \<open>No server is left behind\<close>

lemma serve_Close_idempotent: "serve_Close se p = (r, p') \<Longrightarrow> serve_Close se p' = (r, p')"
  by (auto simp: serve_Close_def Let_def split: if_splits prod.splits)

text \<open>The signals of a kill that reports no error reached the process.\<close>

lemma killed_is_reaped:
  assumes "sigkill_kills se" "killProcessTree name (se_kill se) (Some (se_pid se)) = (None, sigs)"
  shows "se_reaped se sigs"
proof -
  have "\<exists>sig \<in> set sigs. taken (se_kill se) sig \<and>
      (sig = SigProcess (se_pid se) \<or> (\<exists>g. ke_Getpgid (se_kill se) (se_pid se) = Inr g \<and> sig = SigGroup g))"
    using assms(2)
    by (auto simp: killProcessTree_def kill_process_def taken_def
        split: sum.splits option.splits sys_error.splits kill_error.splits prod.splits)
  with assms(1) show ?thesis unfolding sigkill_kills_def by blast
qed

text \<open>A server whose kill was not refused is gone; otherwise the close error says that it may be alive.\<close>

definition stopped :: "serve_env \<Rightarrow> server \<Rightarrow> bool" where
  "stopped se p \<longleftrightarrow> sp_child p = Gone \<or>
     sp_closed p \<and> sp_closeErr p \<noteq> None \<and>
     fst (killProcessTree ''opencode serve'' (se_kill se) (Some (se_pid se))) \<noteq> None"

lemma serve_Close_stops:
  assumes "sigkill_kills se" "\<not> sp_closed p" "sp_child p = Running"
  shows "stopped se (snd (serve_Close se p))"
proof -
  obtain killErr sigs where k: "killProcessTree ''opencode serve'' (se_kill se) (Some (se_pid se)) = (killErr, sigs)"
    by (metis prod.exhaust)
  with killed_is_reaped [OF assms(1), of "''opencode serve''" sigs] assms(2,3) show ?thesis
    by (cases "se_reaped se sigs") (auto simp: serve_Close_def server_process_def stopped_def Let_def)
qed

lemma await_ready_outcome:
  "await_ready se timeout evs p = Some (r, p') \<Longrightarrow> \<not> sp_closed p \<Longrightarrow> sp_child p = Running \<Longrightarrow> sigkill_kills se \<Longrightarrow>
   (case r of
      Inl err \<Rightarrow> stopped se p'
    | Inr u \<Rightarrow> sp_child p' = Running \<and> \<not> sp_closed p' \<and> sp_url p' = u \<and> (\<exists>l. SrvLine l \<in> set evs \<and> listening_url l = Some u))"
  by (induction se timeout evs p rule: await_ready.induct)
     (auto split: option.splits sum.splits simp: serve_Close_stops, simp add: stopped_def)

lemma url_here_shape:
  assumes "url_here scheme s = Some u"
  shows "prefix scheme u \<and> sublist u s"
proof -
  let ?t = "drop (length (''listening on '' @ scheme)) s"
  have p: "prefix (''listening on '' @ scheme) s" and u: "u = scheme @ takeWhile (\<lambda>c. \<not> re_space c) ?t"
    using assms by (auto simp: url_here_def has_prefix_iff Let_def split: if_splits)
  have "s = (''listening on '' @ scheme) @ ?t" using p by (metis append_eq_conv_conj prefix_def)
  also have "\<dots> = ''listening on '' @ u @ dropWhile (\<lambda>c. \<not> re_space c) ?t" by (simp add: u)
  finally have "sublist u s" by (metis sublist_appendI)
  then show ?thesis by (simp add: u)
qed

lemma listening_url_shape: "listening_url s = Some u \<Longrightarrow> sublist u s \<and> (prefix ''http://'' u \<or> prefix ''https://'' u)"
proof (induction s)
  case (Cons c cs)
  then show ?case
    using url_here_shape [of "''https://''" "c # cs" u] url_here_shape [of "''http://''" "c # cs" u]
    by (auto split: option.splits simp: sublist_Cons_right)
qed simp

text \<open>
  The banner is found however stdout is cut into reads: when the output begins with lines that hold no
  address and then one that does, the spawn is ready with that address.
\<close>

lemma await_lines:
  assumes "\<forall>l \<in> set ls. listening_url l = None" "listening_url b = Some u"
  shows "await_ready se timeout (map SrvLine (ls @ b # rest) @ evs) p = Some (Inr u, p\<lparr>sp_url := u\<rparr>)"
  using assms by (induction ls) simp_all

theorem banner_is_found:
  assumes "concat reads = text_of (ls @ [b]) @ rest" "list_all fits (ls @ [b])"
    and "\<forall>l \<in> set ls. listening_url (dropCR l) = None" "listening_url (dropCR b) = Some u"
  shows "await_ready se timeout (stdout_events reads @ evs) p = Some (Inr u, p\<lparr>sp_url := u\<rparr>)"
proof -
  obtain ls' where "fst (scan_reads maxLine [] reads) = map dropCR ls @ dropCR b # ls'"
    using lines_of_text [OF assms(2), of rest] by (simp add: scan_whole assms(1) split: prod.splits)
  then show ?thesis using await_lines [of "map dropCR ls" "dropCR b" u se timeout ls' evs p] assms(3,4)
    by (simp add: stdout_events_def)
qed

text \<open>
  C40: ListModelCapabilities leaves no server running that it could kill. On a system where SIGKILL ends a
  process it reaches within the time the code waits, whatever fails (discovery, the spawn, the banner, the
  request, the decoding), the subprocess it started has exited when the call returns, because it was
  killed or had exited before; the one exception is a kill that the system refuses with an error other
  than that the process is gone, and then the server has been closed and its close error is set (the
  call does not return it). The catalogue that is returned was read from the address of a banner the server
  printed.
\<close>

theorem capabilities_leave_no_server:
  assumes "ListModelCapabilities pe se evs newRequest httpDo decode opts h = Some (r, p)" and "sigkill_kills se"
  shows "(sp_child p = Running \<longrightarrow> sp_closed p \<and> sp_closeErr p \<noteq> None \<and>
       (\<exists>err. fst (killProcessTree ''opencode serve'' (se_kill se) (Some (se_pid se))) = Some err)) \<and>
    (\<forall>caps. r = Inr caps \<longrightarrow> (\<exists>l u. SrvLine l \<in> set evs \<and> listening_url l = Some u \<and>
       fetchModelCapabilities newRequest httpDo decode u = Inr caps))"
proof -
  obtain o1 h1 where o: "apply_options opts h = (o1, h1)" by (metis prod.exhaust)
  define dr where "dr = Discover pe \<lparr>di_Path = o_cliPath o1, di_SkipVersionCheck = o_skipVersionCheck o1,
    di_MinimumVersion = MinimumCLIVersion\<rparr>"
  show ?thesis
  proof (cases dr)
    case (Inl err)
    then show ?thesis using assms(1) o by (auto simp: ListModelCapabilities_def dr_def no_server_def)
  next
    case (Inr pv)
    obtain path v where pv: "pv = (path, v)" by (metis prod.exhaust)
    define cfg where "cfg = \<lparr>sv_Path = path, sv_Env = serveEnv o1 h1, sv_Cwd = o_cwd o1, sv_ReadyTimeout = ''10s''\<rparr>"
    obtain sr p1 where sp: "serve_Spawn se cfg evs = Some (sr, p1)"
      using assms(1) o Inr pv by (cases "serve_Spawn se cfg evs") (auto simp: ListModelCapabilities_def dr_def cfg_def)
    have c: "case sr of Inl err \<Rightarrow> sp_child p1 \<noteq> Running \<or> stopped se p1
      | Inr u \<Rightarrow> \<not> sp_closed p1 \<and> sp_child p1 = Running \<and> (\<exists>l. SrvLine l \<in> set evs \<and> listening_url l = Some u)"
    proof (cases "await_ready se ''10s'' evs (no_server\<lparr>sp_child := Running\<rparr>) = Some (sr, p1)")
      case True
      from await_ready_outcome [OF this] assms(2) show ?thesis by (auto simp: no_server_def split: sum.splits)
    next
      case False
      then have "\<exists>err. sr = Inl err \<and> p1 = no_server"
        using sp by (auto simp: serve_Spawn_def cfg_def split: if_splits sum.splits option.splits)
      then show ?thesis by (auto simp: no_server_def)
    qed
    show ?thesis
    proof (cases sr)
      case (Inl err)
      then show ?thesis using assms(1) o Inr pv sp c by (auto simp: ListModelCapabilities_def dr_def cfg_def stopped_def)
    next
      case (Inr u)
      then have r: "r = fetchModelCapabilities newRequest httpDo decode u" "p = snd (serve_Close se p1)"
        using assms(1) o \<open>dr = Inr pv\<close> pv sp by (auto simp: ListModelCapabilities_def dr_def cfg_def)
      then show ?thesis using Inr c serve_Close_stops [OF assms(2), of p1] by (auto simp: stopped_def)
    qed
  qed
qed

definition demo_serve :: serve_env where
  "demo_serve = \<lparr>se_listen = Inr (Some 4096), se_environ = [], se_pipe = (\<lambda>_. None), se_start = (\<lambda>_ _ _ _. None),
     se_pid = 77, se_kill = \<lparr>ke_Getpgid = (\<lambda>pid. Inr (int pid)), ke_KillGroup = (\<lambda>_. None), ke_Kill = None\<rparr>,
     se_reaped = (\<lambda>sigs. sigs \<noteq> [])\<rparr>"

theorem capabilities_leave_no_server_witness:
  "\<exists>r p. ListModelCapabilities (demo_process ''1.14.20'') demo_serve [SrvLine ''listening on http://127.0.0.1:4096 ok'']
      (\<lambda>_. None) (\<lambda>_. Inr \<lparr>hr_StatusCode = 200, hr_Status = ''200 OK'', hr_Body = []\<rparr>) (\<lambda>_ _. Inr [])
      [OSetting (SetSkipVersionCheck True)] demo_heap = Some (r, p) \<and> sp_child p \<noteq> Running"
proof -
  have v: "trim_space (hd (split_n 2 (CHR 0x0A) ''1.14.20'')) = ''1.14.20''" by code_simp
  have u: "listening_url ''listening on http://127.0.0.1:4096 ok'' = Some ''http://127.0.0.1:4096''" by code_simp
  have "\<exists>r p. ListModelCapabilities (demo_process ''1.14.20'') demo_serve [SrvLine ''listening on http://127.0.0.1:4096 ok'']
      (\<lambda>_. None) (\<lambda>_. Inr \<lparr>hr_StatusCode = 200, hr_Status = ''200 OK'', hr_Body = []\<rparr>) (\<lambda>_ _. Inr [])
      [OSetting (SetSkipVersionCheck True)] demo_heap = Some (r, p)"
    by (simp add: ListModelCapabilities_def apply_options_def setting_defs defaultOptions_def Discover_def resolvePath_def
        probeVersion_def demo_process_def v serve_Spawn_def demo_serve_def pickFreePort_def u del: listening_url.simps)
  then obtain r p where lp: "ListModelCapabilities (demo_process ''1.14.20'') demo_serve [SrvLine ''listening on http://127.0.0.1:4096 ok'']
      (\<lambda>_. None) (\<lambda>_. Inr \<lparr>hr_StatusCode = 200, hr_Status = ''200 OK'', hr_Body = []\<rparr>) (\<lambda>_ _. Inr [])
      [OSetting (SetSkipVersionCheck True)] demo_heap = Some (r, p)" by blast
  have "sigkill_kills demo_serve" by (auto simp: sigkill_kills_def demo_serve_def)
  from capabilities_leave_no_server [OF lp this] lp show ?thesis by (auto simp: demo_serve_def killProcessTree_def)
qed

section \<open>The catalogue\<close>

definition model_entries :: "providerEntry list \<Rightarrow> (string \<times> ModelCapabilities) list" where
  "model_entries ps = concat (map (\<lambda>p. map (\<lambda>(mk, m). (model_key (pv_ID p) mk, model_capability (pv_ID p) mk m)) (pv_Models p)) ps)"

lemma capabilities_fold: "capabilities_of ps = fold (\<lambda>(k, v). amap_put k v) (model_entries ps) []"
proof -
  have "fold (\<lambda>p. fold (\<lambda>(mk, m). amap_put (model_key (pv_ID p) mk) (model_capability (pv_ID p) mk m)) (pv_Models p)) ps acc =
      fold (\<lambda>(k, v). amap_put k v) (model_entries ps) acc" for acc
    by (induction ps arbitrary: acc) (simp_all add: model_entries_def fold_map o_def case_prod_unfold)
  then show ?thesis by (simp add: capabilities_of_def)
qed

lemma model_key_inj:
  assumes "model_key a x = model_key b y" "slash \<notin> set a" "slash \<notin> set b"
  shows "a = b \<and> x = y"
proof -
  have t: "takeWhile (\<lambda>c. c \<noteq> slash) (model_key a x) = a" if "slash \<notin> set a" for a x
    using that by (auto simp: model_key_def takeWhile_append)
  from assms t have "a = b" by metis
  with assms(1) show ?thesis by (simp add: model_key_def)
qed

definition catalogue_ok :: "providerEntry list \<Rightarrow> bool" where
  "catalogue_ok ps \<longleftrightarrow> distinct (map pv_ID ps) \<and>
     (\<forall>p \<in> set ps. slash \<notin> set (pv_ID p) \<and> distinct (map fst (pv_Models p)))"

lemma model_entries_distinct: "catalogue_ok ps \<Longrightarrow> distinct (map fst (model_entries ps))"
proof (induction ps)
  case (Cons p ps)
  have ok: "catalogue_ok ps" using Cons.prems by (simp add: catalogue_ok_def)
  have f: "map fst (model_entries (p # ps)) = map (\<lambda>mk. model_key (pv_ID p) mk) (map fst (pv_Models p)) @ map fst (model_entries ps)"
    by (simp add: model_entries_def case_prod_unfold o_def)
  have "distinct (map (\<lambda>mk. model_key (pv_ID p) mk) (map fst (pv_Models p)))"
    using Cons.prems by (auto simp: catalogue_ok_def distinct_map inj_on_def model_key_def)
  moreover have "model_key (pv_ID p) mk \<notin> set (map fst (model_entries ps))" for mk
  proof
    assume "model_key (pv_ID p) mk \<in> set (map fst (model_entries ps))"
    then obtain q x where "q \<in> set ps" "model_key (pv_ID p) mk = model_key (pv_ID q) x"
      by (auto simp: model_entries_def)
    moreover have "slash \<notin> set (pv_ID p)" "slash \<notin> set (pv_ID q)" using Cons.prems \<open>q \<in> set ps\<close> by (auto simp: catalogue_ok_def)
    ultimately have "pv_ID p = pv_ID q" by (metis model_key_inj)
    with \<open>q \<in> set ps\<close> Cons.prems show False by (auto simp: catalogue_ok_def)
  qed
  ultimately show ?case using Cons.IH [OF ok] by (auto simp: f)
qed (simp add: model_entries_def)

text \<open>
  The catalogue is complete and unambiguous: for providers with distinct ids that contain no slash,
  the capabilities found under a key are exactly those of the model with that provider and model id.
\<close>

theorem capabilities_exact:
  assumes "catalogue_ok ps"
  shows "map_of (capabilities_of ps) k = Some c \<longleftrightarrow>
    (\<exists>p \<in> set ps. \<exists>(mk, m) \<in> set (pv_Models p). k = model_key (pv_ID p) mk \<and> c = model_capability (pv_ID p) mk m)"
proof -
  note d = model_entries_distinct [OF assms]
  have "map_of (capabilities_of ps) k = map_of (model_entries ps) k"
    unfolding capabilities_fold am.get_fold_put map_of_rev_distinct [OF d] by (cases "map_of (model_entries ps) k") auto
  also have "\<dots> = Some c \<longleftrightarrow> (k, c) \<in> set (model_entries ps)" using d by (simp add: map_of_eq_Some_iff)
  also have "\<dots> \<longleftrightarrow> (\<exists>p \<in> set ps. \<exists>(mk, m) \<in> set (pv_Models p). k = model_key (pv_ID p) mk \<and> c = model_capability (pv_ID p) mk m)"
    by (auto simp: model_entries_def)
  finally show ?thesis .
qed

definition plain_model :: modelEntry where
  "plain_model = (let b = \<lparr>mb_Text = True, mb_Audio = False, mb_Image = False, mb_Video = False, mb_PDF = False\<rparr>
     in \<lparr>me_ID = ''m'', me_Name = ''M'', me_Capabilities = \<lparr>cpb_Temperature = True, cpb_Reasoning = False, cpb_Toolcall = True,
          cpb_Attachment = False, cpb_Interleaved = False, cpb_Input = b, cpb_Output = b\<rparr>, me_ContextLimit = 0, me_OutputLimit = 0\<rparr>)"

theorem capabilities_exact_witness:
  "map_of (capabilities_of [\<lparr>pv_ID = ''lmstudio'', pv_Models = [(''qwen/q3'', plain_model)]\<rparr>]) ''lmstudio/qwen/q3'' =
     Some (model_capability ''lmstudio'' ''qwen/q3'' plain_model)"
  using capabilities_exact [of "[\<lparr>pv_ID = ''lmstudio'', pv_Models = [(''qwen/q3'', plain_model)]\<rparr>]" "''lmstudio/qwen/q3''"]
  by (auto simp: catalogue_ok_def model_key_def)

text \<open>Without the condition two models can share a key, and one of them is lost.\<close>

lemma capabilities_can_collide:
  "length (capabilities_of [\<lparr>pv_ID = ''a'', pv_Models = [(''b/c'', plain_model)]\<rparr>,
     \<lparr>pv_ID = ''a/b'', pv_Models = [(''c'', plain_model)]\<rparr>]) = 1"
  by (simp add: capabilities_of_def model_key_def)

end
