(* ===== verification/ToolHelpers.thy ===== *)
theory ToolHelpers
  imports Bridge Content
begin

text \<open>
  The helpers for tool authors that need a codec (\<open>mcp_helpers.go\<close>): \<open>ImageResult\<close>, with its base64
  payload, and \<open>ParseArguments\<close>, which decodes the arguments of a call into a value of the author's
  type. \<open>encoding/json\<close> is a parameter; the decoder writes into the destination it is given, also
  when it fails half-way.
\<close>

section \<open>Image results\<close>

definition ImageResult :: "string \<Rightarrow> string \<Rightarrow> ToolOutput" where
  "ImageResult data mimeType =
     \<lparr>to_Text = ''[image '' @ mimeType @ '' '' @ nat_digits (length data) @ '' bytes]'',
      to_Structured = Some (JObj [(''type'', JStr ''image''), (''data'', JStr (StdEncodeToString data)), (''mimeType'', JStr mimeType)]),
      to_IsError = False\<rparr>"

text \<open>What the agent reads in the structured content of a result.\<close>

definition image_of :: "CallToolResult \<Rightarrow> (string \<times> string) option" where
  "image_of res =
     (case ctr_Structured res of
        Some (JObj kvs) \<Rightarrow>
          (case (map_of kvs ''data'', map_of kvs ''mimeType'') of
             (Some (JStr d), Some (JStr m)) \<Rightarrow> map_option (\<lambda>bytes. (bytes, m)) (StdDecodeString d)
           | _ \<Rightarrow> None)
      | _ \<Rightarrow> None)"

text \<open>
  An image arrives: when the handler of a tool returns an image result, the call is answered with a
  result that is no error, has a text for agents that understand nothing else, and carries exactly
  the bytes and the type.
\<close>

theorem image_arrives:
  assumes "coerceArguments unmarshal remarshal args = Inr inp"
    and "td_Handler d inp ce = (Inl (Some (ImageResult data mimeType)), ce1)"
  shows "\<exists>res ce2. call_tool unmarshal remarshal d args ce = (res, ce2) \<and> \<not> ctr_IsError res \<and>
    ctr_Content res \<noteq> [] \<and> image_of res = Some (data, mimeType)"
  using assms
  by (simp add: call_tool_def output_result_def ImageResult_def image_of_def StdDecode_Encode)

section \<open>Decoding arguments\<close>

text \<open>\<open>tname\<close> is the text \<open>%T\<close> prints for the destination.\<close>

definition ParseArguments :: "(payload \<Rightarrow> goerr + string) \<Rightarrow> (string \<Rightarrow> 'd \<Rightarrow> goerr option \<times> 'd) \<Rightarrow> string \<Rightarrow>
    payload \<Rightarrow> 'd option \<Rightarrow> goerr option \<times> 'd option" where
  "ParseArguments marshal unmarshal tname inp dst =
     (case dst of
        None \<Rightarrow> (Some (ENew ''opencodesdk: ParseArguments: dst must be non-nil''), None)
      | Some d \<Rightarrow>
          (case marshal inp of
             Inl err \<Rightarrow> (Some (errorf_s_w ''opencodesdk: ParseArguments: marshal input'' err), dst)
           | Inr raw \<Rightarrow>
               (case unmarshal raw d of
                  (Some err, d') \<Rightarrow> (Some (errorf_s_w (''opencodesdk: ParseArguments: decode into '' @ tname) err), Some d')
                | (None, d') \<Rightarrow> (None, Some d'))))"

text \<open>
  The destination is the author's view of the arguments: with a codec that reads back what it wrote
  (\<open>view\<close> is what the destination becomes for a payload), the value is the view of the arguments the
  bridge hands on; without an encoding of the arguments the destination is untouched.
\<close>

theorem ParseArguments_views:
  assumes "\<And>p raw d. marshal p = Inr raw \<Longrightarrow> unmarshal raw d = (None, view p d)"
  shows "ParseArguments marshal unmarshal tname inp (Some d) =
    (case marshal inp of
       Inl err \<Rightarrow> (Some (errorf_s_w ''opencodesdk: ParseArguments: marshal input'' err), Some d)
     | Inr _ \<Rightarrow> (None, Some (view inp d)))"
  using assms by (simp add: ParseArguments_def split: sum.splits)

end
