(* ===== verification/Spec2Isabelle.thy ===== *)
theory Spec2Isabelle
  imports RetryQuery Locking UserInput SessionStore BudgetRun PromptRun Content ModelCaps ToolHelpers
begin

text \<open>
  A model of the opencode agent SDK for Go and what is proved of it.

  The program. The SDK starts \<open>opencode acp\<close> as a subprocess and speaks the Agent Client Protocol with
  it. A client (\<open>client_impl.go\<close>) owns the subprocess, a table of sessions and a loopback tool bridge;
  a session (\<open>session_impl.go\<close>) owns a bounded channel of notifications, its subscribers and the table
  of running tool calls. The agent calls back for permissions, file accesses and elicitation
  (\<open>internal/handlers\<close>), and over HTTP for tools (\<open>internal/mcp/bridge\<close>). Around these: hooks, budgets
  and costs, retries, structured output, one-shot queries, and readers of opencode's own files.

  Conventions. A Go error is a value of \<open>goerr\<close>, which keeps what \<open>errors.Is\<close> and \<open>errors.As\<close> see; a
  fallible function returns a sum. A panic is \<open>None\<close> of an outer option. A pointer to an object that
  is shared (a session) is a number into a store; an option map shared between option sets is a
  reference into a heap. \<open>'w\<close> is the state of the user's code and of the agent; callbacks and RPCs are
  functions that transform it. A type in \<open>'w ce\<close> is the client with its environment (hooks that have
  fired, measurements and spans, operating system). Code that holds a lock is one step; where a lock is
  released in between, the code is split into the steps between the locks, and the interleavings are
  runs of a step relation, where such interleavings are studied (delivery in Session, the watchers in
  PromptRun, the two goroutines of a turn in Query, the exit of the process in Process, every lock in
  Locking). Elsewhere a call or a request is one step, also in the runs of a client. Integers are kept at their width where they can overflow (subscription
  numbers, line limits, delays); amounts of money are rationals (floating-point rounding, NaN and
  infinities are not modelled); a range loop over a map visits an association list in its order, which
  stands for the order Go chooses. Code outside the repository (the ACP connection, MCP, \<open>net/http\<close>,
  \<open>encoding/json\<close>, \<open>database/sql\<close>, the operating system) is a parameter, and what is needed of it is a
  named hypothesis.

  The theories, from the bottom up:

  GoBase, Interfaces, Filepath, OsModel, Acp: strings, integers, JSON values, association lists; the
  locales \<open>go_map\<close> and \<open>bounded_chan\<close> with their interpretations; \<open>path/filepath\<close>; files and the
  environment, where every operation may fail; the protocol's records as far as the SDK reads them.

  SdkErrors (\<open>errors.go\<close>, \<open>error_classification.go\<close>): the errors, their unwrapping and the classifier;
  the wrapping of RPC errors determines the class by the code, and the parts of a classification fit.

  Retry (\<open>retry_policy.go\<close>, \<open>resilient.go\<close>): the delays with their 64-bit steps and the retry loop.
  The loop is recursive with a measure (the attempts left), so it always returns; the attempts it
  reports and the error it ends with are determined.

  Cost, Budget (\<open>cost_tracker.go\<close>, \<open>budget_tracker.go\<close>): accumulation and persistence; a saved
  snapshot is read back, saving never damages an old one, an exceeded budget stays exceeded.

  Observability (\<open>internal/observability\<close>): the instruments as they are created, each measurement as the
  samples it adds, and the spans; the instruments are distinct and every sample is one its kind allows.

  Hooks, Permissions, FsHandlers (\<open>hooks.go\<close>, \<open>permissions.go\<close>, \<open>tool_filters.go\<close>,
  \<open>elicit_handler.go\<close>, \<open>internal/handlers/dispatcher.go\<close>, the instrumented callbacks of
  \<open>client_impl.go\<close>): dispatch equals a specification that collects the outputs of the selected callbacks
  and merges them; an approval is always backed by the filters or the user; a strict boundary lets
  exactly the writes inside the working directory through.

  StructuredOutput (\<open>structured_output.go\<close>, \<open>structured_output_tool.go\<close>): the capturing tool, the
  search for JSON in prose, decoding.

  Session (\<open>session_impl.go\<close>, \<open>updates.go\<close>, \<open>maxturns.go\<close>, \<open>capabilities.go\<close>): delivery in its two
  critical sections, with consumers and Close interleaved: nothing is lost or reordered without being
  counted, and no send hits a closed channel; tool calls refine a set of live calls; Prompt with its
  hooks, cancellation and the classification of its failure; the turn limit.

  PromptRun (\<open>session_impl.go\<close>): the goroutine with which a prompt watches its context, as a machine of
  all prompts of a session and of the session's lock, which others may hold: why a prompt ends as
  cancelled, what a watcher may do that outlives its prompt, and what it can wait for.

  Options (\<open>options.go\<close>, \<open>effort.go\<close>, \<open>mcp.go\<close>, \<open>logger.go\<close>, \<open>transport.go\<close>): every option and the merge
  of a session call's options over the client's; loggers, providers and transports are names of the
  caller's objects. \<open>OtherEffort\<close> is any effort text but the five
  levels.

  Registry, Lifecycle, SessionOps (\<open>client_impl.go\<close>, \<open>health.go\<close>, \<open>auth.go\<close>, \<open>unstable.go\<close>,
  \<open>effort.go\<close>, \<open>internal/observability/prometheus.go\<close>): \<open>NewClient\<close> with the providers its observer reports
  to; the table of sessions and the routing and buffering of notifications; Start, Close and
  the crash of the subprocess; creating, loading, forking and resuming a session, all or nothing.
  \<open>reg_inv\<close> is the invariant of the client that every operation keeps; \<open>settles\<close> says what a request
  may do to the client while it runs (route notifications, nothing to the table), and routing is shown
  to settle.

  Process (\<open>internal/cli\<close>, \<open>internal/subprocess\<close>, \<open>internal/tuimodel\<close>): discovery and the version
  floor, the environment of the subprocess as an overlay of maps, the report of its exit as a step
  relation.

  ProcessOutput (\<open>internal/subprocess\<close>, \<open>internal/serve\<close>): the lines of a subprocess's output, found
  however the output is cut into reads; the scanner equals a reference on the whole text.

  ProcessGroup (\<open>process_group_unix.go\<close>, \<open>process_group_windows.go\<close>): which signals are sent to kill a
  subprocess with its children, and that a kill without an error ended in a dead target.

  Base64, Bridge, ToolHelpers, UserInput (\<open>internal/mcp/bridge\<close>, \<open>elicit.go\<close>, \<open>mcp_helpers.go\<close>,
  \<open>user_input.go\<close>): the two base64 encodings with one decoder, stated once for an alphabet in a locale;
  the tool server behind its bearer token, a tool call with its results and measurement, the helpers for tool authors, and the built-in question tool.

  SessionStore (\<open>internal/session\<close>, \<open>stat_session.go\<close>): the SQL texts over opencode's database;
  \<open>answers\<close> is the meaning of the statements, and a driver that evaluates them on a table is shown to
  satisfy it.

  History (\<open>session_stat.go\<close>, \<open>load_history.go\<close>): the pages of a session listing (the iterator is a
  partial function and is shown to end when the agent serves finitely many pages), the messages of
  a replayed history as a grouping of its chunks, and what the calls of a client answer after a crash.

  Query (\<open>with_client.go\<close>, \<open>models.go\<close>, \<open>query.go\<close>): one-shot queries leave nothing running; the two
  goroutines of a turn as a step relation in which an append is a read and a write, with labels that
  tell their own steps from those of their surroundings: a turn waits for its prompt and for nothing
  else, and the number of its own steps is bounded by what is queued (\<open>turn_left\<close>). RetryQuery puts the
  retry loop around it: whatever the attempts do, every client they made is closed.

  Machine, Frames, ClientRun: the client as a whole. A run is a sequence of calls of the user, requests
  of the agent, closes and crashes in any order; a run never panics and keeps the registry sound, a
  closed client stays closed, and the SDK changes files only through the write handler (the agent, a
  process of its own, may change any set of files besides). \<open>Machine\<close> states
  what a machine owes for this in two locales, and \<open>Frames\<close> what no operation of a client touches: its
  locale \<open>client_preorder\<close> takes a preorder from the elementary steps to every operation, once for the
  files, once for the number of sessions and once for a session's cancellation mark. The steps of a
  prompt's watcher are cancellations among the events of a run.

  Locking: the lock operations of the SDK's operations and the goroutines that interleave them. Locks are
  ranked, every operation takes them upwards, so no set of goroutines deadlocks as long as the callbacks
  that run under a session's lock take only higher ones; one that does not can block for ever.

  BudgetRun: a budget at work in such a run, from the usage update that reaches the cap to the end of
  the prompt that is cancelled for it.

  Content, ModelCaps (\<open>content.go\<close>, \<open>model_capabilities.go\<close>, \<open>internal/serve\<close>): blocks from files
  with base64, and the catalogue of models read from a throw-away server that is always closed: it is
  killed and waited for, and that SIGKILL ends a process it reaches is a named hypothesis.

  The properties are numbered C1 to C40 in the texts that precede them, in every theory. Each theorem
  with hypotheses is followed by a concrete instance in which they hold. The last section of this
  theory puts the tool bridge, the prompt, the turn and the decoder together. A few theorems without a
  number show behaviour that differs from what a comment in the source says.

  Not modelled: the lines that are logged, and the OpenTelemetry and Prometheus libraries behind the
  instruments; the constants and aliases re-exported from the protocol package; the interface
  declarations of \<open>client.go\<close>, \<open>session.go\<close> and \<open>transport.go\<close> (the implementations are modelled); timing (a grace
  period ends when the schedule says so); \<open>PromptsFromChannel\<close> and \<open>PromptsFromSlice\<close>, which hand
  on what they are given; the locks of the caller's own and of the libraries.
\<close>

section \<open>Structured output, end to end\<close>

lemma find_marked:
  assumes "\<forall>n \<in> set ns. meta_get (sn_Meta n) structuredOutputMetaKey = None"
  shows "decodeFromNotifications marshal unmarshal (ns @ payload_note j # rest) =
    Some (convertStructured marshal unmarshal j)"
  using assms by (induction ns) (simp_all add: payload_note_def meta_get_def jget_def)

lemma attached_payload:
  assumes "fst (capture_drain cap) = Some p"
  shows "payload_of (Inr (fst (attach_payload (Some cap) resp))) = Some (JObj p)"
proof -
  obtain c' where "capture_drain cap = (Some p, c')" using assms by (metis prod.collapse)
  then show ?thesis by (simp add: attach_payload_def payload_of_def meta_get_def jget_def)
qed

text \<open>
  C8: Structured output end to end. With an output schema configured, an authorised call of the
  structured-output tool captures its arguments; the end of the prompt attaches them to its result;
  and when the caller of a query appends them to the notifications while the draining goroutine holds
  none, and none of the notifications captured before it carries a value under the key of the structured
  output, then however the turn goes on, the query returns a result from which the decoder gets exactly
  what it makes of the payload the agent sent. Both conditions are needed: a goroutine that holds a
  notification can overwrite the payload (\<open>Query.payload_can_be_lost\<close>), and the decoder takes the first
  notification with the key, so one that the agent sent itself goes before the payload. The call that
  counts is the last one before the prompt ends: nothing is assumed of the slot, which may hold the
  arguments of an earlier call, and they are overwritten, although the description the tool gives to
  the agent (\<open>structured_output_tool.go\<close>, line 132) says that the first call captures the answer and
  additional calls are discarded (\<open>StructuredOutput.capture_keeps_the_last\<close>).
\<close>

theorem structured_output_end_to_end:
  assumes tools: "assembleBridgeTools ask c = (Inr defs, c1)" "o_outputSchema (c_opts c) = Some schema"
    and call: "br_serving b" "under_mcp (tr_Path r)" "tr_Authorization r = ''Bearer '' @ br_token b"
      "tr_Tool r = StructuredOutputToolName" "tr_Args r = ArgsMap p"
      "serve unm remarshal b defs r (c1, e) = (answer, (c2, e2))"
    and prompt: "attach_payload (c_capture c2) resp = (resp', capture')"
    and turn: "turn_run (Inr resp') (turn_start chn) ns s" "tr_main s = Prompted" "in_hand (tr_drain s) = []"
      "\<forall>n \<in> set (tr_notes s). meta_get (sn_Meta n) structuredOutputMetaKey = None"
      "s1 = s\<lparr>tr_notes := tr_notes s @ [payload_note (JObj p)], tr_main := Waiting\<rparr>"
      "turn_run (Inr resp') s1 ms s'"
  shows "turn_run (Inr resp') s [] s1 \<and>
    (\<exists>q. runTurn_result sid (Inr resp') s' = Inr q \<and>
      fst (DecodeStructuredOutput marshal unmarshal (Some q) ob) = convertStructured marshal unmarshal (JObj p))"
proof -
  obtain cap where cap: "c_capture c2 = Some cap" "fst (capture_drain cap) = Some p"
    using structured_output_through_the_bridge [OF tools call(1-5), of unm remarshal e] call(6) by auto
  have pl: "payload_of (Inr resp') = Some (JObj p)"
    using attached_payload [OF cap(2), of resp] prompt cap(1) by simp
  have "past_append (tr_notes s @ [payload_note (JObj p)]) s1"
    using turn(3,5) by (cases "tr_drain s") (simp_all add: past_append_def)
  then have "past_append (tr_notes s @ [payload_note (JObj p)]) s'" by (rule past_append_run [OF turn(6)])
  then obtain rest where "tr_notes s' = tr_notes s @ payload_note (JObj p) # rest"
    by (auto simp: past_append_def prefix_def)
  with find_marked [OF turn(4)] have "decodeFromNotifications marshal unmarshal (tr_notes s') =
      Some (convertStructured marshal unmarshal (JObj p))" by simp
  then show ?thesis
    using undisturbed_append [OF turn(2) pl] turn(5) by (simp add: runTurn_result_def DecodeStructuredOutput_def)
qed

theorem structured_output_end_to_end_witness:
  "\<exists>defs c1 c2 e2 answer resp' cap' q. assembleBridgeTools demo_ask schema_client = (Inr defs, c1) \<and>
     serve no_codec (\<lambda>_. Inr []) demo_bridge defs \<lparr>tr_Path = ''/mcp'', tr_Authorization = ''Bearer t0k'',
       tr_Tool = StructuredOutputToolName, tr_Args = ArgsMap [(''x'', JNum 1)]\<rparr> (c1, demo_env) = (answer, (c2, e2)) \<and>
     attach_payload (c_capture c2) \<lparr>res_StopReason = ''end_turn'', res_Usage = None, res_Meta = None\<rparr> = (resp', cap') \<and>
     fst (DecodeStructuredOutput (\<lambda>_. Inr ''json'') Inr (Some q) []) = Inr ''json''"
proof -
  let ?r = "\<lparr>tr_Path = ''/mcp'', tr_Authorization = ''Bearer t0k'', tr_Tool = StructuredOutputToolName,
    tr_Args = ArgsMap [(''x'', JNum 1)]\<rparr>"
  let ?resp = "\<lparr>res_StopReason = ''end_turn'', res_Usage = None, res_Meta = None\<rparr>"
  have o: "o_outputSchema (c_opts schema_client) = Some [(''type'', JStr ''object'')]"
    by (simp add: schema_client_def newClient_sel)
  have "\<exists>defs. fst (assembleBridgeTools demo_ask schema_client) = Inr defs"
    by (simp add: assembleBridgeTools_def o schema_client_def newClient_sel defaultOptions_def Let_def)
  then obtain defs c1 where a: "assembleBridgeTools demo_ask schema_client = (Inr defs, c1)"
    by (metis prod.exhaust fst_conv)
  obtain answer c2 e2 where sv: "serve no_codec (\<lambda>_. Inr []) demo_bridge defs ?r (c1, demo_env) = (answer, (c2, e2))"
    by (metis prod.exhaust)
  obtain resp' cap' where at: "attach_payload (c_capture c2) ?resp = (resp', cap')" by (metis prod.exhaust)
  define s where "s = (turn_start (chan_new 4))\<lparr>tr_answered := True, tr_main := Prompted\<rparr>"
  have "turn_step (Inr resp') ((turn_start (chan_new 4))\<lparr>tr_answered := True\<rparr>) Own s"
    unfolding s_def by (rule turn_step.prompted) (simp_all add: turn_start_def prompt_over_def)
  then have t: "turn_run (Inr resp') (turn_start (chan_new 4)) [] s"
    using quiet_step [OF turn_step.answered own_notes(2)] quiet_step [OF _ own_notes(1) turn_run.start] by blast
  have "br_serving demo_bridge" "''Bearer t0k'' = ''Bearer '' @ br_token demo_bridge" "under_mcp (tr_Path ?r)"
    by (simp_all add: demo_bridge_def under_mcp_def)
  with structured_output_end_to_end [OF a o, of demo_bridge ?r "[(''x'', JNum 1)]" no_codec "\<lambda>_. Inr []" demo_env answer c2 e2
      ?resp resp' cap' "chan_new 4" "[]" s _ "[]" _ "''s1''" "\<lambda>_. Inr ''json''" Inr "[]", OF _ _ _ _ _ sv at t _ _ _ refl turn_run.start]
  obtain q where "fst (DecodeStructuredOutput (\<lambda>_. Inr ''json'') Inr (Some q) []) =
      convertStructured (\<lambda>_. Inr ''json'') Inr (JObj [(''x'', JNum 1)])"
    by (auto simp: s_def turn_start_def)
  then show ?thesis using a sv at by (auto simp: convertStructured_def)
qed

end
